(* ===== verification/Prelude.thy ===== *)
theory Prelude
  imports Main "HOL-Library.Sublist" "HOL-Library.List_Lexorder" "HOL-Library.Char_ord"
begin

text \<open>
  Shared vocabulary of the development.  A Go \<^verbatim>\<open>string\<close> is a sequence of bytes, so
  it is a \<^typ>\<open>string\<close> (a list of 8-bit characters); a Go \<^verbatim>\<open>int\<close> or
  \<^verbatim>\<open>int64\<close> is an \<^typ>\<open>int\<close> whose arithmetic is wrapped explicitly by
  \<open>wrap64\<close> wherever the source computes without a guard; a nil slice or pointer is
  \<open>None\<close>.  The string functions below are the ones of Go's \<^verbatim>\<open>strings\<close>
  package that the modelled sources call.
\<close>

section \<open>Collections of rewrite rules\<close>

named_theorems word_bounds \<open>bounds of the 64-bit integer model\<close>
named_theorems str_simps \<open>evaluation of the string library on constructors\<close>

section \<open>64-bit signed integers\<close>

definition MaxInt64 :: int where "MaxInt64 = 9223372036854775807"

definition MinInt64 :: int where "MinInt64 = - 9223372036854775808"

text \<open>Two's complement wrap-around of an unbounded result into 64 bits.\<close>

definition wrap64 :: "int \<Rightarrow> int" where
  "wrap64 x = (x + 9223372036854775808) mod 18446744073709551616 - 9223372036854775808"

definition in64 :: "int \<Rightarrow> bool" where
  "in64 x \<longleftrightarrow> MinInt64 \<le> x \<and> x \<le> MaxInt64"

lemma in64_wrap64 [word_bounds]: "in64 (wrap64 x)"
  by (auto simp: in64_def wrap64_def MinInt64_def MaxInt64_def)

lemma wrap64_id [simp]: "in64 x \<Longrightarrow> wrap64 x = x"
  by (simp add: in64_def wrap64_def MinInt64_def MaxInt64_def)

section \<open>Strings\<close>

text \<open>\<^verbatim>\<open>strings.HasPrefix\<close> is the library's \<^const>\<open>prefix\<close>.\<close>

abbreviation has_prefix :: "string \<Rightarrow> string \<Rightarrow> bool" where
  "has_prefix s p \<equiv> prefix p s"

text \<open>\<^verbatim>\<open>strings.IndexByte\<close>: the first position of a byte, if any.\<close>

fun index_byte :: "char \<Rightarrow> string \<Rightarrow> nat option" where
  "index_byte c [] = None"
| "index_byte c (x # xs) = (if x = c then Some 0 else map_option Suc (index_byte c xs))"

text \<open>\<^verbatim>\<open>strings.Split\<close> for a one-byte separator: always at least one part.\<close>

fun split_byte :: "char \<Rightarrow> string \<Rightarrow> string list" where
  "split_byte c [] = [[]]"
| "split_byte c (x # xs) =
     (if x = c then [] # split_byte c xs
      else (case split_byte c xs of [] \<Rightarrow> [[x]] | y # ys \<Rightarrow> (x # y) # ys))"

text \<open>\<^verbatim>\<open>strings.Join\<close>.\<close>

fun join :: "string \<Rightarrow> string list \<Rightarrow> string" where
  "join sep [] = []"
| "join sep [x] = x"
| "join sep (x # y # ys) = x @ sep @ join sep (y # ys)"

lemma index_byte_None_iff: "index_byte c xs = None \<longleftrightarrow> c \<notin> set xs"
  by (induction xs) auto

lemma index_byte_Some:
  "index_byte c xs = Some i \<Longrightarrow> i < length xs \<and> xs ! i = c \<and> c \<notin> set (take i xs)"
  by (induction xs arbitrary: i) (auto split: if_splits)

lemma index_byte_append: "c \<notin> set xs \<Longrightarrow> index_byte c (xs @ c # ys) = Some (length xs)"
  by (induction xs) auto

lemma index_byte_split: "index_byte c s = Some i \<longleftrightarrow> (\<exists>u v. s = u @ c # v \<and> c \<notin> set u \<and> i = length u)"
proof
  assume "index_byte c s = Some i"
  from index_byte_Some [OF this] id_take_nth_drop [of i s]
  have "s = take i s @ c # drop (Suc i) s \<and> c \<notin> set (take i s) \<and> i = length (take i s)" by simp
  then show "\<exists>u v. s = u @ c # v \<and> c \<notin> set u \<and> i = length u" by blast
qed (auto simp: index_byte_append)

lemma split_byte_not_Nil [simp]: "split_byte c s \<noteq> []"
  by (cases s) (auto split: list.splits)

lemma split_byte_no_sep: "c \<notin> set s \<Longrightarrow> split_byte c s = [s]"
  by (induction s) auto

lemma split_byte_append:
  "c \<notin> set s \<Longrightarrow> split_byte c (s @ c # t) = s # split_byte c t"
  by (induction s) (auto split: list.splits)

lemma split_byte_parts: "p \<in> set (split_byte c s) \<Longrightarrow> c \<notin> set p"
proof (induction s arbitrary: p)
  case Nil
  then show ?case by simp
next
  case (Cons x xs)
  show ?case
  proof (cases "split_byte c xs")
    case Nil
    then show ?thesis by simp
  next
    case (Cons y ys)
    with Cons.IH Cons.prems show ?thesis by (auto split: if_splits)
  qed
qed

lemma join_split_byte: "join [c] (split_byte c s) = s"
proof (induction s)
  case Nil
  then show ?case by simp
next
  case (Cons x xs)
  obtain y ys where yys: "split_byte c xs = y # ys"
    by (cases "split_byte c xs") auto
  show ?case
    using Cons.IH yys by (cases ys) auto
qed

lemma split_join_byte:
  "ps \<noteq> [] \<Longrightarrow> (\<forall>p \<in> set ps. c \<notin> set p) \<Longrightarrow> split_byte c (join [c] ps) = ps"
proof (induction "[c]" ps rule: join.induct)
  case (3 x y ys)
  then show ?case by (simp add: split_byte_append)
qed (auto simp: split_byte_no_sep)

section \<open>Scanning a list for the best element\<close>

text \<open>
  Several loops of the sources keep the best element seen so far and replace it only by a
  strictly better one.  \<open>best_by better xs\<close> is that loop: the first element that no later
  element beats, for a strict order \<open>better\<close>.
\<close>

fun best_from :: "('a \<Rightarrow> 'a \<Rightarrow> bool) \<Rightarrow> 'a \<Rightarrow> 'a list \<Rightarrow> 'a" where
  "best_from better b [] = b"
| "best_from better b (x # xs) = best_from better (if better x b then x else b) xs"

definition best_by :: "('a \<Rightarrow> 'a \<Rightarrow> bool) \<Rightarrow> 'a list \<Rightarrow> 'a option" where
  "best_by better xs = (case xs of [] \<Rightarrow> None | x # ys \<Rightarrow> Some (best_from better x ys))"

lemma best_from_in: "best_from better b xs \<in> insert b (set xs)"
proof (induction xs arbitrary: b)
  case (Cons x xs)
  show ?case
    using Cons.IH [of x] Cons.IH [of b] by auto
qed simp

lemma best_by_in: "best_by better xs = Some b \<Longrightarrow> b \<in> set xs"
  using best_from_in by (fastforce simp: best_by_def split: list.splits)

lemma best_by_None_iff [simp]: "best_by better xs = None \<longleftrightarrow> xs = []"
  by (simp add: best_by_def split: list.splits)

lemma sorted_distinct_remdups_adj: "sorted xs \<Longrightarrow> distinct (remdups_adj xs)"
  by (induction xs rule: remdups_adj.induct) (auto simp: order.antisym)

text \<open>
  A strict weak order (the contract the comparison functions of the sources meet): the
  loop then returns an element that nothing in the list beats.
\<close>

locale strict_weak =
  fixes better :: "'a \<Rightarrow> 'a \<Rightarrow> bool"
  assumes irrefl: "\<not> better x x"
    and trans: "better x y \<Longrightarrow> better y z \<Longrightarrow> better x z"
    and negtrans: "\<not> better x y \<Longrightarrow> \<not> better y z \<Longrightarrow> \<not> better x z"
begin

lemma asym: "better x y \<Longrightarrow> \<not> better y x"
  using irrefl trans by blast

lemma best_from_max: "y \<in> insert b (set xs) \<Longrightarrow> \<not> better y (best_from better b xs)"
proof (induction xs arbitrary: b y)
  case Nil
  then show ?case by (simp add: irrefl)
next
  case (Cons x xs)
  let ?b = "if better x b then x else b"
  have b: "\<not> better ?b (best_from better ?b xs)"
    by (rule Cons.IH) simp
  have "\<not> better y ?b" if "y = b \<or> y = x"
    using that asym irrefl by auto
  then show ?case
    using Cons b negtrans by (metis best_from.simps(2) insert_iff list.set(2))
qed

lemma best_by_max: "best_by better xs = Some b \<Longrightarrow> y \<in> set xs \<Longrightarrow> \<not> better y b"
  using best_from_max by (fastforce simp: best_by_def split: list.splits)

end

end
