(* ===== verification/Utf8.thy ===== *)
theory Utf8
  imports Prelude
begin

text \<open>
  The part of Go's \<^verbatim>\<open>unicode/utf8\<close> and \<^verbatim>\<open>unicode\<close> packages that the
  modelled sources use: decoding the first rune of a byte string, validity of a byte
  string, and the two character classes (control, white space) rejected by path and scope
  validation.
\<close>

section \<open>Decoding one rune\<close>

definition RuneError :: nat where "RuneError = 65533"

definition byte :: "char \<Rightarrow> nat" where "byte c = of_char c"

lemma byte_less [simp]: "byte c < 256"
  by (simp add: byte_def)

lemma byte_inject [simp]: "byte c = byte d \<longleftrightarrow> c = d"
  by (simp add: byte_def)

text \<open>
  The lead-byte table: the length of the encoding and the range of its second byte.
  \<open>None\<close> is a byte that cannot start an encoding of two or more bytes.
\<close>

definition utf8_lead :: "nat \<Rightarrow> (nat \<times> nat \<times> nat) option" where
  "utf8_lead b =
     (if 194 \<le> b \<and> b \<le> 223 then Some (2, 128, 191)
      else if b = 224 then Some (3, 160, 191)
      else if 225 \<le> b \<and> b \<le> 236 then Some (3, 128, 191)
      else if b = 237 then Some (3, 128, 159)
      else if 238 \<le> b \<and> b \<le> 239 then Some (3, 128, 191)
      else if b = 240 then Some (4, 144, 191)
      else if 241 \<le> b \<and> b \<le> 243 then Some (4, 128, 191)
      else if b = 244 then Some (4, 128, 143)
      else None)"

definition cont_byte :: "nat \<Rightarrow> bool" where
  "cont_byte b \<longleftrightarrow> 128 \<le> b \<and> b \<le> 191"

text \<open>\<^verbatim>\<open>utf8.DecodeRuneInString\<close>: the rune and the number of bytes it takes.\<close>

definition decode_rune :: "string \<Rightarrow> nat \<times> nat" where
  "decode_rune s =
     (case s of
        [] \<Rightarrow> (RuneError, 0)
      | c0 # rest \<Rightarrow>
          (let b0 = byte c0 in
           if b0 < 128 then (b0, 1)
           else (case utf8_lead b0 of
               None \<Rightarrow> (RuneError, 1)
             | Some (sz, lo, hi) \<Rightarrow>
                 (if length s < sz then (RuneError, 1)
                  else let b1 = byte (s ! 1) in
                  if b1 < lo \<or> hi < b1 then (RuneError, 1)
                  else if sz \<le> 2 then (b0 mod 32 * 64 + b1 mod 64, 2)
                  else let b2 = byte (s ! 2) in
                  if \<not> cont_byte b2 then (RuneError, 1)
                  else if sz \<le> 3 then (b0 mod 16 * 4096 + b1 mod 64 * 64 + b2 mod 64, 3)
                  else let b3 = byte (s ! 3) in
                  if \<not> cont_byte b3 then (RuneError, 1)
                  else (b0 mod 8 * 262144 + b1 mod 64 * 4096 + b2 mod 64 * 64 + b3 mod 64, 4)))))"

definition rune_width :: "string \<Rightarrow> nat" where
  "rune_width s = snd (decode_rune s)"

lemma rune_width_pos: "s \<noteq> [] \<Longrightarrow> 0 < rune_width s"
  by (auto simp: rune_width_def decode_rune_def Let_def split: list.splits option.splits)

lemma rune_width_le: "rune_width s \<le> length s"
  by (auto simp: rune_width_def decode_rune_def Let_def utf8_lead_def Suc_le_eq
      split: list.splits option.splits if_splits)

lemma rune_width_ascii: "byte c < 128 \<Longrightarrow> rune_width (c # s) = 1"
  by (simp add: rune_width_def decode_rune_def)

lemma rune_width_Nil [simp]: "rune_width [] = 0"
  by (simp add: rune_width_def decode_rune_def)

section \<open>The runes of a string\<close>

text \<open>
  The byte string cut at rune boundaries.  An invalid byte is a piece of its own, as the
  loops of the sources treat it.
\<close>

function runes :: "string \<Rightarrow> string list" where
  "runes s = (if s = [] then [] else take (rune_width s) s # runes (drop (rune_width s) s))"
  by pat_completeness auto
termination
  by (relation "measure length") (auto simp: rune_width_pos)

declare runes.simps [simp del]

lemma runes_Nil [simp]: "runes [] = []"
  by (simp add: runes.simps)

lemma runes_eq_Nil_iff [simp]: "runes s = [] \<longleftrightarrow> s = []"
  by (simp add: runes.simps)

lemma runes_nonempty:
  "s \<noteq> [] \<Longrightarrow> runes s = take (rune_width s) s # runes (drop (rune_width s) s)"
  by (subst runes.simps) simp

lemma runes_ascii: "byte c < 128 \<Longrightarrow> runes (c # s) = [c] # runes s"
  by (simp add: runes_nonempty rune_width_ascii)

lemma concat_runes: "concat (runes s) = s"
  by (induction s rule: runes.induct) (metis append_take_drop_id concat.simps(2) runes.simps concat.simps(1))

text \<open>Pure ASCII strings are their own rune sequence.\<close>

lemma runes_all_ascii: "\<forall>c \<in> set s. byte c < 128 \<Longrightarrow> runes s = map (\<lambda>c. [c]) s"
  by (induction s) (auto simp: runes_ascii)

section \<open>Validity and character classes\<close>

text \<open>The runes a \<^verbatim>\<open>range\<close> loop over a string yields, with their widths.\<close>

function decode_all :: "string \<Rightarrow> (nat \<times> nat) list" where
  "decode_all s = (if s = [] then [] else decode_rune s # decode_all (drop (rune_width s) s))"
  by pat_completeness auto
termination
  by (relation "measure length") (auto simp: rune_width_pos)

declare decode_all.simps [simp del]

lemma decode_all_Nil [simp]: "decode_all [] = []"
  by (simp add: decode_all.simps)

lemma decode_all_nonempty:
  "s \<noteq> [] \<Longrightarrow> decode_all s = decode_rune s # decode_all (drop (rune_width s) s)"
  by (subst decode_all.simps) simp

lemma decode_all_ascii: "byte c < 128 \<Longrightarrow> decode_all (c # s) = (byte c, 1) # decode_all s"
  by (simp add: decode_all_nonempty rune_width_ascii) (simp add: decode_rune_def)

text \<open>\<^verbatim>\<open>utf8.ValidString\<close>, \<^verbatim>\<open>unicode.IsControl\<close> and \<^verbatim>\<open>unicode.IsSpace\<close>.\<close>

definition bad_rune :: "nat \<times> nat \<Rightarrow> bool" where
  "bad_rune rw \<longleftrightarrow> fst rw = RuneError \<and> snd rw \<le> 1"

definition valid_string :: "string \<Rightarrow> bool" where
  "valid_string s \<longleftrightarrow> list_all (\<lambda>rw. \<not> bad_rune rw) (decode_all s)"

definition is_control :: "nat \<Rightarrow> bool" where
  "is_control r \<longleftrightarrow> r < 32 \<or> 127 \<le> r \<and> r < 160"

definition is_space :: "nat \<Rightarrow> bool" where
  "is_space r \<longleftrightarrow> r \<in> {9, 10, 11, 12, 13, 32, 133, 160, 5760, 8232, 8233, 8239, 8287, 12288} \<or>
     8192 \<le> r \<and> r \<le> 8202"

lemma valid_string_Nil [simp]: "valid_string []"
  by (simp add: valid_string_def)

lemma valid_string_step:
  "s \<noteq> [] \<Longrightarrow>
   valid_string s \<longleftrightarrow> \<not> bad_rune (decode_rune s) \<and> valid_string (drop (rune_width s) s)"
  by (simp add: valid_string_def decode_all_nonempty)

section \<open>Concatenation\<close>

text \<open>A well-formed first rune is decoded the same way whatever follows it.\<close>

lemma utf8_lead_Some:
  "utf8_lead b = Some (sz, lo, hi) \<Longrightarrow> (sz = 2 \<or> sz = 3 \<or> sz = 4) \<and> 128 \<le> lo"
  by (auto simp: utf8_lead_def split: if_splits)

lemma decode_rune_append:
  assumes "s \<noteq> []" and "\<not> bad_rune (decode_rune s)"
  shows "decode_rune (s @ t) = decode_rune s"
proof -
  obtain c0 rest where s: "s = c0 # rest" using assms(1) by (cases s) auto
  consider (ascii) "byte c0 < 128" | (lead) sz lo hi where "utf8_lead (byte c0) = Some (sz, lo, hi)"
    "\<not> byte c0 < 128" "sz \<le> length s"
    using assms(2) s by (auto simp: decode_rune_def bad_rune_def Let_def split: if_splits option.splits)
  then show ?thesis
  proof cases
    case ascii
    with s show ?thesis by (simp add: decode_rune_def)
  next
    case lead
    from utf8_lead_Some [OF lead(1)] have sz: "sz = 2 \<or> sz = 3 \<or> sz = 4" by simp
    have nth: "(rest @ t) ! 0 = rest ! 0" "2 < sz \<Longrightarrow> (rest @ t) ! 1 = rest ! 1"
      "3 < sz \<Longrightarrow> (rest @ t) ! 2 = rest ! 2"
      using lead(3) s sz by (auto simp: nth_append)
    show ?thesis
      using sz lead nth unfolding s by (elim disjE) (auto simp: decode_rune_def Let_def Suc_le_eq)
  qed
qed

text \<open>An ASCII byte never continues a rune, so it is always decoded on its own.\<close>

lemma rune_width_lead:
  "1 < rune_width (c0 # rest) \<Longrightarrow>
   \<exists>lo hi. utf8_lead (byte c0) = Some (rune_width (c0 # rest), lo, hi) \<and> \<not> byte c0 < 128"
  by (auto simp: rune_width_def decode_rune_def Let_def dest: utf8_lead_Some
      split: if_splits option.splits)

lemma rune_bytes_high:
  assumes "1 < rune_width s" and "i < rune_width s"
  shows "128 \<le> byte (s ! i)"
proof -
  obtain c0 rest where s: "s = c0 # rest" using assms(1) by (cases s) auto
  obtain lo hi where l: "utf8_lead (byte c0) = Some (rune_width s, lo, hi)" "\<not> byte c0 < 128"
    using rune_width_lead assms(1) s by blast
  define w where "w = rune_width s"
  have w: "w = 2 \<or> w = 3 \<or> w = 4" and lo: "128 \<le> lo"
    using utf8_lead_Some [OF l(1)] by (auto simp: w_def)
  have "snd (decode_rune s) = w" by (simp add: w_def rune_width_def)
  with s l(1) [folded w_def] l(2) lo w
  have "128 \<le> byte (s ! 1)" "2 < w \<Longrightarrow> 128 \<le> byte (s ! 2)" "3 < w \<Longrightarrow> 128 \<le> byte (s ! 3)"
    by (auto simp: decode_rune_def Let_def cont_byte_def split: if_splits)
  moreover have "i = 0 \<or> i = 1 \<or> i = 2 \<and> 2 < w \<or> i = 3 \<and> 3 < w"
    using assms(2) w by (auto simp: w_def)
  ultimately show ?thesis
    using s l(2) by auto
qed

lemma decode_rune_prefix:
  assumes "1 < rune_width (s @ t)" and "rune_width (s @ t) \<le> length s"
  shows "rune_width s = rune_width (s @ t)"
proof -
  obtain c0 rest where s: "s = c0 # rest" using assms by (cases s) auto
  define w where "w = rune_width (s @ t)"
  obtain lo hi where l: "utf8_lead (byte c0) = Some (w, lo, hi)" "\<not> byte c0 < 128"
    using rune_width_lead [of c0 "rest @ t"] assms(1) s by (auto simp: w_def)
  have "snd (decode_rune (s @ t)) = w" by (simp add: w_def rune_width_def)
  then have "snd (decode_rune s) = w"
    using s l assms(1,2) [folded w_def] utf8_lead_Some [OF l(1)]
    by (auto simp: decode_rune_def Let_def nth_append split: if_splits)
  then show ?thesis by (simp add: w_def rune_width_def)
qed

lemma rune_width_append_ascii:
  assumes "s \<noteq> []" and "byte c < 128"
  shows "rune_width (s @ c # t) = rune_width s"
proof (cases "bad_rune (decode_rune s)")
  case False
  with assms(1) show ?thesis by (simp add: rune_width_def decode_rune_append)
next
  case True
  then have w: "rune_width s = 1"
    using rune_width_pos [OF assms(1)] by (simp add: bad_rune_def rune_width_def)
  have "\<not> 1 < rune_width (s @ c # t)"
  proof
    assume long: "1 < rune_width (s @ c # t)"
    have "\<not> length s < rune_width (s @ c # t)"
      using rune_bytes_high [OF long, of "length s"] assms(2) by auto
    with decode_rune_prefix [OF long] w long show False by simp
  qed
  then show ?thesis
    using w rune_width_pos [of "s @ c # t"] by simp
qed

lemma runes_append_valid: "valid_string s \<Longrightarrow> runes (s @ t) = runes s @ runes t"
proof (induction s rule: runes.induct)
  case (1 s)
  show ?case
  proof (cases "s = []")
    case False
    let ?w = "rune_width s"
    have v: "\<not> bad_rune (decode_rune s)" "valid_string (drop ?w s)"
      using "1.prems" False by (auto simp: valid_string_step)
    have w: "rune_width (s @ t) = ?w" "?w \<le> length s"
      using False v by (auto simp: rune_width_def decode_rune_append rune_width_le [unfolded rune_width_def])
    have "runes (s @ t) = take ?w s # runes (drop ?w s @ t)"
      using False w by (subst runes_nonempty) auto
    with "1.IH" [OF False v(2)] False show ?thesis
      by (simp add: runes_nonempty)
  qed simp
qed

lemma runes_append_ascii: "byte c < 128 \<Longrightarrow> runes (s @ c # t) = runes s @ [c] # runes t"
proof (induction s rule: runes.induct)
  case (1 s)
  show ?case
  proof (cases "s = []")
    case False
    let ?w = "rune_width s"
    have w: "rune_width (s @ c # t) = ?w" "?w \<le> length s"
      using False 1 by (simp_all add: rune_width_append_ascii rune_width_le)
    have "runes (s @ c # t) = take ?w s # runes (drop ?w s @ c # t)"
      using False w by (subst runes_nonempty) auto
    with 1 False show ?thesis
      by (simp add: runes_nonempty)
  qed (use 1 in \<open>simp add: runes_ascii\<close>)
qed

lemma runes_inject [simp]: "runes s = runes t \<longleftrightarrow> s = t"
  by (metis concat_runes)

lemma bad_rune_width1:
  "s \<noteq> [] \<Longrightarrow> bad_rune (decode_rune s) \<longleftrightarrow> rune_width s = 1 \<and> \<not> byte (hd s) < 128"
  by (cases s) (auto simp: bad_rune_def rune_width_def decode_rune_def Let_def RuneError_def dest: utf8_lead_Some
      split: if_splits option.splits)

lemma valid_string_append_ascii:
  "byte c < 128 \<Longrightarrow> valid_string (s @ c # t) \<longleftrightarrow> valid_string s \<and> valid_string t"
proof (induction s rule: runes.induct)
  case (1 s)
  show ?case
  proof (cases "s = []")
    case True
    with 1 show ?thesis
      by (simp add: valid_string_step [of "c # t"] rune_width_ascii bad_rune_width1)
  next
    case False
    have w: "rune_width (s @ c # t) = rune_width s" "rune_width s \<le> length s"
      using False 1 by (simp_all add: rune_width_append_ascii rune_width_le)
    with 1 False show ?thesis
      by (simp add: valid_string_step [of s] valid_string_step [of "s @ c # t"] bad_rune_width1)
  qed
qed

lemma valid_string_ascii_append:
  "\<forall>c \<in> set u. byte c < 128 \<Longrightarrow> valid_string (u @ t) \<longleftrightarrow> valid_string t"
  by (induction u) (simp_all add: valid_string_append_ascii [of _ "[]", simplified])

text \<open>
  \<^verbatim>\<open>strings.EqualFold\<close> decodes both strings and compares the runes under simple case folding.
  The orbits of the ASCII letters contain the Kelvin sign (with k) and the long s (with s); other
  runes are compared as they are, which is exact when one of the strings is ASCII, as the
  callers' method names and URL schemes are.
\<close>

definition fold_rune :: "nat \<Rightarrow> nat" where
  "fold_rune r =
     (if 65 \<le> r \<and> r \<le> 90 then r + 32 else if r = 8490 then 107 else if r = 383 then 115 else r)"

definition EqualFold :: "string \<Rightarrow> string \<Rightarrow> bool" where
  "EqualFold s t \<longleftrightarrow> map (fold_rune \<circ> fst) (decode_all s) = map (fold_rune \<circ> fst) (decode_all t)"

end
