(* ===== verification/Glob.thy ===== *)
theory Glob
  imports Utf8
begin

text \<open>
  The wildcard matcher of API token scopes, \<^verbatim>\<open>internal/pkg/glob/glob.go\<close>.
  \<^verbatim>\<open>Match\<close> is a single loop that remembers only the last star; it is modelled with
  the source's four loop variables and proved equal to the declarative meaning of a
  pattern (\<open>glob_matches\<close>, over runes).
\<close>

section \<open>The loop\<close>

text \<open>
  One turn of the loop body up to the \<^verbatim>\<open>continue\<close> statements: \<open>Some\<close> of the new
  variables when a pattern element consumed input, \<open>None\<close> when the source falls through
  to the backtracking code.  \<open>star\<close> holds \<^verbatim>\<open>starPI, starSI\<close>, and \<open>None\<close>
  is the source's \<open>-1, -1\<close>.
\<close>

definition match_step ::
  "string \<Rightarrow> string \<Rightarrow> nat \<Rightarrow> nat \<Rightarrow> (nat \<times> nat) option \<Rightarrow>
     (nat \<times> nat \<times> (nat \<times> nat) option) option" where
  "match_step p s pi si star =
     (if pi < length p then
        if p ! pi = CHR ''*'' then Some (pi + 1, si, Some (pi + 1, si))
        else if p ! pi = CHR ''?'' then Some (pi + 1, si + rune_width (drop si s), star)
        else
          (let pw = rune_width (drop pi p); sw = rune_width (drop si s) in
           if pw = sw \<and> take pw (drop pi p) = take sw (drop si s)
           then Some (pi + pw, si + sw, star) else None)
      else None)"

text \<open>
  The variables are in step when the star lies at or before the current position.  Every
  turn reaches or keeps this, which is what makes the loop terminate.
\<close>

definition star_ok :: "nat \<Rightarrow> nat \<Rightarrow> (nat \<times> nat) option \<Rightarrow> bool" where
  "star_ok pi si star = (case star of None \<Rightarrow> True | Some (a, b) \<Rightarrow> a \<le> pi \<and> b \<le> si)"

function match_loop :: "string \<Rightarrow> string \<Rightarrow> nat \<Rightarrow> nat \<Rightarrow> (nat \<times> nat) option \<Rightarrow> bool" where
  "match_loop p s pi si star =
     (if si < length s then
        (case match_step p s pi si star of
           Some (pi', si', star') \<Rightarrow> match_loop p s pi' si' star'
         | None \<Rightarrow>
             (case star of
                None \<Rightarrow> False
              | Some (starPI, starSI) \<Rightarrow>
                  (let starSI' = starSI + rune_width (drop starSI s)
                   in match_loop p s starPI starSI' (Some (starPI, starSI')))))
      else dropWhile (\<lambda>c. c = CHR ''*'') (drop pi p) = [])"
  by pat_completeness auto
termination
proof (relation "measures
    [\<lambda>(p, s, pi, si, star). if star_ok pi si star then 0 else 1,
     \<lambda>(p, s, pi, si, star). case star of None \<Rightarrow> length p + 1 | Some (a, b) \<Rightarrow> length p - a,
     \<lambda>(p, s, pi, si, star). case star of None \<Rightarrow> 0 | Some (a, b) \<Rightarrow> length s - b,
     \<lambda>(p, s, pi, si, star). length s - si]", goal_cases)
  case 1
  then show ?case by simp
next
  case (2 p s pi si star t)
  then show ?case
    using rune_width_pos [of "drop (snd t) s"]
    by (auto simp: star_ok_def split: if_splits)
next
  case (3 p s pi si star t)
  then have "0 < rune_width (drop si s)"
    by (simp add: rune_width_pos)
  with 3 show ?case
    by (auto simp: match_step_def star_ok_def Let_def split: if_splits option.splits)
qed

declare match_loop.simps [simp del]

text \<open>\<^verbatim>\<open>Match(pattern, s)\<close> and \<^verbatim>\<open>HasWildcard(pattern)\<close>.\<close>

definition Match :: "string \<Rightarrow> string \<Rightarrow> bool" where
  "Match pattern s = match_loop pattern s 0 0 None"

definition HasWildcard :: "string \<Rightarrow> bool" where
  "HasWildcard pattern \<longleftrightarrow> CHR ''*'' \<in> set pattern \<or> CHR ''?'' \<in> set pattern"

section \<open>What a pattern means\<close>

text \<open>
  Over rune sequences: a star stands for any sequence, a question mark for one rune, any
  other rune for itself.
\<close>

inductive glob_matches :: "string list \<Rightarrow> string list \<Rightarrow> bool" where
  finish: "glob_matches [] []"
| star_skip: "glob_matches p s \<Longrightarrow> glob_matches (''*'' # p) s"
| star_take: "glob_matches (''*'' # p) s \<Longrightarrow> glob_matches (''*'' # p) (r # s)"
| question: "glob_matches p s \<Longrightarrow> glob_matches (''?'' # p) (r # s)"
| literal: "r \<noteq> ''*'' \<Longrightarrow> r \<noteq> ''?'' \<Longrightarrow> glob_matches p s \<Longrightarrow> glob_matches (r # p) (r # s)"

inductive_simps glob_matches_Nil [simp]: "glob_matches [] s"
inductive_simps glob_matches_star: "glob_matches (''*'' # p) s"
inductive_simps glob_matches_question [simp]: "glob_matches (''?'' # p) s"
inductive_cases glob_matches_ConsE: "glob_matches (r # p) s"

lemma glob_matches_literal:
  "r \<noteq> ''*'' \<Longrightarrow> r \<noteq> ''?'' \<Longrightarrow>
   glob_matches (r # p) s \<longleftrightarrow> (\<exists>s'. s = r # s' \<and> glob_matches p s')"
  by (auto elim: glob_matches_ConsE intro: glob_matches.literal)

lemma glob_matches_star_Nil: "glob_matches (''*'' # p) [] \<longleftrightarrow> glob_matches p []"
  by (subst glob_matches_star) auto

lemma glob_matches_star_suffix:
  "glob_matches (''*'' # p) s \<longleftrightarrow> (\<exists>t. suffix t s \<and> glob_matches p t)"
proof (induction s)
  case Nil
  show ?case by (subst glob_matches_star) auto
next
  case (Cons r s)
  have "glob_matches (''*'' # p) (r # s) \<longleftrightarrow>
      glob_matches p (r # s) \<or> glob_matches (''*'' # p) s"
    by (subst glob_matches_star) auto
  also have "\<dots> \<longleftrightarrow> (\<exists>t. suffix t (r # s) \<and> glob_matches p t)"
    unfolding Cons.IH by (auto simp: suffix_Cons)
  finally show ?case .
qed

lemma glob_matches_suffix_star:
  "glob_matches (''*'' # p) t \<Longrightarrow> suffix t s \<Longrightarrow> glob_matches (''*'' # p) s"
  by (auto simp: glob_matches_star_suffix intro: suffix_order.trans)

text \<open>A star-free block consumes exactly as many runes as it has.\<close>

lemma glob_matches_star_free_append:
  "''*'' \<notin> set l \<Longrightarrow> glob_matches (l @ p) t \<Longrightarrow>
   \<exists>t1 t2. t = t1 @ t2 \<and> length t1 = length l \<and> glob_matches p t2"
proof (induction l arbitrary: t)
  case Nil
  then show ?case by auto
next
  case (Cons r l)
  from Cons.prems have ne: "r \<noteq> ''*''" by auto
  obtain c t' where t: "t = c # t'" and m: "glob_matches (l @ p) t'"
    using Cons.prems(2) ne by (auto elim: glob_matches_ConsE)
  from Cons.IH [OF _ m] Cons.prems(1)
  obtain t1 t2 where "t' = t1 @ t2" "length t1 = length l" "glob_matches p t2" by auto
  with t have "t = (c # t1) @ t2 \<and> length (c # t1) = length (r # l) \<and> glob_matches p t2"
    by simp
  then show ?case by blast
qed

lemma glob_matches_empty_input:
  "glob_matches (runes p) [] \<longleftrightarrow> dropWhile (\<lambda>c. c = CHR ''*'') p = []"
proof (induction p rule: runes.induct)
  case (1 p)
  show ?case
  proof (cases p)
    case Nil
    then show ?thesis by simp
  next
    case (Cons c cs)
    show ?thesis
    proof (cases "c = CHR ''*''")
      case True
      then have "runes p = ''*'' # runes cs"
        using Cons by (simp add: runes_ascii byte_def)
      moreover have "drop (rune_width p) p = cs"
        using Cons True by (simp add: rune_width_ascii byte_def)
      ultimately show ?thesis
        using "1.IH" Cons True by (simp add: glob_matches_star_Nil)
    next
      case False
      have "0 < rune_width p" using Cons by (simp add: rune_width_pos)
      then have "hd (runes p) \<noteq> ''*''"
        using Cons False by (cases "rune_width p") (auto simp: runes_nonempty)
      then have "\<not> glob_matches (runes p) []"
        using Cons by (auto simp: runes_nonempty elim: glob_matches_ConsE)
      with Cons False show ?thesis by simp
    qed
  qed
qed

section \<open>The loop computes the meaning\<close>

text \<open>
  What the loop variables mean.  Since the last star, pattern and input advanced in step
  over a star-free stretch of the pattern.
\<close>

definition glob_inv :: "string \<Rightarrow> string \<Rightarrow> nat \<Rightarrow> nat \<Rightarrow> (nat \<times> nat) option \<Rightarrow> bool" where
  "glob_inv p s pi si star =
     (case star of
        None \<Rightarrow> True
      | Some (a, b) \<Rightarrow>
          (\<exists>l m. runes (drop a p) = l @ runes (drop pi p) \<and>
             runes (drop b s) = m @ runes (drop si s) \<and>
             length l = length m \<and> ''*'' \<notin> set l))"

text \<open>What is still to be tried when the current attempt fails: a longer match of the star.\<close>

definition retry_matches :: "string \<Rightarrow> string \<Rightarrow> (nat \<times> nat) option \<Rightarrow> bool" where
  "retry_matches p s star =
     (case star of
        None \<Rightarrow> False
      | Some (a, b) \<Rightarrow>
          (\<exists>t. strict_suffix t (runes (drop b s)) \<and> glob_matches (runes (drop a p)) t))"

lemma runes_drop:
  "i < length s \<Longrightarrow>
   runes (drop i s) = take (rune_width (drop i s)) (drop i s) # runes (drop (i + rune_width (drop i s)) s)"
  by (subst runes_nonempty) (auto simp: add.commute)

lemma runes_drop_ascii:
  "i < length s \<Longrightarrow> byte (s ! i) < 128 \<Longrightarrow> runes (drop i s) = [s ! i] # runes (drop (i + 1) s)"
  by (metis Cons_nth_drop_Suc Suc_eq_plus1 runes_ascii)

lemma strict_suffix_Cons_iff: "strict_suffix t (r # s) \<longleftrightarrow> suffix t s"
  by (auto simp: strict_suffix_def suffix_Cons) (meson impossible_Cons suffix_length_le)

lemma suffix_of_shorter:
  "suffix t (m @ s) \<Longrightarrow> length t \<le> length s \<Longrightarrow> suffix t s"
  by (meson suffixI suffix_length_suffix)

lemma rune_head:
  "i < length s \<Longrightarrow> \<exists>t. take (rune_width (drop i s)) (drop i s) = s ! i # t"
proof -
  assume i: "i < length s"
  then obtain n where "rune_width (drop i s) = Suc n"
    using rune_width_pos [of "drop i s"] by (cases "rune_width (drop i s)") auto
  with i show ?thesis
    by (simp add: Cons_nth_drop_Suc [symmetric])
qed

lemma glob_inv_advance:
  assumes "glob_inv p s pi si star"
    and "runes (drop pi p) = r # runes (drop pi' p)" and "runes (drop si s) = c # runes (drop si' s)"
    and "r \<noteq> ''*''"
  shows "glob_inv p s pi' si' star"
proof (cases star)
  case (Some ab)
  obtain a b where "ab = (a, b)" by fastforce
  with Some assms(1) obtain l m where "runes (drop a p) = l @ runes (drop pi p)"
    "runes (drop b s) = m @ runes (drop si s)" "length l = length m" "''*'' \<notin> set l"
    by (auto simp: glob_inv_def)
  with assms(2-4) have "runes (drop a p) = (l @ [r]) @ runes (drop pi' p) \<and>
    runes (drop b s) = (m @ [c]) @ runes (drop si' s) \<and>
    length (l @ [r]) = length (m @ [c]) \<and> ''*'' \<notin> set (l @ [r])"
    by auto
  with Some \<open>ab = (a, b)\<close> show ?thesis
    unfolding glob_inv_def by auto
qed (simp add: glob_inv_def)

lemma match_step_Some:
  assumes "si < length s" and "glob_inv p s pi si star"
    and "match_step p s pi si star = Some (pi', si', star')"
  shows "glob_inv p s pi' si' star' \<and>
    (glob_matches (runes (drop pi' p)) (runes (drop si' s)) \<or> retry_matches p s star' \<longleftrightarrow>
     glob_matches (runes (drop pi p)) (runes (drop si s)) \<or> retry_matches p s star)"
proof -
  have pi: "pi < length p"
    using assms(3) by (auto simp: match_step_def split: if_splits)
  note S = runes_drop [OF assms(1)]
  let ?S = "runes (drop si s)" and ?w = "rune_width (drop si s)"
  consider (star) "p ! pi = CHR ''*''" | (question) "p ! pi = CHR ''?''"
    | (lit) "p ! pi \<noteq> CHR ''*''" "p ! pi \<noteq> CHR ''?''" by blast
  then show ?thesis
  proof cases
    case star
    let ?P = "runes (drop (pi + 1) p)"
    have P: "runes (drop pi p) = ''*'' # ?P"
      using pi star runes_drop_ascii [of pi p] by (simp add: byte_def)
    have eq: "pi' = pi + 1" "si' = si" "star' = Some (pi + 1, si)"
      using assms(3) pi star by (auto simp: match_step_def)
    have "glob_matches (runes (drop pi p)) ?S" if "retry_matches p s star"
    proof -
      from that obtain a b t where ab: "star = Some (a, b)"
        and t: "strict_suffix t (runes (drop b s))" "glob_matches (runes (drop a p)) t"
        by (auto simp: retry_matches_def split: option.splits)
      from assms(2) ab obtain l m where lm: "runes (drop a p) = l @ runes (drop pi p)"
        "runes (drop b s) = m @ ?S" "length l = length m" "''*'' \<notin> set l"
        by (auto simp: glob_inv_def)
      from glob_matches_star_free_append lm(1,4) t(2)
      obtain t1 t2 where t12: "t = t1 @ t2" "length t1 = length l" "glob_matches (''*'' # ?P) t2"
        unfolding P by metis
      have "suffix t2 (m @ ?S)"
        using t(1) t12(1) lm(2) by (metis strict_suffix_def suffix_append suffix_order.trans suffixI)
      moreover have "length t2 \<le> length ?S"
        using suffix_length_less [OF t(1)] t12(1,2) lm(2,3) by simp
      ultimately have "suffix t2 ?S" by (rule suffix_of_shorter)
      with t12(3) show ?thesis unfolding P by (rule glob_matches_suffix_star)
    qed
    moreover have "glob_matches (runes (drop pi p)) ?S \<longleftrightarrow> glob_matches ?P ?S \<or> retry_matches p s star'"
      unfolding P eq by (auto simp: glob_matches_star_suffix retry_matches_def strict_suffix_def)
    ultimately show ?thesis
      unfolding eq by (auto simp: glob_inv_def)
  next
    case question
    have P: "runes (drop pi p) = ''?'' # runes (drop (pi + 1) p)"
      using pi question runes_drop_ascii [of pi p] by (simp add: byte_def)
    have eq: "pi' = pi + 1" "si' = si + ?w" "star' = star"
      using assms(3) pi question by (auto simp: match_step_def)
    have "glob_inv p s pi' si' star'"
      using glob_inv_advance [OF assms(2) P S] unfolding eq by simp
    then show ?thesis
      unfolding eq P S by simp
  next
    case lit
    let ?r = "take (rune_width (drop pi p)) (drop pi p)"
    have P: "runes (drop pi p) = ?r # runes (drop (pi + rune_width (drop pi p)) p)"
      by (rule runes_drop [OF pi])
    have eq: "pi' = pi + rune_width (drop pi p)" "si' = si + ?w" "star' = star"
      "?r = take ?w (drop si s)"
      using assms(3) pi lit by (auto simp: match_step_def Let_def split: if_splits)
    have r: "?r \<noteq> ''*''" "?r \<noteq> ''?''"
      using rune_head [OF pi] lit by auto
    have "glob_inv p s pi' si' star'"
      using glob_inv_advance [OF assms(2) P S] r unfolding eq by simp
    then show ?thesis
      unfolding eq(1-3) P S by (simp add: glob_matches_literal r flip: eq(4))
  qed
qed

lemma no_retry_at_end:
  assumes "glob_inv p s pi si star" and "\<not> si < length s"
  shows "\<not> retry_matches p s star"
proof
  assume "retry_matches p s star"
  then obtain a b t where star: "star = Some (a, b)"
    and t: "strict_suffix t (runes (drop b s))" "glob_matches (runes (drop a p)) t"
    by (auto simp: retry_matches_def split: option.splits)
  from assms star obtain l where l: "runes (drop a p) = l @ runes (drop pi p)"
    "length l = length (runes (drop b s))" "''*'' \<notin> set l"
    by (auto simp: glob_inv_def)
  from glob_matches_star_free_append l(1,3) t(2)
  obtain t1 t2 where "t = t1 @ t2" "length t1 = length l" by metis
  with suffix_length_less [OF t(1)] l(2) show False by simp
qed

lemma match_step_None:
  assumes "si < length s" and "match_step p s pi si star = None"
  shows "\<not> glob_matches (runes (drop pi p)) (runes (drop si s))"
proof (cases "pi < length p")
  case True
  let ?r = "take (rune_width (drop pi p)) (drop pi p)" and ?c = "take (rune_width (drop si s)) (drop si s)"
  have lit: "p ! pi \<noteq> CHR ''*''" "p ! pi \<noteq> CHR ''?''"
    and ne: "\<not> (rune_width (drop pi p) = rune_width (drop si s) \<and> ?r = ?c)"
    using assms True by (auto simp: match_step_def Let_def split: if_splits)
  have "length ?r = rune_width (drop pi p)" "length ?c = rune_width (drop si s)"
    by (simp_all add: min_absorb2 rune_width_le del: length_drop)
  with ne have "?r \<noteq> ?c" by metis
  moreover have "?r \<noteq> ''*''" "?r \<noteq> ''?''"
    using rune_head [OF True] lit by auto
  ultimately show ?thesis
    by (simp add: runes_drop [OF True] runes_drop [OF assms(1)] glob_matches_literal)
qed (use assms in simp)

lemma retry_matches_next:
  "b < length s \<Longrightarrow>
   retry_matches p s (Some (a, b)) \<longleftrightarrow>
     glob_matches (runes (drop a p)) (runes (drop (b + rune_width (drop b s)) s)) \<or>
     retry_matches p s (Some (a, b + rune_width (drop b s)))"
  unfolding retry_matches_def option.case prod.case
  by (subst runes_drop [of b s], assumption, subst strict_suffix_Cons_iff) (auto simp: strict_suffix_def)

lemma match_loop_correct:
  "glob_inv p s pi si star \<Longrightarrow>
   match_loop p s pi si star \<longleftrightarrow>
     glob_matches (runes (drop pi p)) (runes (drop si s)) \<or> retry_matches p s star"
proof (induction p s pi si star rule: match_loop.induct)
  case (1 p s pi si star)
  note unfold = match_loop.simps [of p s pi si star]
  consider (stop) "\<not> si < length s"
    | (step) pi' si' star' where "si < length s" "match_step p s pi si star = Some (pi', si', star')"
    | (fail) "si < length s" "match_step p s pi si star = None" "star = None"
    | (again) a b where "si < length s" "match_step p s pi si star = None" "star = Some (a, b)"
    by (metis option.exhaust prod_cases3 surj_pair)
  then show ?case
  proof cases
    case stop
    with "1.prems" show ?thesis
      by (simp add: unfold glob_matches_empty_input no_retry_at_end)
  next
    case step
    from match_step_Some [OF step(1) "1.prems" step(2)] "1.IH"(2) step
    show ?thesis by (simp add: unfold)
  next
    case fail
    show ?thesis
      unfolding unfold using fail match_step_None [OF fail(1,2)] by (simp add: retry_matches_def)
  next
    case again
    let ?b = "b + rune_width (drop b s)"
    from "1.prems" again obtain m where "runes (drop b s) = m @ runes (drop si s)"
      by (auto simp: glob_inv_def)
    with again(1) have "runes (drop b s) \<noteq> []" by simp
    then have b: "b < length s" by simp
    have "match_loop p s a ?b (Some (a, ?b)) \<longleftrightarrow>
      glob_matches (runes (drop a p)) (runes (drop ?b s)) \<or> retry_matches p s (Some (a, ?b))"
      using "1.IH"(1) again by (simp add: glob_inv_def)
    also have "\<dots> \<longleftrightarrow> retry_matches p s star"
      unfolding again(3) retry_matches_next [OF b] ..
    finally show ?thesis
      unfolding unfold using again match_step_None [OF again(1,2)] by (simp add: Let_def)
  qed
qed

lemma Match_iff: "Match pattern s \<longleftrightarrow> glob_matches (runes pattern) (runes s)"
  using match_loop_correct [of pattern s 0 0 None]
  by (simp add: Match_def glob_inv_def retry_matches_def)

lemma glob_matches_literals_append:
  "''*'' \<notin> set l \<Longrightarrow> ''?'' \<notin> set l \<Longrightarrow>
   glob_matches (l @ p) t \<longleftrightarrow> (\<exists>t'. t = l @ t' \<and> glob_matches p t')"
  by (induction l arbitrary: t) (auto simp: glob_matches_literal)

lemma runes_no_wildcard:
  assumes "\<not> HasWildcard p"
  shows "''*'' \<notin> set (runes p)" and "''?'' \<notin> set (runes p)"
proof -
  have "c \<in> set p" if "[c] \<in> set (runes p)" for c
    using that concat_runes [of p] by (metis UN_I list.set_intros(1) set_concat)
  with assms show "''*'' \<notin> set (runes p)" "''?'' \<notin> set (runes p)"
    by (auto simp: HasWildcard_def)
qed

section \<open>The contract of a path matcher\<close>

text \<open>
  What the authorization code relies on: a pattern without metacharacters names exactly one
  string, a pattern that ends in its only star names a subtree, and \<open>*\<close> names everything.
\<close>

locale path_glob =
  fixes gmatch :: "string \<Rightarrow> string \<Rightarrow> bool"
    and wild :: "string \<Rightarrow> bool"
  assumes exact: "\<not> wild p \<Longrightarrow> gmatch p s \<longleftrightarrow> s = p"
    and subtree: "\<not> wild p \<Longrightarrow> valid_string p \<Longrightarrow> gmatch (p @ ''*'') s \<longleftrightarrow> prefix p s"
    and everything: "gmatch ''*'' s"
begin

text \<open>Two subtrees neither of which contains the other share no string.\<close>

lemma subtrees_disjoint:
  assumes "\<not> wild p" "valid_string p" "\<not> wild q" "valid_string q"
    and "\<not> prefix p q" "\<not> prefix q p"
  shows "\<not> (gmatch (p @ ''*'') s \<and> gmatch (q @ ''*'') s)"
  using assms prefix_same_cases [of p s q] by (auto simp: subtree)

end

interpretation glob: path_glob Match HasWildcard
proof unfold_locales
  fix p s
  assume p: "\<not> HasWildcard p"
  show "Match p s \<longleftrightarrow> s = p"
    using glob_matches_literals_append [OF runes_no_wildcard [OF p], of "[]" "runes s"]
    by (auto simp: Match_iff)
next
  fix p s
  assume p: "\<not> HasWildcard p" and v: "valid_string p"
  have "Match (p @ ''*'') s \<longleftrightarrow> (\<exists>t. runes s = runes p @ t)"
    using glob_matches_literals_append [OF runes_no_wildcard [OF p], of "[''*'']" "runes s"]
    by (simp add: Match_iff runes_append_ascii byte_def glob_matches_star_suffix)
  also have "\<dots> \<longleftrightarrow> prefix p s"
    using runes_append_valid [OF v] concat_runes by (metis concat_append prefix_def)
  finally show "Match (p @ ''*'') s \<longleftrightarrow> prefix p s" .
next
  fix s
  show "Match ''*'' s"
    by (auto simp: Match_iff runes_ascii byte_def glob_matches_star_suffix)
qed

text \<open>
  C28. The single-pass loop decides exactly the declarative meaning of the pattern: keeping only
  the most recent star never loses a match, and every pattern without metacharacters names
  exactly one string.
\<close>

theorem Match_correct:
  "(Match pattern s \<longleftrightarrow> glob_matches (runes pattern) (runes s)) \<and>
   (HasWildcard pattern \<or> (Match pattern s \<longleftrightarrow> s = pattern))"
  using Match_iff glob.exact by blast

end
