(* ===== verification/Apperr.thy ===== *)
theory Apperr
  imports Prelude
begin

text \<open>
  Application errors, \<^verbatim>\<open>internal/apperr/apperr.go\<close>: an error carries an RPC code, a
  machine-readable reason, a message, a retry hint and an optional cause.  A formatted
  message is kept as its format string with the rendered arguments, since no code branches
  on the rendered text.  \<^verbatim>\<open>ToConnect\<close> decides what a client gets to see.
\<close>

section \<open>Errors as values\<close>

text \<open>The Connect codes, in the numeric order of the protocol (\<open>Canceled\<close> is 1).\<close>

datatype code = CodeCanceled | CodeUnknown | CodeInvalidArgument | CodeDeadlineExceeded
  | CodeNotFound | CodeAlreadyExists | CodePermissionDenied | CodeResourceExhausted
  | CodeFailedPrecondition | CodeAborted | CodeOutOfRange | CodeUnimplemented
  | CodeInternal | CodeUnavailable | CodeDataLoss | CodeUnauthenticated
  | CodeInvalid int

datatype message = Msg string "string list"

abbreviation msg :: "string \<Rightarrow> message" where "msg s \<equiv> Msg s []"

text \<open>
  A Go error value: an application error, an error of the RPC library, the two context
  errors, an error wrapped with a message (\<^verbatim>\<open>fmt.Errorf("...: %w", err)\<close>), or any
  other error.
\<close>

datatype gerror =
    AppError code string message int "gerror option"
  | ConnectError code message "gerror option"
  | ContextCanceled
  | ContextDeadline
  | Wrapped message gerror
  | OtherError message

abbreviation ReasonInternal :: string where "ReasonInternal \<equiv> ''internal''"
abbreviation ReasonInvalidArgument :: string where "ReasonInvalidArgument \<equiv> ''invalid_argument''"
abbreviation ReasonPermissionDenied :: string where "ReasonPermissionDenied \<equiv> ''permission_denied''"
abbreviation ReasonScopeMissing :: string where "ReasonScopeMissing \<equiv> ''scope_missing''"
abbreviation ReasonSessionInvalid :: string where "ReasonSessionInvalid \<equiv> ''session_invalid''"
abbreviation ReasonURIInvalid :: string where "ReasonURIInvalid \<equiv> ''uri_invalid''"
abbreviation ReasonFailedPrecondition :: string where "ReasonFailedPrecondition \<equiv> ''failed_precondition''"
abbreviation ReasonAlreadyExists :: string where "ReasonAlreadyExists \<equiv> ''already_exists''"
abbreviation ReasonConflict :: string where "ReasonConflict \<equiv> ''conflict''"
abbreviation ReasonNotFound :: string where "ReasonNotFound \<equiv> ''not_found''"

definition NewError :: "code \<Rightarrow> string \<Rightarrow> message \<Rightarrow> gerror" where
  "NewError c reason m = AppError c reason m 0 None"

definition InvalidArgument :: "string \<Rightarrow> message \<Rightarrow> gerror" where
  "InvalidArgument reason m =
     NewError CodeInvalidArgument (if reason = '''' then ReasonInvalidArgument else reason) m"

definition PermissionDenied :: "string \<Rightarrow> message \<Rightarrow> gerror" where
  "PermissionDenied reason m =
     NewError CodePermissionDenied (if reason = '''' then ReasonPermissionDenied else reason) m"

definition FailedPrecondition :: "string \<Rightarrow> message \<Rightarrow> gerror" where
  "FailedPrecondition reason m =
     NewError CodeFailedPrecondition (if reason = '''' then ReasonFailedPrecondition else reason) m"

definition Unauthenticated :: "string \<Rightarrow> message \<Rightarrow> gerror" where
  "Unauthenticated reason m = NewError CodeUnauthenticated reason m"

definition NotFound :: "message \<Rightarrow> gerror" where
  "NotFound m = NewError CodeNotFound ReasonNotFound m"

definition AlreadyExists :: "message \<Rightarrow> gerror" where
  "AlreadyExists m = NewError CodeAlreadyExists ReasonAlreadyExists m"

definition Conflict :: "message \<Rightarrow> gerror" where
  "Conflict m = NewError CodeAborted ReasonConflict m"

fun WithRetryAfter :: "gerror \<Rightarrow> int \<Rightarrow> gerror" where
  "WithRetryAfter (AppError c r m _ cause) ms = AppError c r m ms cause"
| "WithRetryAfter e ms = e"

fun WithCause :: "gerror \<Rightarrow> gerror option \<Rightarrow> gerror" where
  "WithCause (AppError c r m ms _) err = AppError c r m ms err"
| "WithCause e err = e"

definition ResourceExhausted :: "string \<Rightarrow> int \<Rightarrow> message \<Rightarrow> gerror" where
  "ResourceExhausted reason ms m = WithRetryAfter (NewError CodeResourceExhausted reason m) ms"

definition Unavailable :: "string \<Rightarrow> int \<Rightarrow> message \<Rightarrow> gerror" where
  "Unavailable reason ms m = WithRetryAfter (NewError CodeUnavailable reason m) ms"

definition Internal :: "gerror option \<Rightarrow> gerror" where
  "Internal err = AppError CodeInternal ReasonInternal (msg ''internal error'') 0 err"

section \<open>Walking the error chain\<close>

text \<open>The next error of the chain, as \<^verbatim>\<open>errors.Unwrap\<close> sees it.\<close>

fun unwrap :: "gerror \<Rightarrow> gerror option" where
  "unwrap (AppError _ _ _ _ cause) = cause"
| "unwrap (ConnectError _ _ cause) = cause"
| "unwrap (Wrapped _ e) = Some e"
| "unwrap _ = None"

lemma size_unwrap: "unwrap e = Some e' \<Longrightarrow> size e' < size e"
  by (cases e) auto

text \<open>\<^verbatim>\<open>errors.As\<close> / \<^verbatim>\<open>errors.Is\<close>: the first error of the chain with a property.\<close>

function find_in_chain :: "(gerror \<Rightarrow> bool) \<Rightarrow> gerror \<Rightarrow> gerror option" where
  "find_in_chain P e =
     (if P e then Some e else (case unwrap e of None \<Rightarrow> None | Some e' \<Rightarrow> find_in_chain P e'))"
  by pat_completeness auto
termination
  by (relation "measure (\<lambda>(P, e). size e)") (auto dest: size_unwrap)

declare find_in_chain.simps [simp del]

fun is_app :: "gerror \<Rightarrow> bool" where
  "is_app (AppError _ _ _ _ _) = True"
| "is_app _ = False"

fun is_connect :: "gerror \<Rightarrow> bool" where
  "is_connect (ConnectError _ _ _) = True"
| "is_connect _ = False"

definition As :: "gerror \<Rightarrow> gerror option" where
  "As e = find_in_chain is_app e"

fun e_reason :: "gerror \<Rightarrow> string" where
  "e_reason (AppError _ r _ _ _) = r"
| "e_reason _ = ''''"

definition ReasonOf :: "gerror \<Rightarrow> string" where
  "ReasonOf err = (case As err of Some e \<Rightarrow> e_reason e | None \<Rightarrow> '''')"

fun e_code :: "gerror \<Rightarrow> code" where
  "e_code (AppError c _ _ _ _) = c"
| "e_code _ = CodeUnknown"

definition IsNotFound :: "gerror \<Rightarrow> bool" where
  "IsNotFound err = (case As err of Some e \<Rightarrow> e_code e = CodeNotFound | None \<Rightarrow> False)"

text \<open>
  \<^verbatim>\<open>Error()\<close> of an error value.  How the RPC library prints a code is an argument; an embedded
  message contributes its format and its arguments, so that rendering the result gives the text.
\<close>

fun msg_append :: "message \<Rightarrow> message \<Rightarrow> message" where
  "msg_append (Msg f a) (Msg g b) = Msg (f @ g) (a @ b)"

fun Error_text :: "(code \<Rightarrow> string) \<Rightarrow> gerror \<Rightarrow> message" where
  "Error_text show_code (AppError c r m _ cause) =
     msg_append (Msg ''%s (%s): '' [show_code c, r])
       (case cause of None \<Rightarrow> m | Some e \<Rightarrow> msg_append m (msg_append (msg '': '') (Error_text show_code e)))"
| "Error_text show_code (ConnectError c m _) = msg_append (Msg ''%s: '' [show_code c]) m"
| "Error_text show_code ContextCanceled = msg ''context canceled''"
| "Error_text show_code ContextDeadline = msg ''context deadline exceeded''"
| "Error_text show_code (Wrapped m e) = msg_append m (msg_append (msg '': '') (Error_text show_code e))"
| "Error_text show_code (OtherError m) = m"

section \<open>What the client sees\<close>

text \<open>
  A \<^verbatim>\<open>*connect.Error\<close> with its metadata: code, message, reason header and retry
  header.  \<open>Passed\<close> is an RPC error that a handler already built and that is handed on.
\<close>

datatype wire_error = Wire code message "string option" "int option" | Passed code message

definition internalConnectError :: wire_error where
  "internalConnectError = Wire CodeInternal (msg ''internal error'') (Some ReasonInternal) None"

definition contextError :: "gerror \<Rightarrow> wire_error option" where
  "contextError err =
     (if find_in_chain (\<lambda>e. e = ContextCanceled) err \<noteq> None
      then Some (Wire CodeCanceled (msg ''request canceled'') None None)
      else if find_in_chain (\<lambda>e. e = ContextDeadline) err \<noteq> None
      then Some (Wire CodeDeadlineExceeded (msg ''deadline exceeded'') None None)
      else None)"

fun valid_code :: "code \<Rightarrow> bool" where
  "valid_code (CodeInvalid _) = False"
| "valid_code _ = True"

definition ToConnect :: "gerror option \<Rightarrow> wire_error option" where
  "ToConnect err =
     (case err of
        None \<Rightarrow> None
      | Some err \<Rightarrow> Some
          (case As err of
             Some (AppError c reason m ms cause) \<Rightarrow>
               (let wire = Wire c m (if reason \<noteq> '''' then Some reason else None)
                                   (if ms > 0 then Some ms else None)
                in if c = CodeInternal \<or> c = CodeUnknown
                   then (case contextError err of Some ce \<Rightarrow> ce | None \<Rightarrow> wire)
                   else if \<not> valid_code c then internalConnectError
                   else wire)
           | _ \<Rightarrow>
               (case find_in_chain is_connect err of
                  Some (ConnectError c m _) \<Rightarrow> Passed c m
                | _ \<Rightarrow>
                    (case contextError err of
                       Some ce \<Rightarrow> ce
                     | None \<Rightarrow> internalConnectError))))"

lemma find_in_chain_sound: "find_in_chain P e = Some e' \<Longrightarrow> P e'"
proof (induction P e rule: find_in_chain.induct)
  case (1 P e)
  then show ?case
    by (subst (asm) find_in_chain.simps) (auto split: if_splits option.splits)
qed

lemma As_is_app: "As e = Some e' \<Longrightarrow> is_app e'"
  unfolding As_def by (rule find_in_chain_sound)

lemma As_AppError [simp]: "As (AppError c r m ms cause) = Some (AppError c r m ms cause)"
  by (simp add: As_def find_in_chain.simps)

lemma As_Wrapped [simp]: "As (Wrapped w e) = As e"
  by (simp add: As_def find_in_chain.simps [of is_app "Wrapped w e"])

text \<open>The errors that carry no information about their cause.\<close>

definition generic_errors :: "wire_error set" where
  "generic_errors = {internalConnectError, Wire CodeCanceled (msg ''request canceled'') None None,
     Wire CodeDeadlineExceeded (msg ''deadline exceeded'') None None}"

lemma contextError_generic: "contextError e = Some w \<Longrightarrow> w \<in> generic_errors"
  by (auto simp: contextError_def generic_errors_def split: if_splits)

text \<open>
  C39. What reaches a client is one of three fixed errors, or the code, message, reason and retry
  hint of the first application error in the chain, or an RPC error a handler built itself; in
  particular nothing of what \<^verbatim>\<open>Internal\<close> wraps is shown.
\<close>

theorem ToConnect_no_leak:
  "ToConnect (Some (Internal err)) \<in> Some ` generic_errors \<and>
   (\<exists>w. ToConnect (Some e) = Some w \<and>
      (w \<in> generic_errors \<or>
       (\<exists>c r m ms cause. As e = Some (AppError c r m ms cause) \<and> valid_code c \<and>
          w = Wire c m (if r \<noteq> '''' then Some r else None) (if ms > 0 then Some ms else None)) \<or>
       As e = None \<and> (\<exists>c m cause. find_in_chain is_connect e = Some (ConnectError c m cause) \<and> w = Passed c m)))"
proof (intro conjI)
  show "ToConnect (Some (Internal err)) \<in> Some ` generic_errors"
    using contextError_generic
    by (auto simp: ToConnect_def Internal_def generic_errors_def internalConnectError_def split: option.splits)
  show "\<exists>w. ToConnect (Some e) = Some w \<and>
      (w \<in> generic_errors \<or>
       (\<exists>c r m ms cause. As e = Some (AppError c r m ms cause) \<and> valid_code c \<and>
          w = Wire c m (if r \<noteq> '''' then Some r else None) (if ms > 0 then Some ms else None)) \<or>
       As e = None \<and> (\<exists>c m cause. find_in_chain is_connect e = Some (ConnectError c m cause) \<and> w = Passed c m))"
  proof (cases "As e")
    case None
    then show ?thesis
      using contextError_generic find_in_chain_sound [of is_connect e]
      by (fastforce simp: ToConnect_def generic_errors_def split: option.splits gerror.splits)
  next
    case (Some a)
    then obtain c r m ms cause where a: "a = AppError c r m ms cause"
      using As_is_app [OF Some] by (cases a) auto
    with Some show ?thesis
      using contextError_generic
      by (auto simp: ToConnect_def Let_def generic_errors_def split: option.splits)
  qed
qed

end
