(* ===== verification/Authz.thy ===== *)
theory Authz
  imports Glob Apperr
begin

text \<open>
  The authorization model, \<^verbatim>\<open>internal/authz\<close>: permissions and roles
  (\<^verbatim>\<open>permission.go\<close>), token scopes (\<^verbatim>\<open>scope.go\<close>), principals and the
  decision function \<^verbatim>\<open>Can\<close> with its derived queries (\<^verbatim>\<open>principal.go\<close>).
  Permissions, roles, scopes and kinds are strings in the source, so that unknown values
  exist and have to be denied; they are strings here too.
\<close>

section \<open>Permissions and roles\<close>

type_synonym permission = string
type_synonym role = string

abbreviation PermTenantManage :: permission where "PermTenantManage \<equiv> ''tenant:manage''"
abbreviation PermKEKManage :: permission where "PermKEKManage \<equiv> ''kek:manage''"
abbreviation PermNamespaceRead :: permission where "PermNamespaceRead \<equiv> ''namespace:read''"
abbreviation PermNamespaceWrite :: permission where "PermNamespaceWrite \<equiv> ''namespace:write''"
abbreviation PermSiteRead :: permission where "PermSiteRead \<equiv> ''site:read''"
abbreviation PermSiteWrite :: permission where "PermSiteWrite \<equiv> ''site:write''"
abbreviation PermIdentityRead :: permission where "PermIdentityRead \<equiv> ''identity:read''"
abbreviation PermIdentityWrite :: permission where "PermIdentityWrite \<equiv> ''identity:write''"
abbreviation PermIdentityOperate :: permission where "PermIdentityOperate \<equiv> ''identity:operate''"
abbreviation PermIdentityReveal :: permission where "PermIdentityReveal \<equiv> ''identity:reveal''"
abbreviation PermProxyRead :: permission where "PermProxyRead \<equiv> ''proxy:read''"
abbreviation PermProxyWrite :: permission where "PermProxyWrite \<equiv> ''proxy:write''"
abbreviation PermProxyOperate :: permission where "PermProxyOperate \<equiv> ''proxy:operate''"
abbreviation PermPolicyRead :: permission where "PermPolicyRead \<equiv> ''policy:read''"
abbreviation PermPolicyWrite :: permission where "PermPolicyWrite \<equiv> ''policy:write''"
abbreviation PermPolicyPublish :: permission where "PermPolicyPublish \<equiv> ''policy:publish''"
abbreviation PermBreakerRead :: permission where "PermBreakerRead \<equiv> ''breaker:read''"
abbreviation PermBreakerOperate :: permission where "PermBreakerOperate \<equiv> ''breaker:operate''"
abbreviation PermConfigRead :: permission where "PermConfigRead \<equiv> ''config:read''"
abbreviation PermConfigWrite :: permission where "PermConfigWrite \<equiv> ''config:write''"
abbreviation PermConfigPublish :: permission where "PermConfigPublish \<equiv> ''config:publish''"
abbreviation PermSecretList :: permission where "PermSecretList \<equiv> ''secret:list''"
abbreviation PermSecretWrite :: permission where "PermSecretWrite \<equiv> ''secret:write''"
abbreviation PermSecretReveal :: permission where "PermSecretReveal \<equiv> ''secret:reveal''"
abbreviation PermTokenRead :: permission where "PermTokenRead \<equiv> ''token:read''"
abbreviation PermTokenWrite :: permission where "PermTokenWrite \<equiv> ''token:write''"
abbreviation PermUserRead :: permission where "PermUserRead \<equiv> ''user:read''"
abbreviation PermUserWrite :: permission where "PermUserWrite \<equiv> ''user:write''"
abbreviation PermAuditRead :: permission where "PermAuditRead \<equiv> ''audit:read''"
abbreviation PermNotifyRead :: permission where "PermNotifyRead \<equiv> ''notify:read''"
abbreviation PermNotifyWrite :: permission where "PermNotifyWrite \<equiv> ''notify:write''"
abbreviation PermDashboardRead :: permission where "PermDashboardRead \<equiv> ''dashboard:read''"
abbreviation PermLeaseAcquire :: permission where "PermLeaseAcquire \<equiv> ''lease:acquire''"
abbreviation PermReportWrite :: permission where "PermReportWrite \<equiv> ''report:write''"
abbreviation PermSecretRead :: permission where "PermSecretRead \<equiv> ''secret:read''"

abbreviation RoleOwner :: role where "RoleOwner \<equiv> ''owner''"
abbreviation RoleAdmin :: role where "RoleAdmin \<equiv> ''admin''"
abbreviation RoleOperator :: role where "RoleOperator \<equiv> ''operator''"
abbreviation RoleViewer :: role where "RoleViewer \<equiv> ''viewer''"

definition allPermissions :: "permission list" where
  "allPermissions =
    [PermTenantManage, PermKEKManage,
     PermNamespaceRead, PermNamespaceWrite,
     PermSiteRead, PermSiteWrite,
     PermIdentityRead, PermIdentityWrite, PermIdentityOperate, PermIdentityReveal,
     PermProxyRead, PermProxyWrite, PermProxyOperate,
     PermPolicyRead, PermPolicyWrite, PermPolicyPublish,
     PermBreakerRead, PermBreakerOperate,
     PermConfigRead, PermConfigWrite, PermConfigPublish,
     PermSecretList, PermSecretWrite, PermSecretReveal,
     PermTokenRead, PermTokenWrite,
     PermUserRead, PermUserWrite,
     PermAuditRead,
     PermNotifyRead, PermNotifyWrite,
     PermDashboardRead,
     PermLeaseAcquire, PermReportWrite, PermSecretRead]"

definition viewerPermissions :: "permission list" where
  "viewerPermissions =
    [PermNamespaceRead, PermSiteRead, PermIdentityRead, PermProxyRead, PermPolicyRead,
     PermBreakerRead, PermConfigRead, PermSecretList, PermDashboardRead, PermAuditRead, PermNotifyRead]"

definition operatorPermissions :: "permission list" where
  "operatorPermissions = viewerPermissions @
    [PermIdentityWrite, PermIdentityOperate, PermProxyWrite, PermProxyOperate,
     PermPolicyWrite, PermConfigWrite, PermBreakerOperate]"

definition adminPermissions :: "permission list" where
  "adminPermissions = operatorPermissions @
    [PermSiteWrite, PermPolicyPublish, PermConfigPublish, PermSecretWrite, PermSecretReveal,
     PermIdentityReveal, PermTokenRead, PermTokenWrite, PermNotifyWrite]"

definition ownerPermissions :: "permission list" where
  "ownerPermissions = adminPermissions @ [PermNamespaceWrite, PermUserRead, PermUserWrite]"

definition rolePermissionSets :: "(role \<times> permission list) list" where
  "rolePermissionSets =
    [(RoleViewer, viewerPermissions), (RoleOperator, operatorPermissions),
     (RoleAdmin, adminPermissions), (RoleOwner, ownerPermissions)]"

definition ValidPermission :: "permission \<Rightarrow> bool" where
  "ValidPermission p \<longleftrightarrow> p \<in> set allPermissions"

definition PlatformOnly :: "permission \<Rightarrow> bool" where
  "PlatformOnly p \<longleftrightarrow> p = PermTenantManage \<or> p = PermKEKManage"

definition NodeOnly :: "permission \<Rightarrow> bool" where
  "NodeOnly p \<longleftrightarrow> p = PermLeaseAcquire \<or> p = PermReportWrite \<or> p = PermSecretRead"

definition ValidRole :: "role \<Rightarrow> bool" where
  "ValidRole r \<longleftrightarrow> map_of rolePermissionSets r \<noteq> None"

definition RolePermissions :: "role \<Rightarrow> permission list" where
  "RolePermissions r =
     (case map_of rolePermissionSets r of
        None \<Rightarrow> []
      | Some s \<Rightarrow> filter (\<lambda>p. p \<in> set s) allPermissions)"

definition RoleHas :: "role \<Rightarrow> permission \<Rightarrow> bool" where
  "RoleHas r p = (case map_of rolePermissionSets r of None \<Rightarrow> False | Some s \<Rightarrow> p \<in> set s)"

definition ValidExtraPermission :: "permission \<Rightarrow> bool" where
  "ValidExtraPermission p \<longleftrightarrow>
     p \<in> {PermConfigPublish, PermSecretReveal, PermIdentityReveal, PermPolicyPublish}"

section \<open>Token scopes\<close>

abbreviation ScopeLeaseAcquire :: string where "ScopeLeaseAcquire \<equiv> ''lease:acquire''"
abbreviation ScopeReportWrite :: string where "ScopeReportWrite \<equiv> ''report:write''"
abbreviation ScopeConfigRead :: string where "ScopeConfigRead \<equiv> ''config:read''"
abbreviation ScopeConfigPublish :: string where "ScopeConfigPublish \<equiv> ''config:publish''"
abbreviation ScopeSecretRead :: string where "ScopeSecretRead \<equiv> ''secret:read''"
abbreviation ScopeIdentityWrite :: string where "ScopeIdentityWrite \<equiv> ''identity:write''"
abbreviation ScopeProxyWrite :: string where "ScopeProxyWrite \<equiv> ''proxy:write''"
abbreviation ScopeAdmin :: string where "ScopeAdmin \<equiv> ''admin''"

abbreviation (input) MaxScopeLen :: nat where "MaxScopeLen \<equiv> 512"
abbreviation (input) MaxScopeArgLen :: nat where "MaxScopeArgLen \<equiv> 256"

record scope =
  Raw :: string
  Name :: string
  Arg :: string

datatype argKind = argNone | argSite | argGroupGlob | argSecretGlob

record scopeDef =
  arg :: argKind
  perms :: "permission list"

definition scopeDefs :: "(string \<times> scopeDef) list" where
  "scopeDefs =
    [(ScopeLeaseAcquire, \<lparr>arg = argSite, perms = [PermLeaseAcquire]\<rparr>),
     (ScopeReportWrite, \<lparr>arg = argSite, perms = [PermReportWrite]\<rparr>),
     (ScopeConfigRead, \<lparr>arg = argGroupGlob, perms = [PermConfigRead]\<rparr>),
     (ScopeConfigPublish, \<lparr>arg = argGroupGlob, perms = [PermConfigRead, PermConfigWrite, PermConfigPublish]\<rparr>),
     (ScopeSecretRead, \<lparr>arg = argSecretGlob, perms = [PermSecretRead]\<rparr>),
     (ScopeIdentityWrite, \<lparr>arg = argSite, perms = [PermIdentityRead, PermIdentityWrite, PermIdentityOperate]\<rparr>),
     (ScopeProxyWrite, \<lparr>arg = argNone, perms = [PermProxyRead, PermProxyWrite, PermProxyOperate]\<rparr>),
     (ScopeAdmin, \<lparr>arg = argNone, perms = []\<rparr>)]"

text \<open>\<^verbatim>\<open>splitScope\<close>: the name, the argument, and whether there is one.\<close>

definition splitScope :: "string \<Rightarrow> string \<times> string \<times> bool" where
  "splitScope s =
     (case index_byte (CHR '':'') s of
        None \<Rightarrow> (s, '''', False)
      | Some first \<Rightarrow>
          (if take first s = ScopeAdmin then (ScopeAdmin, drop (first + 1) s, True)
           else
             (case index_byte (CHR '':'') (drop (first + 1) s) of
                None \<Rightarrow> (s, '''', False)
              | Some second \<Rightarrow>
                  (let cut = first + 1 + second in (take cut s, drop (cut + 1) s, True)))))"

definition invalidScopeRune :: "nat \<Rightarrow> bool" where
  "invalidScopeRune r \<longleftrightarrow> is_space r \<or> is_control r \<or> r = RuneError"

definition invalidScope :: "string \<Rightarrow> string \<Rightarrow> gerror" where
  "invalidScope s why = InvalidArgument ReasonInvalidArgument (Msg ''invalid scope %q: %s'' [s, why])"

definition ParseScope :: "string \<Rightarrow> gerror + scope" where
  "ParseScope s =
     (if s = '''' then Inl (InvalidArgument ReasonInvalidArgument (msg ''scope must not be empty''))
      else if length s > MaxScopeLen then
        Inl (InvalidArgument ReasonInvalidArgument (Msg ''scope exceeds %d bytes'' [''512'']))
      else if \<not> valid_string s \<or> list_ex (\<lambda>rw. invalidScopeRune (fst rw)) (decode_all s) then
        Inl (invalidScope s ''contains whitespace, control characters or invalid UTF-8'')
      else
        (let (name, ar, hasArg) = splitScope s in
         case map_of scopeDefs name of
           None \<Rightarrow> Inl (invalidScope s ''unknown scope name'')
         | Some def \<Rightarrow>
             (if hasArg \<and> ar = '''' then Inl (invalidScope s ''argument must not be empty'')
              else if hasArg \<and> length ar > MaxScopeArgLen then
                Inl (invalidScope s ''argument is too long'')
              else if arg def = argNone \<and> hasArg then
                Inl (invalidScope s ''scope takes no argument'')
              else if arg def = argSite \<and> hasArg \<and> HasWildcard ar then
                Inl (invalidScope s
                  ''site name argument must not contain wildcards; omit it to allow all sites'')
              else if arg def = argSecretGlob \<and> \<not> hasArg then
                Inl (invalidScope s ''argument \"<namespace>/<path glob>\" is required'')
              else Inr \<lparr>Raw = s, Name = name, Arg = ar\<rparr>)))"

text \<open>\<^verbatim>\<open>ParseScopes\<close>: the loop over the input with its \<^verbatim>\<open>seen\<close> set.\<close>

fun parse_scopes_from :: "string set \<Rightarrow> string list \<Rightarrow> gerror + scope list" where
  "parse_scopes_from seen [] = Inr []"
| "parse_scopes_from seen (raw # ss) =
     (case ParseScope raw of
        Inl e \<Rightarrow> Inl e
      | Inr sc \<Rightarrow>
          (if Raw sc \<in> seen then Inl (invalidScope raw ''duplicate scope'')
           else
             (case parse_scopes_from (insert (Raw sc) seen) ss of
                Inl e \<Rightarrow> Inl e
              | Inr scs \<Rightarrow> Inr (sc # scs))))"

definition ParseScopes :: "string list \<Rightarrow> gerror + scope list" where
  "ParseScopes ss = parse_scopes_from {} ss"

definition scopePermissions :: "scope \<Rightarrow> permission list" where
  "scopePermissions s =
     (case map_of scopeDefs (Name s) of
        None \<Rightarrow> []
      | Some def \<Rightarrow> if Name s = ScopeAdmin then RolePermissions RoleAdmin else perms def)"

definition grantsPermission :: "scope \<Rightarrow> permission \<Rightarrow> scopeDef option" where
  "grantsPermission s perm =
     (case map_of scopeDefs (Name s) of
        None \<Rightarrow> None
      | Some def \<Rightarrow>
          (if arg def = argNone \<and> Arg s \<noteq> '''' then None
           else if arg def = argSecretGlob \<and> Arg s = '''' then None
           else if Name s = ScopeAdmin then (if RoleHas RoleAdmin perm then Some def else None)
           else if perm \<in> set (perms def) then Some def
           else None))"

definition cleanSecretPath :: "string \<Rightarrow> bool" where
  "cleanSecretPath p \<longleftrightarrow>
     p \<noteq> '''' \<and> list_all (\<lambda>seg. seg \<noteq> '''' \<and> seg \<noteq> ''.'' \<and> seg \<noteq> ''..'') (split_byte (CHR ''/'') p)"

section \<open>Principals and resources\<close>

record binding =
  b_ID :: string
  b_TenantID :: string
  b_Role :: role
  b_NamespaceID :: string
  b_SiteIDs :: "string list"
  b_Extra :: "permission list"

record resource =
  TenantID :: string
  NamespaceID :: string
  NamespaceName :: string
  SiteID :: string
  SiteName :: string
  ConfigGroup :: string
  SecretPath :: string

abbreviation KindUser :: string where "KindUser \<equiv> ''user''"
abbreviation KindToken :: string where "KindToken \<equiv> ''token''"
abbreviation KindSystem :: string where "KindSystem \<equiv> ''system''"

record principal =
  p_Kind :: string
  p_ID :: string
  p_Name :: string
  p_TenantID :: string
  p_NamespaceID :: string
  p_NamespaceName :: string
  p_IsPlatformAdmin :: bool
  p_Bindings :: "binding list"
  p_Scopes :: "scope list"
  p_ClientIP :: string
  p_UserAgent :: string
  p_Node :: string

definition wellFormed :: "resource \<Rightarrow> bool" where
  "wellFormed r \<longleftrightarrow> TenantID r \<noteq> '''' \<and> (SiteID r = '''' \<or> NamespaceID r \<noteq> '''')"

definition tokenBoundTo :: "principal \<Rightarrow> string \<Rightarrow> string \<Rightarrow> bool" where
  "tokenBoundTo p tenantID namespaceID \<longleftrightarrow>
     p_TenantID p \<noteq> '''' \<and> p_NamespaceID p \<noteq> '''' \<and>
     p_TenantID p = tenantID \<and> p_NamespaceID p = namespaceID"

definition binding_grants :: "binding \<Rightarrow> permission \<Rightarrow> bool" where
  "binding_grants b perm =
     (if \<not> ValidRole (b_Role b) then False
      else if RoleHas (b_Role b) perm then True
      else ValidExtraPermission perm \<and> perm \<in> set (b_Extra b))"

definition siteRestrictedNamespacePermission :: "permission \<Rightarrow> bool" where
  "siteRestrictedNamespacePermission perm \<longleftrightarrow> perm = PermProxyRead \<or> perm = PermNamespaceRead"

definition binding_allows :: "binding \<Rightarrow> permission \<Rightarrow> resource \<Rightarrow> bool" where
  "binding_allows b perm r =
     (if b_TenantID b = '''' \<or> b_TenantID b \<noteq> TenantID r then False
      else if b_NamespaceID b \<noteq> '''' \<and> b_NamespaceID b \<noteq> NamespaceID r then False
      else if \<not> binding_grants b perm then False
      else if b_SiteIDs b = [] then True
      else if SiteID r = '''' then siteRestrictedNamespacePermission perm \<and> b_NamespaceID b \<noteq> ''''
      else SiteID r \<in> set (b_SiteIDs b))"

definition scope_allows :: "scope \<Rightarrow> permission \<Rightarrow> resource \<Rightarrow> string \<Rightarrow> bool" where
  "scope_allows s perm r namespaceName =
     (case grantsPermission s perm of
        None \<Rightarrow> False
      | Some def \<Rightarrow>
          (case arg def of
             argSite \<Rightarrow> Arg s = '''' \<or> SiteName r \<noteq> '''' \<and> SiteName r = Arg s
           | argGroupGlob \<Rightarrow> Arg s = '''' \<or> Match (Arg s) (ConfigGroup r)
           | argSecretGlob \<Rightarrow>
               (let name = (if NamespaceName r = '''' then namespaceName else NamespaceName r) in
                if name = '''' \<or> (namespaceName \<noteq> '''' \<and> name \<noteq> namespaceName) \<or>
                   \<not> cleanSecretPath (SecretPath r) then False
                else Match (Arg s) (name @ ''/'' @ SecretPath r))
           | argNone \<Rightarrow> True))"

text \<open>\<^verbatim>\<open>(*Principal).Can\<close>; the nil principal is \<open>None\<close>.\<close>

definition Can :: "principal option \<Rightarrow> permission \<Rightarrow> resource \<Rightarrow> bool" where
  "Can po perm r =
     (case po of
        None \<Rightarrow> False
      | Some p \<Rightarrow>
          (if \<not> ValidPermission perm then False
           else if p_Kind p = KindSystem then True
           else if p_Kind p = KindUser then
             (if p_IsPlatformAdmin p then True
              else if PlatformOnly perm \<or> \<not> wellFormed r then False
              else list_ex (\<lambda>b. binding_allows b perm r) (p_Bindings p))
           else if p_Kind p = KindToken then
             (if PlatformOnly perm \<or> \<not> wellFormed r \<or> NamespaceID r = '''' \<or>
                 \<not> tokenBoundTo p (TenantID r) (NamespaceID r) then False
              else list_ex (\<lambda>s. scope_allows s perm r (p_NamespaceName p)) (p_Scopes p))
           else False))"

text \<open>\<^verbatim>\<open>Require\<close>: \<open>None\<close> is the nil error.\<close>

definition Require :: "principal option \<Rightarrow> permission \<Rightarrow> resource \<Rightarrow> gerror option" where
  "Require po perm r =
     (case po of
        None \<Rightarrow> Some (Unauthenticated ReasonSessionInvalid (msg ''authentication required''))
      | Some p \<Rightarrow>
          (if Can (Some p) perm r then None
           else if p_Kind p = KindToken then
             Some (PermissionDenied ReasonScopeMissing (Msg ''token scopes do not grant %s'' [perm]))
           else Some (PermissionDenied ReasonPermissionDenied (Msg ''permission %s required'' [perm]))))"

text \<open>
  \<^verbatim>\<open>userSiteFilter\<close>: the loop over the bindings with the collected site ids; the
  early return of an unrestricted binding is \<open>None\<close>.
\<close>

fun collect_sites :: "string \<Rightarrow> string \<Rightarrow> permission \<Rightarrow> binding list \<Rightarrow> string list option" where
  "collect_sites tenantID namespaceID perm [] = Some []"
| "collect_sites tenantID namespaceID perm (b # bs) =
     (if b_TenantID b \<noteq> tenantID \<or> (b_NamespaceID b \<noteq> '''' \<and> b_NamespaceID b \<noteq> namespaceID) \<or>
         \<not> binding_grants b perm then collect_sites tenantID namespaceID perm bs
      else if b_SiteIDs b = [] then None
      else if namespaceID = '''' then collect_sites tenantID namespaceID perm bs
      else map_option (\<lambda>ids. filter (\<lambda>i. i \<noteq> '''') (b_SiteIDs b) @ ids)
             (collect_sites tenantID namespaceID perm bs))"

definition userSiteFilter :: "principal \<Rightarrow> string \<Rightarrow> string \<Rightarrow> permission \<Rightarrow> bool \<times> string list" where
  "userSiteFilter p tenantID namespaceID perm =
     (case collect_sites tenantID namespaceID perm (p_Bindings p) of
        None \<Rightarrow> (True, [])
      | Some ids \<Rightarrow> (False, remdups_adj (sort ids)))"

text \<open>\<^verbatim>\<open>SiteFilter\<close>; the nil slice and the empty slice are both \<open>[]\<close>.\<close>

definition SiteFilter :: "principal option \<Rightarrow> string \<Rightarrow> string \<Rightarrow> permission \<Rightarrow> bool \<times> string list" where
  "SiteFilter po tenantID namespaceID perm =
     (case po of
        None \<Rightarrow> (False, [])
      | Some p \<Rightarrow>
          (if \<not> ValidPermission perm then (False, [])
           else if p_Kind p = KindSystem then (True, [])
           else if p_Kind p = KindUser then
             (if p_IsPlatformAdmin p then (True, [])
              else if PlatformOnly perm \<or> tenantID = '''' then (False, [])
              else userSiteFilter p tenantID namespaceID perm)
           else if p_Kind p = KindToken then
             (if PlatformOnly perm \<or> namespaceID = '''' \<or> \<not> tokenBoundTo p tenantID namespaceID
              then (False, [])
              else (list_ex (\<lambda>s. case grantsPermission s perm of
                                   None \<Rightarrow> False
                                 | Some def \<Rightarrow> \<not> (arg def = argSite \<and> Arg s \<noteq> '''')) (p_Scopes p), []))
           else (False, [])))"

text \<open>\<^verbatim>\<open>TenantIDs\<close>: the nil slice, which means every tenant, is \<open>None\<close>.\<close>

definition TenantIDs :: "principal option \<Rightarrow> string list option" where
  "TenantIDs po =
     (case po of
        None \<Rightarrow> Some []
      | Some p \<Rightarrow>
          (if p_Kind p = KindSystem then None
           else if p_Kind p = KindUser then
             (if p_IsPlatformAdmin p then None
              else Some (remdups_adj (sort (map b_TenantID
                     (filter (\<lambda>b. b_TenantID b \<noteq> '''' \<and> ValidRole (b_Role b)) (p_Bindings p))))))
           else if p_Kind p = KindToken then
             (if p_TenantID p = '''' then Some [] else Some [p_TenantID p])
           else Some []))"

definition Actor :: "principal option \<Rightarrow> string" where
  "Actor po =
     (case po of
        None \<Rightarrow> ''anonymous''
      | Some p \<Rightarrow>
          (if p_Kind p = KindUser then ''user:'' @ p_ID p
           else if p_Kind p = KindToken then ''token:'' @ p_ID p
           else if p_Kind p = KindSystem then ''system''
           else ''anonymous''))"

definition System :: "string \<Rightarrow> principal" where
  "System name =
     \<lparr>p_Kind = KindSystem, p_ID = ''system'', p_Name = (if name = '''' then ''system'' else name),
      p_TenantID = '''', p_NamespaceID = '''', p_NamespaceName = '''',
      p_IsPlatformAdmin = True, p_Bindings = [], p_Scopes = [],
      p_ClientIP = '''', p_UserAgent = '''', p_Node = ''''\<rparr>"

section \<open>Role and scope tables\<close>

lemma RoleHas_simps [simp]:
  "RoleHas RoleViewer p \<longleftrightarrow> p \<in> set viewerPermissions"
  "RoleHas RoleOperator p \<longleftrightarrow> p \<in> set operatorPermissions"
  "RoleHas RoleAdmin p \<longleftrightarrow> p \<in> set adminPermissions"
  "RoleHas RoleOwner p \<longleftrightarrow> p \<in> set ownerPermissions"
  by (simp_all add: RoleHas_def rolePermissionSets_def)

lemma role_chain:
  "set viewerPermissions \<subseteq> set operatorPermissions" "set operatorPermissions \<subseteq> set adminPermissions"
  "set adminPermissions \<subseteq> set ownerPermissions"
  unfolding operatorPermissions_def adminPermissions_def ownerPermissions_def set_append by blast+

lemma role_steps:
  "PermIdentityWrite \<in> set operatorPermissions \<and> PermIdentityWrite \<notin> set viewerPermissions"
  "PermTokenWrite \<in> set adminPermissions \<and> PermTokenWrite \<notin> set operatorPermissions"
  "PermUserWrite \<in> set ownerPermissions \<and> PermUserWrite \<notin> set adminPermissions"
  by code_simp+

lemma RoleHas_owner: "RoleHas r p \<Longrightarrow> p \<in> set ownerPermissions"
  using role_chain by (auto simp: RoleHas_def rolePermissionSets_def split: if_splits)

lemma owner_known: "p \<in> set ownerPermissions \<Longrightarrow> ValidPermission p \<and> \<not> PlatformOnly p \<and> \<not> NodeOnly p"
proof -
  have "\<forall>p \<in> set ownerPermissions. ValidPermission p \<and> \<not> PlatformOnly p \<and> \<not> NodeOnly p"
    by code_simp
  then show "p \<in> set ownerPermissions \<Longrightarrow> ?thesis" by blast
qed

lemma extra_admin: "ValidExtraPermission p \<Longrightarrow> p \<in> set adminPermissions"
proof -
  have "\<forall>p \<in> {PermConfigPublish, PermSecretReveal, PermIdentityReveal, PermPolicyPublish}. p \<in> set adminPermissions"
    by code_simp
  then show "ValidExtraPermission p \<Longrightarrow> ?thesis" unfolding ValidExtraPermission_def by blast
qed

lemma binding_grants_owner: "binding_grants b p \<Longrightarrow> p \<in> set ownerPermissions"
  using role_chain(3) extra_admin RoleHas_owner by (auto simp: binding_grants_def split: if_splits)


lemma scope_table:
  "\<forall>(n, d) \<in> set scopeDefs. (n = ScopeAdmin \<longleftrightarrow> perms d = []) \<and> (n = ScopeAdmin \<longrightarrow> arg d = argNone) \<and>
     (\<forall>p \<in> set (perms d). p \<in> set adminPermissions \<or> NodeOnly p) \<and>
     (arg d = argGroupGlob \<or> arg d = argSecretGlob \<longrightarrow>
        (\<forall>p \<in> set (perms d). p \<in> set [PermConfigRead, PermConfigWrite, PermConfigPublish, PermSecretRead]))"
  by code_simp

lemma scopeDefs_Some:
  assumes "map_of scopeDefs n = Some d"
  shows "n = ScopeAdmin \<longleftrightarrow> perms d = []" and "n = ScopeAdmin \<Longrightarrow> arg d = argNone"
    and "p \<in> set (perms d) \<Longrightarrow> p \<in> set adminPermissions \<or> NodeOnly p"
    and "arg d = argGroupGlob \<or> arg d = argSecretGlob \<Longrightarrow> p \<in> set (perms d) \<Longrightarrow>
       p \<in> set [PermConfigRead, PermConfigWrite, PermConfigPublish, PermSecretRead]"
  using scope_table map_of_SomeD [OF assms] by fast+

lemma grantsPermission_sound:
  assumes "grantsPermission s perm = Some d"
  shows "map_of scopeDefs (Name s) = Some d" and "perm \<in> set (scopePermissions s)"
    and "perm \<in> set adminPermissions \<or> NodeOnly perm"
    and "arg d = argGroupGlob \<or> arg d = argSecretGlob \<Longrightarrow>
       perm \<in> set [PermConfigRead, PermConfigWrite, PermConfigPublish, PermSecretRead]"
proof -
  show d: "map_of scopeDefs (Name s) = Some d"
    using assms by (auto simp: grantsPermission_def split: option.splits if_splits)
  have admin: "set (RolePermissions RoleAdmin) = set adminPermissions"
    using owner_known role_chain(3)
    by (auto simp: RolePermissions_def rolePermissionSets_def ValidPermission_def)
  show "perm \<in> set (scopePermissions s)"
    using assms d admin by (auto simp: grantsPermission_def scopePermissions_def split: if_splits)
  show "perm \<in> set adminPermissions \<or> NodeOnly perm"
    using assms d scopeDefs_Some [OF d] by (auto simp: grantsPermission_def split: if_splits)
  show "arg d = argGroupGlob \<or> arg d = argSecretGlob \<Longrightarrow>
     perm \<in> set [PermConfigRead, PermConfigWrite, PermConfigPublish, PermSecretRead]"
    using assms d scopeDefs_Some [OF d] by (auto simp: grantsPermission_def split: if_splits)
qed

end
