(* ===== verification/Authz_Laws.thy ===== *)
theory Authz_Laws
  imports Authz
begin

text \<open>
  What the authorization code guarantees, over the model of \<^verbatim>\<open>internal/authz\<close> in
  \<open>Authz\<close>: the language of token scopes, the confinement of every granted permission to the
  principal's tenant and namespace, the agreement of list filters with single checks, and the
  subtree that a secret scope opens.
\<close>

section \<open>The scope language\<close>

text \<open>The text a parsed scope stands for, and what makes text and argument acceptable.\<close>

definition print_scope :: "scope \<Rightarrow> string" where
  "print_scope s = (if Arg s = '''' then Name s else Name s @ '':'' @ Arg s)"

definition scope_text_ok :: "string \<Rightarrow> bool" where
  "scope_text_ok s \<longleftrightarrow> s \<noteq> '''' \<and> length s \<le> MaxScopeLen \<and> valid_string s \<and>
     list_all (\<lambda>rw. \<not> invalidScopeRune (fst rw)) (decode_all s)"

definition scope_arg_ok :: "scopeDef \<Rightarrow> string \<Rightarrow> bool" where
  "scope_arg_ok d a \<longleftrightarrow> length a \<le> MaxScopeArgLen \<and>
     (case arg d of
        argNone \<Rightarrow> a = ''''
      | argSite \<Rightarrow> \<not> HasWildcard a
      | argGroupGlob \<Rightarrow> True
      | argSecretGlob \<Rightarrow> a \<noteq> '''')"

text \<open>Printable ASCII text passes the character check.\<close>

lemma ascii_text_ok:
  assumes "list_all (\<lambda>c. 33 \<le> byte c \<and> byte c < 127) s"
  shows "valid_string s" and "\<not> list_ex (\<lambda>rw. invalidScopeRune (fst rw)) (decode_all s)"
  using assms
  by (induction s)
     (auto simp: valid_string_def decode_all_ascii bad_rune_def RuneError_def invalidScopeRune_def
       is_space_def is_control_def)

lemma splitScope_none: "index_byte (CHR '':'') s = None \<Longrightarrow> splitScope s = (s, '''', False)"
  by (simp add: splitScope_def)

lemma splitScope_admin: "splitScope (ScopeAdmin @ CHR '':'' # a) = (ScopeAdmin, a, True)"
  by (simp add: splitScope_def)

lemma splitScope_other:
  assumes "CHR '':'' \<notin> set u" and "u \<noteq> ScopeAdmin" and "CHR '':'' \<notin> set v"
  shows "splitScope (u @ CHR '':'' # v) = (u @ CHR '':'' # v, '''', False)"
    and "splitScope (u @ CHR '':'' # v @ CHR '':'' # a) = (u @ CHR '':'' # v, a, True)"
  using assms index_byte_append [of "CHR '':''" u] index_byte_append [of "CHR '':''" v a]
  by (simp_all add: splitScope_def index_byte_None_iff [THEN iffD2] Let_def)

lemma splitScope_print:
  assumes "splitScope s = (n, a, h)"
  shows "s = (if h then n @ CHR '':'' # a else n) \<and> (h \<or> a = '''')"
proof (cases "index_byte (CHR '':'') s")
  case None
  with assms show ?thesis by (simp add: splitScope_none)
next
  case (Some i)
  then obtain u v where s: "s = u @ CHR '':'' # v" "CHR '':'' \<notin> set u"
    by (auto simp: index_byte_split)
  show ?thesis
  proof (cases "u = ScopeAdmin")
    case True
    with assms s splitScope_admin [of v] show ?thesis by auto
  next
    case u: False
    show ?thesis
    proof (cases "index_byte (CHR '':'') v")
      case None
      with assms s u splitScope_other(1) [of u v] show ?thesis by (auto simp: index_byte_None_iff)
    next
      case (Some j)
      then obtain v1 v2 where "v = v1 @ CHR '':'' # v2" "CHR '':'' \<notin> set v1"
        by (auto simp: index_byte_split)
      with assms s u splitScope_other(2) [of u v1 v2] show ?thesis by auto
    qed
  qed
qed

lemma scope_names:
  "\<forall>(n, d) \<in> set scopeDefs. n = ScopeAdmin \<or>
     (case index_byte (CHR '':'') n of None \<Rightarrow> False
        | Some i \<Rightarrow> take i n \<noteq> ScopeAdmin \<and> index_byte (CHR '':'') (drop (i + 1) n) = None)"
  by code_simp
lemma splitScope_name:
  assumes "map_of scopeDefs n = Some d"
  shows "splitScope n = (n, '''', False)" and "splitScope (n @ CHR '':'' # a) = (n, a, True)"
proof -
  have "n = ScopeAdmin \<or> (\<exists>u v. n = u @ CHR '':'' # v \<and> CHR '':'' \<notin> set u \<and> u \<noteq> ScopeAdmin \<and> CHR '':'' \<notin> set v)"
    using scope_names map_of_SomeD [OF assms]
    by (fastforce simp: index_byte_split index_byte_None_iff split: option.splits)
  then show "splitScope n = (n, '''', False)" "splitScope (n @ CHR '':'' # a) = (n, a, True)"
    using splitScope_other splitScope_admin by (auto simp: splitScope_none)
qed

text \<open>
  C20. \<^verbatim>\<open>ParseScope\<close> accepts exactly the printed forms of well-formed scopes and is
  inverse to printing: a scope is returned iff its raw text is the input, printing it gives the
  input back, the text is within the length and character limits, and its name is in the table
  with an argument of the kind the table asks for.
\<close>

theorem ParseScope_iff:
  "ParseScope s = Inr sc \<longleftrightarrow>
     Raw sc = s \<and> print_scope sc = s \<and> scope_text_ok s \<and>
     (case map_of scopeDefs (Name sc) of None \<Rightarrow> False | Some d \<Rightarrow> scope_arg_ok d (Arg sc))"
    (is "?L = ?R")
proof
  assume ?L
  moreover obtain n a h where "splitScope s = (n, a, h)" by (metis prod_cases3)
  moreover note splitScope_print [OF this]
  ultimately show ?R
    by (auto simp: ParseScope_def print_scope_def scope_text_ok_def scope_arg_ok_def list_all_iff list_ex_iff
        HasWildcard_def split: if_splits option.splits argKind.splits)
next
  assume R: ?R
  then obtain d where d: "map_of scopeDefs (Name sc) = Some d" and a: "scope_arg_ok d (Arg sc)"
    by (auto split: option.splits)
  have s: "s = print_scope sc" using R by simp
  have "splitScope s = (Name sc, Arg sc, Arg sc \<noteq> '''')"
    by (simp add: s print_scope_def splitScope_name [OF d])
  with R d a show ?L
    by (cases sc) (auto simp: ParseScope_def scope_text_ok_def scope_arg_ok_def list_all_iff list_ex_iff
        split: argKind.splits)
qed

section \<open>Confinement\<close>

text \<open>A sample user, token and resource, used to show that the hypotheses below can hold.\<close>

definition demo_user :: principal where
  "demo_user = \<lparr>p_Kind = KindUser, p_ID = ''u1'', p_Name = ''ana'', p_TenantID = '''', p_NamespaceID = '''',
     p_NamespaceName = '''', p_IsPlatformAdmin = False,
     p_Bindings = [\<lparr>b_ID = ''b1'', b_TenantID = ''t1'', b_Role = RoleOperator, b_NamespaceID = ''n1'',
                    b_SiteIDs = [''s2'', ''s1'', ''s2''], b_Extra = [PermConfigPublish]\<rparr>],
     p_Scopes = [], p_ClientIP = '''', p_UserAgent = '''', p_Node = ''''\<rparr>"

definition demo_token :: principal where
  "demo_token = \<lparr>p_Kind = KindToken, p_ID = ''k1'', p_Name = ''node'', p_TenantID = ''t1'', p_NamespaceID = ''n1'',
     p_NamespaceName = ''prod'', p_IsPlatformAdmin = False, p_Bindings = [],
     p_Scopes = [\<lparr>Raw = ''secret:read:prod/db/*'', Name = ScopeSecretRead, Arg = ''prod/db/*''\<rparr>],
     p_ClientIP = '''', p_UserAgent = '''', p_Node = ''''\<rparr>"

definition demo_site :: resource where
  "demo_site = \<lparr>TenantID = ''t1'', NamespaceID = ''n1'', NamespaceName = ''prod'', SiteID = ''s1'',
     SiteName = ''shop'', ConfigGroup = '''', SecretPath = ''''\<rparr>"

definition demo_secret :: resource where
  "demo_secret = \<lparr>TenantID = ''t1'', NamespaceID = ''n1'', NamespaceName = '''', SiteID = '''',
     SiteName = '''', ConfigGroup = '''', SecretPath = ''db/main''\<rparr>"

definition privileged :: "principal \<Rightarrow> bool" where
  "privileged p \<longleftrightarrow> p_Kind p = KindSystem \<or> p_Kind p = KindUser \<and> p_IsPlatformAdmin p"

lemma Can_cases:
  assumes "Can (Some p) perm r"
  obtains (privileged) "privileged p" "ValidPermission perm"
  | (user) b where "p_Kind p = KindUser" "\<not> p_IsPlatformAdmin p" "ValidPermission perm" "\<not> PlatformOnly perm"
      "wellFormed r" "b \<in> set (p_Bindings p)" "binding_allows b perm r"
  | (token) s where "p_Kind p = KindToken" "ValidPermission perm" "\<not> PlatformOnly perm" "wellFormed r"
      "tokenBoundTo p (TenantID r) (NamespaceID r)" "s \<in> set (p_Scopes p)"
      "scope_allows s perm r (p_NamespaceName p)"
  using assms unfolding Can_def privileged_def list_ex_iff
  by (auto split: if_splits)

lemma binding_allows_grants: "binding_allows b perm r \<Longrightarrow> binding_grants b perm \<and> b_TenantID b = TenantID r \<and> b_TenantID b \<noteq> ''''"
  by (auto simp: binding_allows_def split: if_splits)

lemma binding_grants_role: "binding_grants b perm \<Longrightarrow> ValidRole (b_Role b)"
  by (auto simp: binding_grants_def split: if_splits)

text \<open>
  C17. Confinement.  A permission is granted only if it is a known one, and, unless the principal
  is a system principal or a platform administrator, only if it is not reserved to the platform,
  the resource is well formed, its tenant is one of the principal's \<^verbatim>\<open>TenantIDs\<close>, and for a
  token its namespace is the token's.
\<close>

theorem Can_confined:
  assumes "Can (Some p) perm r"
  shows "ValidPermission perm \<and>
    (privileged p \<or>
     \<not> PlatformOnly perm \<and> wellFormed r \<and>
     (\<exists>ts. TenantIDs (Some p) = Some ts \<and> TenantID r \<in> set ts) \<and>
     (p_Kind p = KindToken \<longrightarrow> NamespaceID r = p_NamespaceID p))"
  using assms
proof (cases rule: Can_cases)
  case (user b)
  then have "b_TenantID b = TenantID r" "TenantID r \<noteq> ''''" "ValidRole (b_Role b)"
    using binding_allows_grants binding_grants_role by metis+
  then have "TenantID r \<in> b_TenantID ` {x \<in> set (p_Bindings p). b_TenantID x \<noteq> [] \<and> ValidRole (b_Role x)}"
    using user by (intro rev_image_eqI [of b]) auto
  with user show ?thesis
    by (auto simp: TenantIDs_def)
qed (auto simp: TenantIDs_def tokenBoundTo_def)

theorem Can_confined_witness:
  "Can (Some demo_user) PermIdentityWrite demo_site \<and> \<not> privileged demo_user \<and>
   (\<exists>ts. TenantIDs (Some demo_user) = Some ts \<and> TenantID demo_site \<in> set ts)"
proof -
  have can: "Can (Some demo_user) PermIdentityWrite demo_site" and np: "\<not> privileged demo_user"
    by code_simp+
  show ?thesis using can np Can_confined [OF can] by blast
qed

text \<open>
  C21. No escalation through bindings or scopes.  A user who is not a platform administrator never
  holds more than the owner role and never a node-only permission; a token never holds more than
  the administrator role and the node-only permissions, and only through a scope that lists the
  permission.
\<close>

theorem Can_bounded:
  assumes "Can (Some p) perm r" and "\<not> privileged p"
  shows "(p_Kind p = KindUser \<longrightarrow> \<not> NodeOnly perm \<and> RoleHas RoleOwner perm) \<and>
    (p_Kind p = KindToken \<longrightarrow>
       (NodeOnly perm \<or> RoleHas RoleAdmin perm) \<and> (\<exists>s \<in> set (p_Scopes p). perm \<in> set (scopePermissions s)))"
  using assms(1)
proof (cases rule: Can_cases)
  case (user b)
  then show ?thesis
    using binding_allows_grants binding_grants_owner owner_known by fastforce
next
  case (token s)
  then obtain d where d: "grantsPermission s perm = Some d"
    by (auto simp: scope_allows_def split: option.splits)
  with token grantsPermission_sound [OF d] show ?thesis by auto
qed (use assms in auto)

theorem Can_bounded_witness:
  "Can (Some demo_token) PermSecretRead demo_secret \<and>
   (\<exists>s \<in> set (p_Scopes demo_token). PermSecretRead \<in> set (scopePermissions s))"
proof -
  have can: "Can (Some demo_token) PermSecretRead demo_secret" and np: "\<not> privileged demo_token"
    and k: "p_Kind demo_token = KindToken"
    by code_simp+
  show ?thesis using can k Can_bounded [OF can np] by blast
qed

lemma collect_sites_None:
  "collect_sites t ns perm bs = None \<longleftrightarrow>
   (\<exists>b \<in> set bs. b_TenantID b = t \<and> (b_NamespaceID b = '''' \<or> b_NamespaceID b = ns) \<and>
      binding_grants b perm \<and> b_SiteIDs b = [])"
  by (induction bs) auto

lemma collect_sites_Some:
  "collect_sites t ns perm bs = Some ids \<Longrightarrow> ns \<noteq> '''' \<Longrightarrow>
   set ids = {i. i \<noteq> '''' \<and> (\<exists>b \<in> set bs. b_TenantID b = t \<and> (b_NamespaceID b = '''' \<or> b_NamespaceID b = ns) \<and>
      binding_grants b perm \<and> i \<in> set (b_SiteIDs b))}"
  by (induction bs arbitrary: ids) (auto split: if_splits)

definition site_binding :: "binding \<Rightarrow> permission \<Rightarrow> resource \<Rightarrow> bool" where
  "site_binding b perm r \<longleftrightarrow> b_TenantID b = TenantID r \<and>
     (b_NamespaceID b = '''' \<or> b_NamespaceID b = NamespaceID r) \<and> binding_grants b perm"

lemma binding_allows_site:
  assumes "TenantID r \<noteq> ''''" "SiteID r \<noteq> ''''"
  shows "binding_allows b perm r \<longleftrightarrow> site_binding b perm r \<and> (b_SiteIDs b = [] \<or> SiteID r \<in> set (b_SiteIDs b))"
  using assms by (simp add: binding_allows_def site_binding_def)

text \<open>
  C19. List filtering agrees with single checks.  For every principal that is not a token and
  every site of a well-formed resource, the site passes the filter iff \<^verbatim>\<open>Can\<close> grants the
  permission on it, and the identifiers are sorted without duplicates.
\<close>

theorem SiteFilter_complete:
  assumes "wellFormed r" and "SiteID r \<noteq> ''''" and "p_Kind p \<noteq> KindToken"
  shows "(case SiteFilter (Some p) (TenantID r) (NamespaceID r) perm of (all, ids) \<Rightarrow>
      (Can (Some p) perm r \<longleftrightarrow> all \<or> SiteID r \<in> set ids) \<and> sorted ids \<and> distinct ids)"
proof (cases "p_Kind p = KindUser \<and> \<not> p_IsPlatformAdmin p \<and> ValidPermission perm \<and> \<not> PlatformOnly perm")
  case False
  then show ?thesis
    using assms by (auto simp: SiteFilter_def Can_def wellFormed_def)
next
  case True
  have ns: "NamespaceID r \<noteq> ''''" "TenantID r \<noteq> ''''" using assms by (auto simp: wellFormed_def)
  have can: "Can (Some p) perm r \<longleftrightarrow> (\<exists>b \<in> set (p_Bindings p). binding_allows b perm r)"
    using True assms by (simp add: Can_def list_ex_iff)
  have filter: "SiteFilter (Some p) (TenantID r) (NamespaceID r) perm =
      userSiteFilter p (TenantID r) (NamespaceID r) perm"
    using True ns by (simp add: SiteFilter_def)
  show ?thesis
  proof (cases "collect_sites (TenantID r) (NamespaceID r) perm (p_Bindings p)")
    case None
    then have "\<exists>b \<in> set (p_Bindings p). binding_allows b perm r"
      using ns by (fastforce simp: collect_sites_None binding_allows_def)
    with None can filter show ?thesis by (simp add: userSiteFilter_def)
  next
    case (Some ids)
    have none: "b_SiteIDs b \<noteq> []" if "b \<in> set (p_Bindings p)" and "site_binding b perm r" for b
      using that Some collect_sites_None [of "TenantID r" "NamespaceID r" perm "p_Bindings p"]
      unfolding site_binding_def by (metis option.distinct(1))
    have "(\<exists>b \<in> set (p_Bindings p). binding_allows b perm r) \<longleftrightarrow>
        (\<exists>b \<in> set (p_Bindings p). site_binding b perm r \<and> SiteID r \<in> set (b_SiteIDs b))"
      using none by (intro bex_cong refl) (simp add: binding_allows_site ns(2) assms(2), blast)
    also have "\<dots> \<longleftrightarrow> SiteID r \<in> set ids"
      unfolding collect_sites_Some [OF Some ns(1)] site_binding_def using assms(2) by simp
    finally have "(\<exists>b \<in> set (p_Bindings p). binding_allows b perm r) \<longleftrightarrow> SiteID r \<in> set ids" .
    with Some can filter show ?thesis
      by (simp add: userSiteFilter_def sorted_remdups_adj sorted_distinct_remdups_adj)
  qed
qed
theorem SiteFilter_complete_witness:
  "SiteFilter (Some demo_user) (TenantID demo_site) (NamespaceID demo_site) PermIdentityWrite = (False, [''s1'', ''s2'']) \<and>
   Can (Some demo_user) PermIdentityWrite demo_site"
proof -
  have f: "SiteFilter (Some demo_user) (TenantID demo_site) (NamespaceID demo_site) PermIdentityWrite =
      (False, [''s1'', ''s2''])"
    and h: "wellFormed demo_site" "SiteID demo_site \<noteq> ''''" "p_Kind demo_user \<noteq> KindToken"
      "SiteID demo_site \<in> set [''s1'', ''s2'']"
    by code_simp+
  show ?thesis using SiteFilter_complete [OF h(1-3), of PermIdentityWrite] f h(4) by simp
qed

section \<open>Secret subtrees\<close>

lemma scope_allows_secret:
  assumes "Name s = ScopeSecretRead" and "Arg s \<noteq> ''''" and "ns \<noteq> ''''"
  shows "scope_allows s PermSecretRead r ns \<longleftrightarrow>
    (NamespaceName r = '''' \<or> NamespaceName r = ns) \<and> cleanSecretPath (SecretPath r) \<and>
    Match (Arg s) (ns @ ''/'' @ SecretPath r)"
proof -
  have "map_of scopeDefs ScopeSecretRead = Some \<lparr>arg = argSecretGlob, perms = [PermSecretRead]\<rparr>"
    by (simp add: scopeDefs_def)
  with assms show ?thesis
    by (auto simp: scope_allows_def grantsPermission_def Let_def)
qed

text \<open>
  C18. A token whose only scope is \<open>secret:read:dir/*\<close> reads exactly the clean secret paths below
  \<open>dir\<close> in its own namespace: the whole chain of scope parsing, permission lookup, path cleaning
  and glob matching opens that subtree and nothing else.
\<close>

theorem secret_subtree:
  assumes "p_Kind p = KindToken" and "p_NamespaceName p \<noteq> ''''"
    and "ParseScope (ScopeSecretRead @ '':'' @ dir @ ''/*'') = Inr s" and "\<not> HasWildcard dir"
    and "p_Scopes p = [s]"
  shows "Can (Some p) PermSecretRead r \<longleftrightarrow>
     tokenBoundTo p (TenantID r) (NamespaceID r) \<and> wellFormed r \<and>
     (NamespaceName r = '''' \<or> NamespaceName r = p_NamespaceName p) \<and> cleanSecretPath (SecretPath r) \<and>
     has_prefix (p_NamespaceName p @ ''/'' @ SecretPath r) (dir @ ''/'')"
proof -
  let ?full = "ScopeSecretRead @ '':'' @ dir @ ''/*''"
  have d: "map_of scopeDefs ScopeSecretRead = Some \<lparr>arg = argSecretGlob, perms = [PermSecretRead]\<rparr>"
    by (simp add: scopeDefs_def)
  have split: "splitScope ?full = (ScopeSecretRead, dir @ ''/*'', True)"
    using splitScope_name(2) [OF d, of "dir @ ''/*''"] by simp
  have s: "Name s = ScopeSecretRead" "Arg s = dir @ ''/*''" and "valid_string ?full"
    using assms(3) split d by (auto simp: ParseScope_def split: if_splits)
  then have v: "valid_string (dir @ ''/'')"
    using valid_string_ascii_append [of "ScopeSecretRead @ '':''" "dir @ ''/*''"]
    by (simp add: valid_string_append_ascii byte_def)
  have "Match (Arg s) (ns @ ''/'' @ q) \<longleftrightarrow> has_prefix (ns @ ''/'' @ q) (dir @ ''/'')" for ns q
    using glob.subtree [OF _ v, of "ns @ ''/'' @ q"] assms(4) by (simp add: s HasWildcard_def)
  then have "scope_allows s PermSecretRead r (p_NamespaceName p) \<longleftrightarrow>
    (NamespaceName r = '''' \<or> NamespaceName r = p_NamespaceName p) \<and> cleanSecretPath (SecretPath r) \<and>
    has_prefix (p_NamespaceName p @ ''/'' @ SecretPath r) (dir @ ''/'')"
    using scope_allows_secret [OF s(1) _ assms(2)] s(2) by simp
  with assms(1,5) show ?thesis
    by (auto simp: Can_def ValidPermission_def allPermissions_def PlatformOnly_def tokenBoundTo_def)
qed

theorem secret_subtree_witness:
  "Can (Some demo_token) PermSecretRead demo_secret \<and>
   \<not> Can (Some demo_token) PermSecretRead (demo_secret \<lparr>SecretPath := ''db/../web/key''\<rparr>)"
proof -
  have h: "p_Kind demo_token = KindToken" "p_NamespaceName demo_token \<noteq> ''''"
    "ParseScope (ScopeSecretRead @ '':'' @ ''prod/db'' @ ''/*'') = Inr (hd (p_Scopes demo_token))"
    "\<not> HasWildcard ''prod/db''" "p_Scopes demo_token = [hd (p_Scopes demo_token)]"
    using ascii_text_ok [of "ScopeSecretRead @ '':'' @ ''prod/db'' @ ''/*''"]
    by (simp_all add: demo_token_def ParseScope_def splitScope_def scopeDefs_def byte_def HasWildcard_def)
  have r: "tokenBoundTo demo_token (TenantID demo_secret) (NamespaceID demo_secret)" "wellFormed demo_secret"
    "NamespaceName demo_secret = ''''" "cleanSecretPath (SecretPath demo_secret)"
    "has_prefix (p_NamespaceName demo_token @ ''/'' @ SecretPath demo_secret) (''prod/db'' @ ''/'')"
    "\<not> cleanSecretPath ''db/../web/key''"
    by code_simp+
  show ?thesis
    using secret_subtree [OF h, of demo_secret] secret_subtree [OF h, of "demo_secret \<lparr>SecretPath := ''db/../web/key''\<rparr>"] r
    by simp
qed

end
