(* ===== verification/Transition.thy ===== *)
theory Transition
  imports Prelude
begin

text \<open>
  Transition systems: reachability, and the contract of an inductive invariant, shared by the
  state machines of the development.
\<close>

inductive reach :: "('s \<Rightarrow> bool) \<Rightarrow> ('s \<Rightarrow> 's \<Rightarrow> bool) \<Rightarrow> 's \<Rightarrow> bool" for start step where
  init: "start s \<Longrightarrow> reach start step s"
| step: "reach start step s \<Longrightarrow> step s s' \<Longrightarrow> reach start step s'"

locale invariant_system =
  fixes start :: "'s \<Rightarrow> bool"
    and step :: "'s \<Rightarrow> 's \<Rightarrow> bool"
    and inv :: "'s \<Rightarrow> bool"
  assumes init_inv: "start s \<Longrightarrow> inv s"
    and step_inv: "inv s \<Longrightarrow> step s s' \<Longrightarrow> inv s'"
begin

lemma reach_inv: "reach start step s \<Longrightarrow> inv s"
  by (induction rule: reach.induct) (auto intro: init_inv step_inv)

text \<open>Both ends of a step from a reachable state satisfy the invariant.\<close>

lemma reach_step_inv: "reach start step s \<Longrightarrow> step s s' \<Longrightarrow> inv s \<and> inv s'"
  using reach_inv step_inv by blast

end

end
