(* ===== verification/Admit.thy ===== *)
theory Admit
  imports Transition
begin

text \<open>
  \<^verbatim>\<open>internal/pkg/admit\<close>: the resizable, weighted, first-in-first-out admission gate.

  The gate's mutable fields and the callers it serves form one state.  Every critical section of
  the source is one function on that state (\<open>Acquire\<close>, \<open>SetLimit\<close>, \<open>Release\<close>, \<open>abandon\<close>, each
  ending in \<open>drainLocked\<close> where the source does), and what a parked caller does outside the lock
  is one step each: receiving the handoff, and the compare-and-swap of its \<^verbatim>\<open>claimed\<close> flag
  after its timer or its context fired.  Only those compare-and-swaps can interleave with a
  critical section; a swap on a waiter the running \<open>drainLocked\<close> has not reached yet commutes
  with the section, and one it has passed comes after it, so sections are atomic here.

  Integers are the source's 64-bit \<^verbatim>\<open>int\<close>: additions, subtractions and the multiplication of
  \<open>deriveDepth\<close> wrap.  Time is abstract: a timer may fire at any moment after parking.
\<close>

section \<open>State\<close>

record gate =
  limit :: int
  depth :: int
  cfgDepth :: int
  inFlight :: int
  queue :: "nat list"
  maxWait :: int

record waiter =
  want :: int
  weight :: int
  ch :: bool
  claimed :: bool

datatype shed = ErrQueueFull | ErrNoBudget | ErrQueueTimeout | CtxErr

text \<open>
  Where a call of \<^verbatim>\<open>Acquire\<close> stands.  \<open>Waiting d\<close> is parked in the select with a timer of
  \<open>d\<close>; \<open>LateTimer\<close> and \<open>LateCtx\<close> lost the swap and wait for the handoff already sent; \<open>Leaving\<close>
  won it and has yet to call \<^verbatim>\<open>abandon\<close>; \<open>Holding n\<close> owns a permit of \<open>n\<close> units and \<open>Returning
  n\<close> is about to give one back because its context ended.
\<close>

datatype phase =
    Idle
  | Waiting int
  | LateTimer
  | LateCtx
  | Leaving shed
  | Holding int
  | Returning int
  | Released
  | Shed shed

record room = gate +
  waiters :: "nat \<Rightarrow> waiter"
  callers :: "nat \<Rightarrow> phase"
  arrivals :: nat

abbreviation (input) DefaultMaxWait :: int where "DefaultMaxWait \<equiv> 50000000"
abbreviation (input) QueueFactor :: int where "QueueFactor \<equiv> 4"
abbreviation (input) MinQueueDepth :: int where "MinQueueDepth \<equiv> 32"

section \<open>Operations\<close>

definition deriveDepth :: "'a gate_scheme \<Rightarrow> int" where
  "deriveDepth g =
     (if cfgDepth g > 0 then cfgDepth g
      else if limit g > MaxInt64 div QueueFactor then MaxInt64
      else max (wrap64 (QueueFactor * limit g)) MinQueueDepth)"

text \<open>\<^verbatim>\<open>New\<close>, with the configured limit, queue depth and wait.\<close>

definition New :: "int \<Rightarrow> int \<Rightarrow> int \<Rightarrow> room" where
  "New cLimit cQueueDepth cMaxWait =
     (let g = \<lparr>limit = max cLimit 1, depth = 0, cfgDepth = max cQueueDepth 0, inFlight = 0, queue = [],
               maxWait = (if cMaxWait \<le> 0 then DefaultMaxWait else cMaxWait),
               waiters = (\<lambda>_. \<lparr>want = 0, weight = 0, ch = False, claimed = False\<rparr>),
               callers = (\<lambda>_. Idle), arrivals = 0\<rparr>
      in g\<lparr>depth := deriveDepth g\<rparr>)"

text \<open>\<^verbatim>\<open>drainLocked\<close>: one recursive call per turn of the loop.\<close>

function drainLocked :: "room \<Rightarrow> room" where
  "drainLocked g =
     (case queue g of
        [] \<Rightarrow> g
      | i # rest \<Rightarrow>
          (let wt = waiters g i; n = min (want wt) (limit g) in
           if n > wrap64 (limit g - inFlight g) then g
           else
             (let wt = wt\<lparr>weight := n\<rparr>; g = g\<lparr>queue := rest\<rparr> in
              if claimed wt then drainLocked (g\<lparr>waiters := (waiters g)(i := wt)\<rparr>)
              else drainLocked (g\<lparr>inFlight := wrap64 (inFlight g + weight wt),
                                  waiters := (waiters g)(i := wt\<lparr>claimed := True, ch := True\<rparr>)\<rparr>))))"
  by pat_completeness auto
termination
  by (relation "measure (\<lambda>g. length (queue g))") auto

declare drainLocked.simps [simp del]

text \<open>
  The locked part of \<^verbatim>\<open>Acquire\<close>: admitted at once, shed at once, or parked.  The new caller's
  identifier is the number of calls made before it.
\<close>

definition Acquire :: "int \<Rightarrow> int \<Rightarrow> room \<Rightarrow> room" where
  "Acquire wgt budget g =
     (let w = min (max wgt 1) (limit g); i = arrivals g; g' = g\<lparr>arrivals := Suc i\<rparr> in
      if queue g = [] \<and> w \<le> wrap64 (limit g - inFlight g) then
        g'\<lparr>inFlight := wrap64 (inFlight g + w), callers := (callers g)(i := Holding w)\<rparr>
      else if budget \<le> 0 then g'\<lparr>callers := (callers g)(i := Shed ErrNoBudget)\<rparr>
      else if int (length (queue g)) \<ge> depth g then g'\<lparr>callers := (callers g)(i := Shed ErrQueueFull)\<rparr>
      else
        g'\<lparr>queue := queue g @ [i],
           waiters := (waiters g)(i := \<lparr>want = w, weight = w, ch = False, claimed = False\<rparr>),
           callers := (callers g)(i := Waiting (min budget (maxWait g)))\<rparr>)"

text \<open>The receive \<^verbatim>\<open><-wt.ch\<close>: it takes the buffered handoff and reads the final weight.\<close>

definition receive :: "(int \<Rightarrow> phase) \<Rightarrow> nat \<Rightarrow> room \<Rightarrow> room" where
  "receive k i g =
     g\<lparr>waiters := (waiters g)(i := (waiters g i)\<lparr>ch := False\<rparr>),
       callers := (callers g)(i := k (weight (waiters g i)))\<rparr>"

text \<open>The compare-and-swap of a caller whose timer or context fired.\<close>

definition give_up :: "shed \<Rightarrow> phase \<Rightarrow> nat \<Rightarrow> room \<Rightarrow> room" where
  "give_up e late i g =
     (if \<not> claimed (waiters g i) then
        g\<lparr>waiters := (waiters g)(i := (waiters g i)\<lparr>claimed := True\<rparr>),
          callers := (callers g)(i := Leaving e)\<rparr>
      else g\<lparr>callers := (callers g)(i := late)\<rparr>)"

definition abandon :: "shed \<Rightarrow> nat \<Rightarrow> room \<Rightarrow> room" where
  "abandon e i g =
     drainLocked (g\<lparr>queue := remove1 i (queue g), callers := (callers g)(i := Shed e)\<rparr>)"

definition Release :: "phase \<Rightarrow> int \<Rightarrow> nat \<Rightarrow> room \<Rightarrow> room" where
  "Release after n i g =
     drainLocked (g\<lparr>inFlight := wrap64 (inFlight g - n), callers := (callers g)(i := after)\<rparr>)"

definition SetLimit :: "int \<Rightarrow> room \<Rightarrow> room" where
  "SetLimit n g =
     (let g = g\<lparr>limit := max n 1\<rparr> in drainLocked (g\<lparr>depth := deriveDepth g\<rparr>))"

text \<open>The observers; the nil gate is \<open>None\<close>.\<close>

definition Limit :: "room option \<Rightarrow> int" where
  "Limit g = (case g of None \<Rightarrow> 0 | Some g \<Rightarrow> limit g)"

definition InFlight :: "room option \<Rightarrow> int" where
  "InFlight g = (case g of None \<Rightarrow> 0 | Some g \<Rightarrow> inFlight g)"

definition Queued :: "room option \<Rightarrow> int" where
  "Queued g = (case g of None \<Rightarrow> 0 | Some g \<Rightarrow> int (length (queue g)))"

text \<open>One atomic action of the gate or of one of its callers.\<close>

inductive gate_step :: "room \<Rightarrow> room \<Rightarrow> bool" where
  acquire: "in64 wgt \<Longrightarrow> in64 budget \<Longrightarrow> gate_step g (Acquire wgt budget g)"
| handoff: "callers g i = Waiting d \<Longrightarrow> ch (waiters g i) \<Longrightarrow> gate_step g (receive Holding i g)"
| timer: "callers g i = Waiting d \<Longrightarrow> gate_step g (give_up ErrQueueTimeout LateTimer i g)"
| ctx_done: "callers g i = Waiting d \<Longrightarrow> gate_step g (give_up CtxErr LateCtx i g)"
| late_timer: "callers g i = LateTimer \<Longrightarrow> ch (waiters g i) \<Longrightarrow> gate_step g (receive Holding i g)"
| late_ctx: "callers g i = LateCtx \<Longrightarrow> ch (waiters g i) \<Longrightarrow> gate_step g (receive Returning i g)"
| give_back: "callers g i = Returning n \<Longrightarrow> gate_step g (Release (Shed CtxErr) n i g)"
| abandon: "callers g i = Leaving e \<Longrightarrow> gate_step g (abandon e i g)"
| release: "callers g i = Holding n \<Longrightarrow> gate_step g (Release Released n i g)"
| set_limit: "in64 n \<Longrightarrow> gate_step g (SetLimit n g)"

definition gate_init :: "room \<Rightarrow> bool" where
  "gate_init g \<longleftrightarrow> (\<exists>l d w. in64 l \<and> in64 d \<and> in64 w \<and> g = New l d w)"

end
