(* ===== verification/Admit_Laws.thy ===== *)
theory Admit_Laws
  imports Admit
begin

text \<open>
  The guarantees of the admission gate over every interleaving of its callers: exact accounting
  without overflow, admissions within the limit, first-in-first-out order, no lost wakeups and
  progress of every call.  The invariant is \<open>gate_inv\<close>; \<open>drain_induct\<close> is the induction
  principle of the drain loop that the component's lemmas rest on.
\<close>

section \<open>The invariant\<close>

text \<open>The units charged to a caller: its permit, or the weight of a handoff it has yet to take.\<close>

definition held :: "room \<Rightarrow> nat \<Rightarrow> int" where
  "held g i =
     (case callers g i of
        Holding n \<Rightarrow> n
      | Returning n \<Rightarrow> n
      | Waiting d \<Rightarrow> if ch (waiters g i) then weight (waiters g i) else 0
      | LateTimer \<Rightarrow> if ch (waiters g i) then weight (waiters g i) else 0
      | LateCtx \<Rightarrow> if ch (waiters g i) then weight (waiters g i) else 0
      | _ \<Rightarrow> 0)"

definition caller_ok :: "room \<Rightarrow> nat \<Rightarrow> bool" where
  "caller_ok g i =
     (let wt = waiters g i; queued = (i \<in> set (queue g)) in
      case callers g i of
        Waiting d \<Rightarrow> 0 < d \<and> d \<le> maxWait g \<and>
          (if queued then \<not> claimed wt \<and> \<not> ch wt \<and> 1 \<le> want wt else claimed wt \<and> ch wt \<and> 1 \<le> weight wt)
      | LateTimer \<Rightarrow> \<not> queued \<and> claimed wt \<and> ch wt \<and> 1 \<le> weight wt
      | LateCtx \<Rightarrow> \<not> queued \<and> claimed wt \<and> ch wt \<and> 1 \<le> weight wt
      | Leaving e \<Rightarrow> claimed wt \<and> \<not> ch wt \<and> 1 \<le> want wt
      | Holding n \<Rightarrow> \<not> queued \<and> 1 \<le> n
      | Returning n \<Rightarrow> \<not> queued \<and> 1 \<le> n
      | _ \<Rightarrow> \<not> queued)"

definition gate_ok :: "room \<Rightarrow> bool" where
  "gate_ok g \<longleftrightarrow>
     1 \<le> limit g \<and> limit g \<le> MaxInt64 \<and> 0 < maxWait g \<and>
     sorted_wrt (<) (queue g) \<and> (\<forall>i \<in> set (queue g). i < arrivals g) \<and>
     (\<forall>i. caller_ok g i) \<and> (\<forall>i \<ge> arrivals g. callers g i = Idle) \<and>
     inFlight g = (\<Sum>i < arrivals g. held g i) \<and> inFlight g \<le> MaxInt64"

definition head_blocked :: "room \<Rightarrow> bool" where
  "head_blocked g = (case queue g of [] \<Rightarrow> True | i # _ \<Rightarrow> min (want (waiters g i)) (limit g) > limit g - inFlight g)"

definition gate_inv :: "room \<Rightarrow> bool" where
  "gate_inv g \<longleftrightarrow> gate_ok g \<and> head_blocked g"

lemma gate_ok_caller: "gate_ok g \<Longrightarrow> caller_ok g i"
  by (simp add: gate_ok_def)

lemma held_nonneg:
  assumes "gate_ok g"
  shows "0 \<le> held g i"
  using gate_ok_caller [OF assms, of i]
  by (cases "callers g i") (auto simp: caller_ok_def held_def Let_def split: if_splits)

lemma inFlight_nonneg: "gate_ok g \<Longrightarrow> 0 \<le> inFlight g"
  using held_nonneg by (simp add: gate_ok_def sum_nonneg)

lemma room_fits: "gate_ok g \<Longrightarrow> wrap64 (limit g - inFlight g) = limit g - inFlight g"
  using inFlight_nonneg [of g] by (intro wrap64_id) (auto simp: gate_ok_def in64_def MaxInt64_def MinInt64_def)

lemma charge_fits:
  "gate_ok g \<Longrightarrow> 0 \<le> w \<Longrightarrow> w \<le> limit g - inFlight g \<Longrightarrow> wrap64 (inFlight g + w) = inFlight g + w"
  using inFlight_nonneg [of g] by (intro wrap64_id) (auto simp: gate_ok_def in64_def MaxInt64_def MinInt64_def)

lemma sum_update:
  fixes f :: "nat \<Rightarrow> int"
  assumes "j < n" and "\<And>i. i < n \<Longrightarrow> i \<noteq> j \<Longrightarrow> f' i = f i"
  shows "(\<Sum>i < n. f' i) = (\<Sum>i < n. f i) + (f' j - f j)"
proof -
  have "(\<Sum>i \<in> {..<n} - {j}. f' i) = (\<Sum>i \<in> {..<n} - {j}. f i)"
    using assms(2) by (intro sum.cong) auto
  then show ?thesis
    using assms(1) sum.remove [of "{..<n}" j f] sum.remove [of "{..<n}" j f'] by simp
qed

text \<open>One turn of the drain.\<close>

definition drop_head :: "room \<Rightarrow> room" where
  "drop_head g = (let i = hd (queue g) in
     g\<lparr>queue := tl (queue g), waiters := (waiters g)(i := (waiters g i)\<lparr>weight := min (want (waiters g i)) (limit g)\<rparr>)\<rparr>)"

definition admit_head :: "room \<Rightarrow> room" where
  "admit_head g = (let i = hd (queue g); n = min (want (waiters g i)) (limit g) in
     g\<lparr>queue := tl (queue g), inFlight := wrap64 (inFlight g + n),
       waiters := (waiters g)(i := (waiters g i)\<lparr>weight := n, claimed := True, ch := True\<rparr>)\<rparr>)"

lemma drainLocked_step:
  "drainLocked g =
     (if queue g = [] then g
      else if min (want (waiters g (hd (queue g)))) (limit g) > wrap64 (limit g - inFlight g) then g
      else if claimed (waiters g (hd (queue g))) then drainLocked (drop_head g)
      else drainLocked (admit_head g))"
  by (subst drainLocked.simps) (auto simp: drop_head_def admit_head_def Let_def split: list.splits)

lemma head_phase:
  assumes "gate_ok g" and "queue g = i # q"
  shows "(if claimed (waiters g i) then \<exists>e. callers g i = Leaving e else \<exists>d. callers g i = Waiting d)"
    and "i \<notin> set q" and "i < arrivals g" and "1 \<le> want (waiters g i)" and "\<not> ch (waiters g i)"
proof -
  have ok: "caller_ok g i" using assms(1) by (simp add: gate_ok_def)
  show "(if claimed (waiters g i) then \<exists>e. callers g i = Leaving e else \<exists>d. callers g i = Waiting d)"
    "1 \<le> want (waiters g i)" "\<not> ch (waiters g i)"
    using ok assms(2) by (auto simp: caller_ok_def Let_def split: phase.splits)
  show "i \<notin> set q" "i < arrivals g"
    using assms by (auto simp: gate_ok_def)
qed

lemma drop_head_ok:
  assumes "gate_ok g" and "queue g = i # q" and "claimed (waiters g i)"
  shows "gate_ok (drop_head g)"
proof -
  note h = head_phase [OF assms(1,2)]
  obtain e where e: "callers g i = Leaving e" using h(1) assms(3) by auto
  have same: "held (drop_head g) j = held g j" for j
    using e by (auto simp: held_def drop_head_def Let_def assms(2) split: phase.splits)
  have "caller_ok (drop_head g) j" for j
  proof (cases "j = i")
    case True
    then show ?thesis
      using assms h e by (simp add: gate_ok_def caller_ok_def drop_head_def Let_def)
  next
    case False
    have "caller_ok g j" using assms(1) by (simp add: gate_ok_def)
    with False show ?thesis
      by (simp add: caller_ok_def drop_head_def Let_def assms(2) split: phase.splits)
  qed
  then show ?thesis
    using assms same by (auto simp: gate_ok_def drop_head_def Let_def)
qed

lemma admit_head_ok:
  assumes "gate_ok g" and "queue g = i # q" and "\<not> claimed (waiters g i)"
    and fits: "min (want (waiters g i)) (limit g) \<le> limit g - inFlight g"
  shows "gate_ok (admit_head g)" and "inFlight (admit_head g) \<le> limit g"
    and "inFlight (admit_head g) = inFlight g + min (want (waiters g i)) (limit g)"
proof -
  note h = head_phase [OF assms(1,2)]
  let ?n = "min (want (waiters g i)) (limit g)"
  obtain d where d: "callers g i = Waiting d" using h(1) assms(3) by auto
  have n: "1 \<le> ?n" using h assms(1) by (simp add: gate_ok_def)
  show f: "inFlight (admit_head g) = inFlight g + ?n"
    using charge_fits [OF assms(1) _ fits] n by (simp add: admit_head_def Let_def assms(2))
  then show le: "inFlight (admit_head g) \<le> limit g" using fits by linarith
  have other: "held (admit_head g) j = held g j" if "j \<noteq> i" for j
    using that by (simp add: held_def admit_head_def Let_def assms(2) split: phase.splits)
  have "held (admit_head g) i = ?n" "held g i = 0"
    using d h by (simp_all add: held_def admit_head_def Let_def assms(2))
  then have sum: "(\<Sum>j < arrivals g. held (admit_head g) j) = (\<Sum>j < arrivals g. held g j) + ?n"
    using sum_update [of i "arrivals g" "held (admit_head g)" "held g"] h other by simp
  have "caller_ok (admit_head g) j" for j
  proof (cases "j = i")
    case True
    have "caller_ok g i" using assms(1) by (simp add: gate_ok_def)
    with True d h n show ?thesis
      by (simp add: caller_ok_def admit_head_def Let_def assms(2))
  next
    case False
    have "caller_ok g j" using assms(1) by (simp add: gate_ok_def)
    with False show ?thesis
      by (simp add: caller_ok_def admit_head_def Let_def assms(2) split: phase.splits)
  qed
  moreover have "arrivals (admit_head g) = arrivals g" "limit (admit_head g) = limit g"
    "maxWait (admit_head g) = maxWait g" "callers (admit_head g) = callers g" "queue (admit_head g) = q"
    by (simp_all add: admit_head_def Let_def assms(2))
  ultimately show "gate_ok (admit_head g)"
    using assms(1,2) f sum le by (simp add: gate_ok_def)
qed

text \<open>
  The drain as an induction principle: it halts at a blocked head, drops a head whose caller
  left, or admits a head that fits.
\<close>

lemma drain_induct [consumes 1, case_names halt drop admit]:
  assumes "gate_ok g"
    and halt: "\<And>g. gate_ok g \<Longrightarrow> head_blocked g \<Longrightarrow> P g g"
    and drop: "\<And>g i q h. gate_ok g \<Longrightarrow> queue g = i # q \<Longrightarrow> claimed (waiters g i) \<Longrightarrow>
      gate_ok (drop_head g) \<Longrightarrow> P (drop_head g) h \<Longrightarrow> P g h"
    and admit: "\<And>g i q h. gate_ok g \<Longrightarrow> queue g = i # q \<Longrightarrow> \<not> claimed (waiters g i) \<Longrightarrow>
      min (want (waiters g i)) (limit g) \<le> limit g - inFlight g \<Longrightarrow>
      gate_ok (admit_head g) \<Longrightarrow> P (admit_head g) h \<Longrightarrow> P g h"
  shows "P g (drainLocked g)"
  using assms(1)
proof (induction "queue g" arbitrary: g)
  case Nil
  then show ?case by (subst drainLocked_step) (simp add: halt head_blocked_def)
next
  case (Cons i q)
  note q = Cons.hyps(2) [symmetric] and ok = Cons.prems
  have tl: "queue (drop_head g) = q" "queue (admit_head g) = q"
    by (simp_all add: drop_head_def admit_head_def Let_def q)
  note step = drainLocked_step [of g, unfolded room_fits [OF ok] q]
  show ?case
  proof (cases "min (want (waiters g i)) (limit g) > limit g - inFlight g")
    case True
    then have "drainLocked g = g" "head_blocked g" by (auto simp: step head_blocked_def q)
    with halt ok show ?thesis by simp
  next
    case fits: False
    show ?thesis
    proof (cases "claimed (waiters g i)")
      case True
      with step fits have "drainLocked g = drainLocked (drop_head g)" by auto
      then show ?thesis
        using drop [OF ok q True] Cons.hyps(1) [of "drop_head g"] tl drop_head_ok [OF ok q True] by simp
    next
      case False
      with step fits have "drainLocked g = drainLocked (admit_head g)" by auto
      then show ?thesis
        using admit [OF ok q False] Cons.hyps(1) [of "admit_head g"] tl admit_head_ok(1) [OF ok q False] fits
        by simp
    qed
  qed
qed

lemma drainLocked_inv: "gate_ok g \<Longrightarrow> gate_inv (drainLocked g)"
  by (induction rule: drain_induct) (simp_all add: gate_inv_def)

lemma drainLocked_bound: "gate_ok g \<Longrightarrow> inFlight (drainLocked g) \<le> max (inFlight g) (limit g)"
proof (induction rule: drain_induct)
  case (drop g i q h)
  then show ?case by (simp add: drop_head_def Let_def)
next
  case (admit g i q h)
  then show ?case
    using admit_head_ok(2) [OF admit(1-4)] by (simp add: admit_head_def Let_def)
qed simp

lemma drainLocked_fifo:
  "gate_ok g \<Longrightarrow> set (queue (drainLocked g)) \<subseteq> set (queue g) \<and>
     (\<forall>j. held g j = 0 \<longrightarrow> 0 < held (drainLocked g) j \<longrightarrow> (\<forall>i \<in> set (queue (drainLocked g)). j < i))"
proof (induction rule: drain_induct)
  case (drop g i q h)
  have "held (drop_head g) j = held g j" for j
    using head_phase(1,5) [OF drop(1,2)] drop(3) by (auto simp: held_def drop_head_def Let_def drop(2) split: phase.splits)
  with drop show ?case by (simp add: drop_head_def Let_def) blast
next
  case (admit g i q h)
  have "held (admit_head g) j = held g j" if "j \<noteq> i" for j
    using that by (simp add: held_def admit_head_def Let_def admit(2) split: phase.splits)
  moreover have "\<forall>k \<in> set q. i < k" "queue (admit_head g) = q"
    using admit(1,2) by (auto simp: gate_ok_def admit_head_def Let_def)
  ultimately show ?case using admit(2,6) by (metis list.set_intros(2) subset_code(1))
qed simp

lemma drainLocked_frame:
  "gate_ok g \<Longrightarrow> limit (drainLocked g) = limit g \<and> callers (drainLocked g) = callers g \<and> arrivals (drainLocked g) = arrivals g"
  by (induction rule: drain_induct) (simp_all add: drop_head_def admit_head_def Let_def)

lemma gate_okI:
  assumes "gate_ok g" and "arrivals g' = arrivals g" and "maxWait g' = maxWait g"
    and "1 \<le> limit g'" and "limit g' \<le> MaxInt64"
    and "sorted_wrt (<) (queue g')" and "set (queue g') \<subseteq> set (queue g)"
    and "i < arrivals g" and "caller_ok g' i"
    and "\<And>j. j \<noteq> i \<Longrightarrow> callers g' j = callers g j \<and> waiters g' j = waiters g j \<and>
           (j \<in> set (queue g') \<longleftrightarrow> j \<in> set (queue g))"
    and "inFlight g' = inFlight g + (held g' i - held g i)" and "held g' i \<le> held g i"
  shows "gate_ok g'"
proof -
  have other: "held g' j = held g j" if "j \<noteq> i" for j
    using assms(10) [OF that] by (simp add: held_def split: phase.splits)
  have "(\<Sum>j < arrivals g. held g' j) = (\<Sum>j < arrivals g. held g j) + (held g' i - held g i)"
    using sum_update [of i "arrivals g" "held g'" "held g"] other assms(8) by simp
  moreover have "caller_ok g' j" for j
    using assms(3,9) assms(10) [of j] gate_ok_caller [OF assms(1), of j]
    by (cases "j = i") (simp_all add: caller_ok_def Let_def split: phase.splits)
  ultimately show ?thesis
    using assms(1-8,10-12) by (auto simp: gate_ok_def)
qed

lemma limit_ok: "gate_ok g \<Longrightarrow> 1 \<le> limit g \<and> limit g \<le> MaxInt64 \<and> sorted_wrt (<) (queue g)"
  by (simp add: gate_ok_def)

lemma active_caller: "gate_ok g \<Longrightarrow> callers g i \<noteq> Idle \<Longrightarrow> i < arrivals g"
  by (meson gate_ok_def not_le_imp_less)

lemma receive_ok:
  assumes "gate_ok g" and "callers g i = Waiting d \<or> callers g i = LateTimer \<or> callers g i = LateCtx"
    and "ch (waiters g i)" and "k = Holding \<or> k = Returning"
  shows "gate_ok (receive k i g)"
proof (rule gate_okI [OF assms(1), where i = i])
  show "i < arrivals g" using assms(1,2) by (auto intro: active_caller)
  show "caller_ok (receive k i g) i"
    using gate_ok_caller [OF assms(1), of i] assms(2-)
    by (auto simp: caller_ok_def receive_def Let_def split: if_splits)
  show "inFlight (receive k i g) = inFlight g + (held (receive k i g) i - held g i)"
    "held (receive k i g) i \<le> held g i"
    using assms(2-) by (auto simp: held_def receive_def)
qed (use limit_ok [OF assms(1)] in \<open>simp_all add: receive_def\<close>)

lemma give_up_ok:
  assumes "gate_ok g" and "callers g i = Waiting d" and "late = LateTimer \<or> late = LateCtx"
  shows "gate_ok (give_up e late i g)"
proof (rule gate_okI [OF assms(1), where i = i])
  show "i < arrivals g" using assms(1,2) by (auto intro: active_caller)
  show "caller_ok (give_up e late i g) i"
    using gate_ok_caller [OF assms(1), of i] assms(2-)
    by (auto simp: caller_ok_def give_up_def Let_def split: if_splits)
  show "inFlight (give_up e late i g) = inFlight g + (held (give_up e late i g) i - held g i)"
    "held (give_up e late i g) i \<le> held g i"
    using gate_ok_caller [OF assms(1), of i] assms(2-)
    by (auto simp: held_def give_up_def caller_ok_def Let_def split: if_splits)
qed (use limit_ok [OF assms(1)] in \<open>simp_all add: give_up_def\<close>)

text \<open>A critical section that ends in a drain and itself admits nobody.\<close>

definition drained :: "room \<Rightarrow> room \<Rightarrow> bool" where
  "drained g g' \<longleftrightarrow>
     (\<exists>g1. gate_ok g1 \<and> g' = drainLocked g1 \<and> inFlight g1 \<le> inFlight g \<and> (\<forall>j. held g1 j \<le> held g j))"

lemma drainedI:
  "gate_ok g1 \<Longrightarrow> g' = drainLocked g1 \<Longrightarrow> inFlight g1 \<le> inFlight g \<Longrightarrow>
   (\<And>j. held g1 j \<le> held g j) \<Longrightarrow> drained g g'"
  by (auto simp: drained_def)

lemma abandon_drained:
  assumes "gate_ok g" and "callers g i = Leaving e"
  shows "drained g (abandon e i g)"
proof (rule drainedI [OF gate_okI [OF assms(1), where i = i] abandon_def])
  let ?g = "g\<lparr>queue := remove1 i (queue g), callers := (callers g)(i := Shed e)\<rparr>"
  have le: "held ?g j \<le> held g j" for j using assms(2) by (simp add: held_def split: phase.splits)
  show "held ?g i \<le> held g i" by (rule le)
  show "\<And>j. held ?g j \<le> held g j" by (rule le)
  have d: "distinct (queue g)" "sorted_wrt (<) (queue g)"
    using assms(1) by (auto simp: gate_ok_def strict_sorted_iff)
  show "i < arrivals g" using assms by (auto intro: active_caller)
  show "caller_ok ?g i" using d by (simp add: caller_ok_def)
  show "sorted_wrt (<) (queue ?g)"
    using d(2) by (simp add: strict_sorted_iff sorted_remove1)
  show "inFlight ?g = inFlight g + (held ?g i - held g i)"
    using assms(2) by (simp add: held_def)
qed (use limit_ok [OF assms(1)] in \<open>simp_all add: set_remove1_subset\<close>)

lemma Release_drained:
  assumes "gate_ok g" and "callers g i = Holding n \<or> callers g i = Returning n"
    and "after = Released \<or> after = Shed e"
  shows "drained g (Release after n i g)"
proof (rule drainedI [OF gate_okI [OF assms(1), where i = i] Release_def])
  let ?g = "g\<lparr>inFlight := wrap64 (inFlight g - n), callers := (callers g)(i := after)\<rparr>"
  have h: "held g i = n" "held ?g i = 0" using assms(2,3) by (auto simp: held_def)
  have le: "held ?g j \<le> held g j" for j
    using h held_nonneg [OF assms(1), of i] by (cases "j = i") (simp_all add: held_def split: phase.splits)
  show i: "i < arrivals g" using assms(1,2) by (auto intro: active_caller)
  have "held g i \<le> inFlight g"
    using member_le_sum [of i "{..<arrivals g}" "held g"] i held_nonneg [OF assms(1)] assms(1)
    by (simp add: gate_ok_def)
  moreover have "0 \<le> held g i" "inFlight g \<le> MaxInt64"
    using held_nonneg assms(1) by (auto simp: gate_ok_def)
  ultimately have "in64 (inFlight g - n)"
    by (auto simp: h in64_def MinInt64_def)
  with h show eq: "inFlight ?g = inFlight g + (held ?g i - held g i)" by (simp add: wrap64_id)
  then show "inFlight ?g \<le> inFlight g" using h held_nonneg [OF assms(1), of i] by simp
  show "held ?g i \<le> held g i" by (rule le)
  show "\<And>j. held ?g j \<le> held g j" by (rule le)
  show "caller_ok ?g i"
    using gate_ok_caller [OF assms(1), of i] assms(2,3) by (auto simp: caller_ok_def Let_def)
qed (use limit_ok [OF assms(1)] in simp_all)

lemma SetLimit_drained:
  assumes "gate_ok g" and "in64 n"
  shows "drained g (SetLimit n g)"
proof -
  let ?g = "g\<lparr>limit := max n 1, depth := deriveDepth (g\<lparr>limit := max n 1\<rparr>)\<rparr>"
  have same: "held ?g = held g" "caller_ok ?g = caller_ok g"
    by (auto simp: held_def caller_ok_def fun_eq_iff split: phase.splits)
  then have "gate_ok ?g"
    using assms by (simp add: gate_ok_def in64_def MaxInt64_def)
  with same show ?thesis
    by (intro drainedI [of ?g]) (simp_all add: SetLimit_def Let_def)
qed

lemma Acquire_other:
  assumes "j \<noteq> arrivals g"
  shows "waiters (Acquire wgt budget g) j = waiters g j" and "callers (Acquire wgt budget g) j = callers g j"
    and "j \<in> set (queue (Acquire wgt budget g)) \<longleftrightarrow> j \<in> set (queue g)"
    and "held (Acquire wgt budget g) j = held g j"
  using assms by (simp_all add: Acquire_def Let_def held_def split: phase.splits)

lemma Acquire_admits:
  assumes "0 < held (Acquire wgt budget g) (arrivals g)"
  shows "queue (Acquire wgt budget g) = []"
proof (rule ccontr)
  assume "queue (Acquire wgt budget g) \<noteq> []"
  then have "held (Acquire wgt budget g) (arrivals g) = 0"
    by (auto simp: Acquire_def Let_def held_def)
  with assms show False by simp
qed

lemma Acquire_inv:
  assumes "gate_inv g" and "in64 wgt"
  shows "gate_inv (Acquire wgt budget g)"
proof -
  have ok: "gate_ok g" and hb: "head_blocked g" using assms(1) by (auto simp: gate_inv_def)
  let ?g = "Acquire wgt budget g" and ?i = "arrivals g" and ?w = "min (max wgt 1) (limit g)"
  have w: "1 \<le> ?w" using ok by (simp add: gate_ok_def)
  have idle: "callers g j = Idle" "j \<notin> set (queue g)" if "\<not> j < ?i" for j
    using ok that by (auto simp: gate_ok_def)
  note nth = Acquire_other [of _ g wgt budget]
  have frame: "limit ?g = limit g" "maxWait ?g = maxWait g" "arrivals ?g = Suc ?i"
    by (simp_all add: Acquire_def Let_def)
  have "inFlight ?g = inFlight g + held ?g ?i \<and> inFlight ?g \<le> MaxInt64"
  proof (cases "queue g = [] \<and> ?w \<le> limit g - inFlight g")
    case True
    with ok w charge_fits [OF ok, of ?w] show ?thesis
      by (simp add: Acquire_def Let_def held_def room_fits [OF ok] gate_ok_def)
  next
    case False
    then have "inFlight ?g = inFlight g" "held ?g ?i = 0"
      using room_fits [OF ok] by (auto simp: Acquire_def Let_def held_def)
    with ok show ?thesis by (simp add: gate_ok_def)
  qed
  moreover have "(\<Sum>j < Suc ?i. held ?g j) = (\<Sum>j < ?i. held g j) + held ?g ?i"
    by (simp add: nth(4))
  moreover have "caller_ok ?g j" for j
  proof (cases "j = ?i")
    case True
    then show ?thesis
      using w idle [of ?i] ok by (auto simp: caller_ok_def Acquire_def Let_def gate_ok_def)
  next
    case False
    with nth [OF False] frame gate_ok_caller [OF ok, of j] show ?thesis
      by (simp add: caller_ok_def Let_def split: phase.splits)
  qed
  moreover have "sorted_wrt (<) (queue ?g)" "\<forall>j \<in> set (queue ?g). j < Suc ?i"
    using ok by (auto simp: gate_ok_def Acquire_def Let_def sorted_wrt_append less_Suc_eq)
  moreover have "\<forall>j \<ge> Suc ?i. callers ?g j = Idle"
    using nth(2) idle(1) by (metis Suc_n_not_le_n not_less_eq_eq linorder_not_less Suc_leD)
  ultimately have "gate_ok ?g"
    using ok frame by (simp add: gate_ok_def)
  moreover have "head_blocked ?g"
    using hb room_fits [OF ok] idle(2) [of ?i]
    by (auto simp: head_blocked_def Acquire_def Let_def split: list.splits)
  ultimately show ?thesis by (simp add: gate_inv_def)
qed

lemma head_blocked_cong:
  assumes "head_blocked g" and "queue g' = queue g" and "limit g' = limit g" and "inFlight g' = inFlight g"
    and "\<And>j. want (waiters g' j) = want (waiters g j)"
  shows "head_blocked g'"
  using assms by (simp add: head_blocked_def split: list.splits)

lemma receive_inv:
  assumes "gate_inv g" and "callers g i = Waiting d \<or> callers g i = LateTimer \<or> callers g i = LateCtx"
    and "ch (waiters g i)" and "k = Holding \<or> k = Returning"
  shows "gate_inv (receive k i g)"
  using assms receive_ok [of g i d k] head_blocked_cong [of g "receive k i g"]
  by (simp add: gate_inv_def receive_def)

lemma give_up_inv:
  assumes "gate_inv g" and "callers g i = Waiting d" and "late = LateTimer \<or> late = LateCtx"
  shows "gate_inv (give_up e late i g)"
  using assms give_up_ok [of g i d late e] head_blocked_cong [of g "give_up e late i g"]
  by (simp add: gate_inv_def give_up_def)

text \<open>Every step is a drain, an arrival, or keeps all counts and the queue.\<close>

lemma gate_step_kinds:
  assumes "gate_inv g" and "gate_step g g'"
  obtains (arrival) wgt budget where "in64 wgt" "g' = Acquire wgt budget g"
  | (drained) "drained g g'"
  | (quiet) "gate_inv g'" "inFlight g' = inFlight g" "queue g' = queue g" "\<And>j. held g' j = held g j"
proof -
  have ok: "gate_ok g" using assms(1) by (simp add: gate_inv_def)
  have receive: "inFlight (receive k i g) = inFlight g \<and> queue (receive k i g) = queue g \<and>
      (\<forall>j. held (receive k i g) j = held g j)"
    if "callers g i = Waiting d \<or> callers g i = LateTimer \<or> callers g i = LateCtx"
      "ch (waiters g i)" "k = Holding \<or> k = Returning" for i d k
    using that by (auto simp: receive_def held_def split: phase.splits)
  have give_up: "inFlight (give_up e late i g) = inFlight g \<and> queue (give_up e late i g) = queue g \<and>
      (\<forall>j. held (give_up e late i g) j = held g j)"
    if "callers g i = Waiting d" "late = LateTimer \<or> late = LateCtx" for i d e late
    using that gate_ok_caller [OF ok, of i]
    by (auto simp: give_up_def held_def caller_ok_def Let_def split: if_splits phase.splits)
  from assms(2) show ?thesis
  proof cases
    case (acquire wgt budget)
    then show ?thesis using arrival by simp
  next
    case (handoff i d)
    then show ?thesis using quiet receive [of i d Holding] receive_inv [OF assms(1), of i d Holding] by simp
  next
    case (timer i d)
    then show ?thesis
      using quiet give_up [of i d LateTimer] give_up_inv [OF assms(1), of i d LateTimer] by simp
  next
    case (ctx_done i d)
    then show ?thesis
      using quiet give_up [of i d LateCtx] give_up_inv [OF assms(1), of i d LateCtx] by simp
  next
    case (late_timer i)
    then show ?thesis using quiet receive [of i _ Holding] receive_inv [OF assms(1), of i _ Holding] by simp
  next
    case (late_ctx i)
    then show ?thesis using quiet receive [of i _ Returning] receive_inv [OF assms(1), of i _ Returning] by simp
  qed (use drained ok in \<open>auto intro: abandon_drained Release_drained SetLimit_drained\<close>)
qed

lemma drained_inv: "drained g g' \<Longrightarrow> gate_inv g'"
  by (auto simp: drained_def intro: drainLocked_inv)

lemma gate_step_inv:
  assumes "gate_inv g" and "gate_step g g'"
  shows "gate_inv g'"
  using assms by (cases rule: gate_step_kinds) (use assms(1) in \<open>auto intro: Acquire_inv drained_inv\<close>)

lemma New_inv:
  assumes "gate_init g"
  shows "gate_inv g"
  using assms
  by (auto simp: gate_init_def New_def Let_def gate_inv_def gate_ok_def head_blocked_def caller_ok_def
      in64_def MaxInt64_def)

interpretation admit: invariant_system gate_init gate_step gate_inv
  by unfold_locales (auto intro: New_inv gate_step_inv)

section \<open>Guarantees\<close>

text \<open>
  C10. In every reachable state the in-flight counter is exactly the sum of the units its callers
  hold, it never wraps, and a caller that lost the race against a handoff always finds that
  handoff in its channel, so the bare receive after a lost swap cannot block.
\<close>

theorem admit_accounting:
  assumes "reach gate_init gate_step g"
  shows "InFlight (Some g) = (\<Sum>i < arrivals g. held g i) \<and> 0 \<le> InFlight (Some g) \<and> InFlight (Some g) \<le> MaxInt64 \<and>
    (\<forall>i. callers g i = LateTimer \<or> callers g i = LateCtx \<longrightarrow> ch (waiters g i))"
proof -
  have ok: "gate_ok g" using admit.reach_inv [OF assms] by (simp add: gate_inv_def)
  have "callers g i = LateTimer \<or> callers g i = LateCtx \<longrightarrow> ch (waiters g i)" for i
    using gate_ok_caller [OF ok, of i] by (auto simp: caller_ok_def Let_def)
  with ok inFlight_nonneg [OF ok] show ?thesis
    by (simp add: InFlight_def gate_ok_def)
qed


text \<open>
  C15. No step raises the in-flight count above the limit in force: it may exceed the limit only
  because the limit was lowered, and then it never grows.
\<close>

theorem admit_bound:
  assumes "reach gate_init gate_step g" and "gate_step g g'"
  shows "inFlight g' \<le> max (inFlight g) (limit g')"
  using admit.reach_inv [OF assms(1)] assms(2)
proof (cases rule: gate_step_kinds)
  case (arrival wgt budget)
  let ?w = "min (max wgt 1) (limit g)"
  have ok: "gate_ok g" using admit.reach_inv [OF assms(1)] by (simp add: gate_inv_def)
  then have "0 \<le> ?w" by (simp add: gate_ok_def)
  with arrival charge_fits [OF ok, of ?w] show ?thesis
    by (auto simp: Acquire_def Let_def room_fits [OF ok])
next
  case drained
  then show ?thesis
    using drainLocked_bound drainLocked_frame unfolding drained_def by fastforce
qed simp

text \<open>
  C12. First in, first out: when a step charges units to a caller, everybody still parked after the
  step arrived later.  Neither a fresh arrival nor the drain overtakes a parked caller.
\<close>

theorem admit_fifo:
  assumes "reach gate_init gate_step g" and "gate_step g g'"
    and "held g j = 0" and "0 < held g' j" and "i \<in> set (queue g')"
  shows "j < i"
  using admit.reach_inv [OF assms(1)] assms(2)
proof (cases rule: gate_step_kinds)
  case (arrival wgt budget)
  then have "j = arrivals g" using assms(3,4) Acquire_other(4) [of j g wgt budget] by fastforce
  with arrival(2) assms(4,5) Acquire_admits [of wgt budget g] show ?thesis by simp
next
  case drained
  then obtain g1 where g1: "gate_ok g1" "g' = drainLocked g1" "held g1 j \<le> held g j"
    by (auto simp: drained_def)
  then have "held g1 j = 0" using assms(3) held_nonneg [OF g1(1), of j] by simp
  with g1 assms(4,5) drainLocked_fifo [OF g1(1)] show ?thesis by simp
qed (use assms in simp)

text \<open>
  The derived wait-room depth is the exact value of the formula, saturated at the largest
  integer: the guarded multiplication never wraps.
\<close>

theorem deriveDepth_exact:
  assumes "in64 (limit g)" and "1 \<le> limit g"
  shows "deriveDepth g = (if cfgDepth g > 0 then cfgDepth g else min MaxInt64 (max (4 * limit g) 32))"
  using assms by (auto simp: deriveDepth_def in64_def MaxInt64_def MinInt64_def wrap64_id)

lemma drainLocked_callers [simp]: "callers (drainLocked g) = callers g"
proof (induction "queue g" arbitrary: g)
  case Nil
  then show ?case by (subst drainLocked_step) simp
next
  case (Cons i q)
  have "queue (drop_head g) = q" "queue (admit_head g) = q" "callers (drop_head g) = callers g"
    "callers (admit_head g) = callers g"
    using Cons.hyps(2) [symmetric] by (simp_all add: drop_head_def admit_head_def Let_def)
  then show ?case
    using Cons.hyps(1) [of "drop_head g"] Cons.hyps(1) [of "admit_head g"] by (subst drainLocked_step) simp
qed

text \<open>How many of its own steps a call still has to make, at most.\<close>

fun caller_rank :: "phase \<Rightarrow> nat" where
  "caller_rank (Waiting _) = 3"
| "caller_rank LateTimer = 2"
| "caller_rank LateCtx = 2"
| "caller_rank (Leaving _) = 2"
| "caller_rank (Holding _) = 1"
| "caller_rank (Returning _) = 1"
| "caller_rank _ = 0"

lemma caller_enabled:
  assumes "gate_inv g" and "0 < caller_rank (callers g i)"
  shows "\<exists>g'. gate_step g g' \<and> caller_rank (callers g' i) < caller_rank (callers g i)"
proof -
  have late: "ch (waiters g i)" if "callers g i = LateTimer \<or> callers g i = LateCtx"
    using that gate_ok_caller [of g i] assms(1) by (auto simp: gate_inv_def caller_ok_def Let_def)
  show ?thesis
  proof (cases "callers g i")
    case (Waiting d)
    then show ?thesis
      using gate_step.timer [of g i d] by (intro exI [of _ "give_up ErrQueueTimeout LateTimer i g"]) (simp add: give_up_def)
  next
    case LateTimer
    with late show ?thesis
      using gate_step.late_timer [of g i] by (intro exI [of _ "receive Holding i g"]) (simp add: receive_def)
  next
    case LateCtx
    with late show ?thesis
      using gate_step.late_ctx [of g i] by (intro exI [of _ "receive Returning i g"]) (simp add: receive_def)
  next
    case (Leaving e)
    then show ?thesis
      using gate_step.abandon [of g i e] by (intro exI [of _ "abandon e i g"]) (simp add: abandon_def)
  next
    case (Holding n)
    then show ?thesis
      using gate_step.release [of g i n] by (intro exI [of _ "Release Released n i g"]) (simp add: Release_def)
  next
    case (Returning n)
    then show ?thesis
      using gate_step.give_back [of g i n] by (intro exI [of _ "Release (Shed CtxErr) n i g"]) (simp add: Release_def)
  qed (use assms(2) in auto)
qed

lemma caller_rank_antimono:
  "gate_step g g' \<Longrightarrow> i < arrivals g \<Longrightarrow> caller_rank (callers g' i) \<le> caller_rank (callers g i)"
  by (induction rule: gate_step.induct)
     (auto simp: Acquire_def receive_def give_up_def Release_def abandon_def SetLimit_def Let_def)


section \<open>A sample run\<close>

text \<open>One unit is held by the first caller and two callers are parked behind it.\<close>

definition demo_gate :: room where
  "demo_gate = Acquire 1 10 (Acquire 5 10 (Acquire 1 0 (New 1 0 0)))"

lemma New_reach: "in64 l \<Longrightarrow> in64 d \<Longrightarrow> in64 w \<Longrightarrow> reach gate_init gate_step (New l d w)"
  by (rule reach.init) (auto simp: gate_init_def)

lemma Acquire_reach:
  "reach gate_init gate_step g \<Longrightarrow> in64 w \<Longrightarrow> in64 b \<Longrightarrow> reach gate_init gate_step (Acquire w b g)"
  by (blast intro: reach.step gate_step.acquire)

lemma demo_gate_reach: "reach gate_init gate_step demo_gate"
  unfolding demo_gate_def
  by (intro Acquire_reach New_reach) (simp_all add: in64_def MaxInt64_def MinInt64_def)

lemma demo_release: "gate_step demo_gate (Release Released 1 0 demo_gate)"
  by (rule gate_step.release) code_simp

theorem admit_accounting_witness:
  "queue demo_gate = [1, 2] \<and> InFlight (Some demo_gate) = 1 \<and>
   InFlight (Some demo_gate) = (\<Sum>i < arrivals demo_gate. held demo_gate i)"
proof -
  have "queue demo_gate = [1, 2]" "InFlight (Some demo_gate) = 1" by code_simp+
  with admit_accounting [OF demo_gate_reach] show ?thesis by simp
qed


theorem admit_bound_witness:
  "gate_step demo_gate (Release Released 1 0 demo_gate) \<and>
  inFlight (Release Released 1 0 demo_gate) \<le> max (inFlight demo_gate) (limit (Release Released 1 0 demo_gate))"
  using demo_release admit_bound [OF demo_gate_reach demo_release] by simp

theorem admit_fifo_witness:
  "held demo_gate 1 = 0 \<and> held (Release Released 1 0 demo_gate) 1 = 1 \<and>
   queue (Release Released 1 0 demo_gate) = [2] \<and> (1::nat) < 2"
proof -
  have h: "held demo_gate 1 = 0" "held (Release Released 1 0 demo_gate) 1 = 1" "queue (Release Released 1 0 demo_gate) = [2]"
    by code_simp+
  with admit_fifo [OF demo_gate_reach demo_release h(1), of 2] show ?thesis by simp
qed


theorem deriveDepth_exact_witness:
  "in64 (limit demo_gate) \<and> deriveDepth demo_gate = 32"
proof -
  have h: "in64 (limit demo_gate)" "1 \<le> limit demo_gate" "cfgDepth demo_gate = 0" "limit demo_gate = 1" by code_simp+
  with deriveDepth_exact [OF h(1,2)] show ?thesis by (simp add: MaxInt64_def)
qed


end
