(* ===== verification/Strconv.thy ===== *)
theory Strconv
  imports Utf8
begin

text \<open>
  The parts of Go's \<^verbatim>\<open>strconv\<close> and \<^verbatim>\<open>strings\<close> that several components call: integers
  in bases up to 36, white-space trimming and ASCII case folding.
\<close>

section \<open>Integers\<close>

definition digit_char :: "nat \<Rightarrow> char" where
  "digit_char d = (if d < 10 then char_of (48 + d) else char_of (87 + d))"

definition char_digit :: "char \<Rightarrow> nat option" where
  "char_digit c =
     (let b = byte c in
      if 48 \<le> b \<and> b \<le> 57 then Some (b - 48)
      else if 97 \<le> b \<and> b \<le> 122 then Some (b - 87)
      else if 65 \<le> b \<and> b \<le> 90 then Some (b - 55)
      else None)"

function format_nat :: "int \<Rightarrow> int \<Rightarrow> string" where
  "format_nat b n =
     (if n < b \<or> b < 2 then [digit_char (nat n)]
      else format_nat b (n div b) @ [digit_char (nat (n mod b))])"
  by pat_completeness auto
termination
  by (relation "measure (\<lambda>(b, n). nat n)") (auto simp: int_div_less_self)

declare format_nat.simps [simp del]

definition FormatInt :: "int \<Rightarrow> int \<Rightarrow> string" where
  "FormatInt n b = (if n < 0 then CHR ''-'' # format_nat b (- n) else format_nat b n)"

definition Itoa :: "int \<Rightarrow> string" where
  "Itoa n = FormatInt n 10"

fun parse_digits :: "int \<Rightarrow> int \<Rightarrow> string \<Rightarrow> int option" where
  "parse_digits b acc [] = Some acc"
| "parse_digits b acc (c # s) =
     (case char_digit c of
        None \<Rightarrow> None
      | Some d \<Rightarrow> if int d < b then parse_digits b (acc * b + int d) s else None)"

text \<open>\<^verbatim>\<open>ParseInt\<close> with an explicit base; \<open>None\<close> stands for a syntax or a range error.\<close>

definition ParseInt :: "string \<Rightarrow> int \<Rightarrow> nat \<Rightarrow> int option" where
  "ParseInt s b bits =
     (let neg = (s \<noteq> [] \<and> hd s = CHR ''-'');
          body = (if s \<noteq> [] \<and> (hd s = CHR ''-'' \<or> hd s = CHR ''+'') then tl s else s)
      in if body = [] then None
         else case parse_digits b 0 body of
                None \<Rightarrow> None
              | Some u \<Rightarrow>
                  (if \<not> neg \<and> u \<ge> 2 ^ (bits - 1) then None
                   else if neg \<and> u > 2 ^ (bits - 1) then None
                   else Some (if neg then - u else u)))"

lemma byte_digit_char: "d < 36 \<Longrightarrow> byte (digit_char d) = (if d < 10 then 48 + d else 87 + d)"
  by (simp add: digit_char_def byte_def)

lemma char_digit_digit_char: "d < 36 \<Longrightarrow> char_digit (digit_char d) = Some d"
  by (simp add: char_digit_def byte_digit_char Let_def)

lemma format_nat_not_Nil [simp]: "format_nat b n \<noteq> []"
  by (subst format_nat.simps) simp

lemma format_nat_small: "n < b \<Longrightarrow> format_nat b n = [digit_char (nat n)]"
  by (subst format_nat.simps) simp

lemma format_nat_large:
  "b \<le> n \<Longrightarrow> 2 \<le> b \<Longrightarrow> format_nat b n = format_nat b (n div b) @ [digit_char (nat (n mod b))]"
  by (subst format_nat.simps) simp

text \<open>Induction over the digits of a number.\<close>

lemma digits_induct [consumes 2, case_names small large]:
  fixes n :: int
  assumes "2 \<le> b" and "0 \<le> n"
    and "\<And>n. 0 \<le> n \<Longrightarrow> n < b \<Longrightarrow> P n"
    and "\<And>n. b \<le> n \<Longrightarrow> 0 \<le> n div b \<Longrightarrow> 0 \<le> n mod b \<Longrightarrow> n mod b < b \<Longrightarrow> P (n div b) \<Longrightarrow> P n"
  shows "P n"
  using assms(2)
proof (induction "nat n" arbitrary: n rule: less_induct)
  case less
  show ?case
  proof (cases "n < b")
    case True
    with less.prems show ?thesis by (rule assms(3))
  next
    case False
    have "n div b < n" "0 \<le> n div b"
      using False assms(1) less.prems by (auto simp: int_div_less_self pos_imp_zdiv_nonneg_iff)
    moreover from this have "P (n div b)" by (intro less.hyps) auto
    ultimately show ?thesis
      using False assms(1) by - (rule assms(4), simp_all)
  qed
qed

lemma parse_digits_append:
  "parse_digits b acc (s @ t) =
     (case parse_digits b acc s of None \<Rightarrow> None | Some a \<Rightarrow> parse_digits b a t)"
  by (induction s arbitrary: acc) (auto split: option.splits)

lemma parse_format_nat:
  assumes "2 \<le> b" and "b \<le> 36" and "0 \<le> n"
  shows "parse_digits b 0 (format_nat b n) = Some n"
  using assms(1,3)
proof (induction n rule: digits_induct)
  case (small n)
  with assms show ?case by (simp add: format_nat_small char_digit_digit_char nat_less_iff)
next
  case (large n)
  have "nat (n mod b) < 36" using large(4) assms(2) by linarith
  with large assms show ?case
    by (simp add: format_nat_large parse_digits_append char_digit_digit_char)
qed

text \<open>The digits of a formatted number are among the first \<open>b\<close> digit characters.\<close>

lemma format_nat_digits:
  assumes "2 \<le> b" and "0 \<le> n" and "c \<in> set (format_nat b n)"
  shows "\<exists>d < nat b. c = digit_char d"
  using assms
proof (induction n rule: digits_induct)
  case (small n)
  then have "nat n < nat b \<and> c = digit_char (nat n)" by (simp add: format_nat_small)
  then show ?case by blast
next
  case (large n)
  show ?case
  proof (cases "c \<in> set (format_nat b (n div b))")
    case True
    then show ?thesis by (rule large.IH)
  next
    case False
    then have "nat (n mod b) < nat b \<and> c = digit_char (nat (n mod b))"
      using large assms(1) by (simp add: format_nat_large)
    then show ?thesis by blast
  qed
qed

lemma format_nat_length: "2 \<le> b \<Longrightarrow> 0 \<le> n \<Longrightarrow> n < b ^ Suc k \<Longrightarrow> length (format_nat b n) \<le> Suc k"
proof (induction k arbitrary: n)
  case 0
  then show ?case by (simp add: format_nat_small)
next
  case (Suc k)
  show ?case
  proof (cases "n < b")
    case True
    then show ?thesis by (simp add: format_nat_small)
  next
    case False
    have "n div b * b \<le> n" using Suc.prems minus_mod_eq_div_mult [of n b] pos_mod_sign [of b n] by linarith
    also have "n < b ^ Suc k * b" using Suc.prems(3) by (simp add: mult.commute)
    finally have "n div b < b ^ Suc k"
      using Suc.prems(1) by (simp only: mult_less_cancel_right_pos)
    moreover have "0 \<le> n div b" using Suc.prems by (simp add: pos_imp_zdiv_nonneg_iff)
    ultimately show ?thesis
      using Suc False by (simp add: format_nat_large)
  qed
qed

lemma digit_char_not_sign: "d < 36 \<Longrightarrow> digit_char d \<noteq> CHR ''-'' \<and> digit_char d \<noteq> CHR ''+'' \<and> digit_char d \<noteq> CHR ''_''"
  using byte_digit_char [of d] by (auto simp: byte_def split: if_splits)

lemma format_nat_not_sign:
  assumes "2 \<le> b" and "b \<le> 36" and "0 \<le> n" and "c \<in> set (format_nat b n)"
  shows "c \<noteq> CHR ''-'' \<and> c \<noteq> CHR ''+'' \<and> c \<noteq> CHR ''_''"
proof -
  obtain d where "d < nat b" "c = digit_char d" using format_nat_digits [OF assms(1,3,4)] by blast
  moreover from this assms(2) have "d < 36" by linarith
  ultimately show ?thesis using digit_char_not_sign by simp
qed

lemma parse_digits_nonneg: "parse_digits b acc s = Some n \<Longrightarrow> 0 \<le> acc \<Longrightarrow> 0 \<le> b \<Longrightarrow> 0 \<le> n"
  by (induction b acc s rule: parse_digits.induct) (auto split: option.splits if_splits)

lemma ParseInt_range:
  assumes "ParseInt s b bits = Some n" and "0 \<le> b"
  shows "- (2 ^ (bits - 1)) \<le> n" and "n < 2 ^ (bits - 1)"
proof -
  obtain u t where u: "parse_digits b 0 t = Some u" "n = u \<and> u < 2 ^ (bits - 1) \<or> n = - u \<and> u \<le> 2 ^ (bits - 1)"
    using assms(1) by (fastforce simp: ParseInt_def Let_def split: option.splits if_splits)
  have "0 \<le> u" using parse_digits_nonneg [OF u(1)] assms(2) by simp
  moreover have "(0::int) < 2 ^ (bits - 1)" by simp
  ultimately show "- (2 ^ (bits - 1)) \<le> n" "n < 2 ^ (bits - 1)" using u(2) by linarith+
qed

lemma ParseInt_FormatInt:
  assumes "2 \<le> b" and "b \<le> 36" and "- (2 ^ (bits - 1)) \<le> n" and "n < 2 ^ (bits - 1)"
  shows "ParseInt (FormatInt n b) b bits = Some n"
proof -
  have "hd (format_nat b m) \<noteq> CHR ''-''" "hd (format_nat b m) \<noteq> CHR ''+''" if "0 \<le> m" for m
    using format_nat_not_sign [OF assms(1,2) that, of "hd (format_nat b m)"] by auto
  then show ?thesis
    using assms by (auto simp: ParseInt_def FormatInt_def Let_def parse_format_nat)
qed

section \<open>Trimming and case\<close>

text \<open>\<^verbatim>\<open>strings.TrimSpace\<close>: leading and trailing runes that are white space are cut.\<close>

definition space_piece :: "string \<Rightarrow> bool" where
  "space_piece p \<longleftrightarrow> is_space (fst (decode_rune p))"

definition TrimSpace :: "string \<Rightarrow> string" where
  "TrimSpace s = concat (rev (dropWhile space_piece (rev (dropWhile space_piece (runes s)))))"

text \<open>Lower case of the ASCII letters.\<close>

definition ascii_lower :: "char \<Rightarrow> char" where
  "ascii_lower c = (if 65 \<le> byte c \<and> byte c \<le> 90 then char_of (byte c + 32) else c)"

end
