(* ===== verification/Idgen.thy ===== *)
theory Idgen
  imports Strconv
begin

text \<open>
  \<^verbatim>\<open>internal/pkg/idgen\<close>: prefixed identifiers and lease identifiers.  The 32 hexadecimal
  digits of a fresh UUID come from the UUID library and are a parameter \<open>u\<close>.
\<close>

section \<open>Model\<close>

abbreviation Lease :: string where "Lease \<equiv> ''lse''"
abbreviation (input) hexLen :: nat where "hexLen \<equiv> 32"

definition lower_hex_char :: "char \<Rightarrow> bool" where
  "lower_hex_char c \<longleftrightarrow> (48 \<le> byte c \<and> byte c \<le> 57) \<or> (97 \<le> byte c \<and> byte c \<le> 102)"

definition isLowerHex :: "string \<Rightarrow> bool" where
  "isLowerHex s = list_all lower_hex_char s"

definition New :: "string \<Rightarrow> string \<Rightarrow> string" where
  "New u pre = pre @ ''_'' @ u"

definition Valid :: "string \<Rightarrow> string \<Rightarrow> bool" where
  "Valid i pre =
     (if \<not> has_prefix i (pre @ ''_'') then False
      else let rest = drop (length pre + 1) i in length rest = hexLen \<and> isLowerHex rest)"

text \<open>\<^verbatim>\<open>Time\<close>, as the number of milliseconds.\<close>

definition hex_bytes_value :: "string \<Rightarrow> int" where
  "hex_bytes_value h = foldl (\<lambda>a c. a * 16 + int (the (char_digit c))) 0 h"

definition Time :: "string \<Rightarrow> int option" where
  "Time i =
     (case index_byte (CHR ''_'') i of
        None \<Rightarrow> None
      | Some k \<Rightarrow>
          (if length i < k + 1 + hexLen then None
           else let h = take hexLen (drop (k + 1) i) in
                if \<not> isLowerHex h then None else Some (hex_bytes_value (take 12 h))))"

record LeaseRef =
  SiteKey :: int
  Shard :: int

definition LeasePrefix :: "string \<Rightarrow> int \<Rightarrow> string" where
  "LeasePrefix u siteKey = Lease @ ''_'' @ u @ ''_'' @ FormatInt siteKey 36 @ ''_''"

text \<open>The verb \<^verbatim>\<open>%02x\<close>.\<close>

definition FormatShard :: "int \<Rightarrow> string" where
  "FormatShard n =
     (let d = format_nat 16 \<bar>n\<bar> in
      if n < 0 then CHR ''-'' # d else if length d < 2 then CHR ''0'' # d else d)"

definition ParseLeaseID :: "string \<Rightarrow> LeaseRef option" where
  "ParseLeaseID i =
     (if length i < length Lease + 1 + hexLen + 1 + 1 + 1 + 2 \<or> \<not> has_prefix i (Lease @ ''_'') then None
      else
        (let parts = split_byte (CHR ''_'') (drop (length Lease + 1) i) in
         if length parts \<noteq> 3 \<or> length (parts ! 0) \<noteq> hexLen \<or> \<not> isLowerHex (parts ! 0) \<or>
            length (parts ! 2) \<noteq> 2 \<or> \<not> isLowerHex (parts ! 2) then None
         else if parts ! 1 = '''' \<or> length (parts ! 1) > 13 then None
         else
           (case ParseInt (parts ! 1) 36 64 of
              None \<Rightarrow> None
            | Some siteKey \<Rightarrow>
                (if siteKey \<le> 0 \<or> FormatInt siteKey 36 \<noteq> parts ! 1 then None
                 else
                   (case ParseInt (parts ! 2) 16 32 of
                      None \<Rightarrow> None
                    | Some shard \<Rightarrow> Some \<lparr>SiteKey = siteKey, Shard = shard\<rparr>)))))"

definition report_id_char :: "char \<Rightarrow> bool" where
  "report_id_char c \<longleftrightarrow>
     (let b = byte c in
      97 \<le> b \<and> b \<le> 122 \<or> 65 \<le> b \<and> b \<le> 90 \<or> 48 \<le> b \<and> b \<le> 57 \<or>
      c = CHR ''_'' \<or> c = CHR ''.'' \<or> c = CHR '':'' \<or> c = CHR ''-'')"

definition ValidReportID :: "string \<Rightarrow> bool" where
  "ValidReportID i = (if length i = 0 \<or> length i > 64 then False else list_all report_id_char i)"

section \<open>Lease identifiers\<close>

lemma lower_hex_digit: "lower_hex_char c \<longleftrightarrow> (\<exists>d < 16. c = digit_char d)"
proof
  assume c: "lower_hex_char c"
  let ?d = "if byte c \<le> 57 then byte c - 48 else byte c - 87"
  have "?d < 16" "c = digit_char ?d"
    using c by (auto simp: lower_hex_char_def digit_char_def byte_def)
  then show "\<exists>d < 16. c = digit_char d" by blast
next
  assume "\<exists>d < 16. c = digit_char d"
  then show "lower_hex_char c"
    by (auto simp: lower_hex_char_def byte_digit_char split: if_splits)
qed

lemma isLowerHex_no_sep: "isLowerHex s \<Longrightarrow> CHR ''_'' \<notin> set s"
  by (auto simp: isLowerHex_def list_all_iff lower_hex_char_def byte_def)

text \<open>Two hexadecimal digits and the shard they stand for.\<close>

lemma FormatShard_digits:
  assumes "a < 16" and "b < 16"
  shows "FormatShard (int (a * 16 + b)) = [digit_char a, digit_char b]"
proof (cases "a = 0")
  case True
  have "digit_char 0 = CHR ''0''" by code_simp
  with True assms show ?thesis by (simp add: FormatShard_def format_nat_small)
next
  case False
  have "\<not> int a * 16 + int b < 0" "16 \<le> int a * 16 + int b" using False by linarith+
  then show ?thesis
    using False assms
    by (simp add: FormatShard_def Let_def format_nat_large format_nat_small)
qed

lemma ParseInt_two_hex:
  assumes "a < 16" and "b < 16"
  shows "ParseInt [digit_char a, digit_char b] 16 32 = Some (int (a * 16 + b))"
proof -
  have "digit_char a \<noteq> CHR ''-''" "digit_char a \<noteq> CHR ''+''" using digit_char_not_sign [of a] assms by auto
  moreover have "int (a * 16 + b) < 2 ^ 31" using assms by simp
  ultimately show ?thesis
    using assms by (simp add: ParseInt_def Let_def char_digit_digit_char)
qed

lemma shard_digits:
  assumes "0 \<le> n" and "n < 256"
  obtains a b where "a < 16" "b < 16" "n = int (a * 16 + b)"
proof
  show "nat n div 16 < 16" "nat n mod 16 < 16" "n = int (nat n div 16 * 16 + nat n mod 16)"
    using assms by auto
qed

lemma two_hex:
  assumes "length s = 2" and "isLowerHex s"
  obtains a b where "a < 16" "b < 16" "s = [digit_char a, digit_char b]"
  using assms by (auto simp: isLowerHex_def lower_hex_digit numeral_2_eq_2 length_Suc_conv)

lemma FormatInt_pos:
  assumes "0 < n"
  shows "CHR ''_'' \<notin> set (FormatInt n 36)" and "FormatInt n 36 \<noteq> ''''"
  using assms format_nat_not_sign [of 36 n "CHR ''_''"] by (auto simp: FormatInt_def)

lemma FormatInt_length:
  assumes "0 < n" and "n \<le> MaxInt64"
  shows "length (FormatInt n 36) \<le> 13"
proof -
  have "n < 36 ^ Suc 12" using assms by (simp add: MaxInt64_def)
  then show ?thesis using assms format_nat_length [of 36 n 12] by (simp add: FormatInt_def)
qed

lemma lease_offset: "length Lease + 1 = 4"
  by simp

lemma ParseLeaseID_format:
  assumes "length u = hexLen" and "isLowerHex u" and "0 < k" and "k \<le> MaxInt64" and "0 \<le> n" and "n < 256"
  shows "ParseLeaseID (LeasePrefix u k @ FormatShard n) = Some \<lparr>SiteKey = k, Shard = n\<rparr>"
proof -
  obtain a b where ab: "a < 16" "b < 16" "n = int (a * 16 + b)" using shard_digits assms by blast
  let ?s = "FormatShard n"
  have s: "?s = [digit_char a, digit_char b]" using ab FormatShard_digits by simp
  have hex: "isLowerHex ?s" unfolding s using ab by (auto simp: isLowerHex_def lower_hex_digit)
  have "drop 4 (LeasePrefix u k @ ?s) = u @ CHR ''_'' # FormatInt k 36 @ CHR ''_'' # ?s"
    by (simp add: LeasePrefix_def)
  then have parts: "split_byte (CHR ''_'') (drop 4 (LeasePrefix u k @ ?s)) = [u, FormatInt k 36, ?s]"
    using isLowerHex_no_sep [OF assms(2)] isLowerHex_no_sep [OF hex] FormatInt_pos(1) [OF assms(3)]
    by (simp add: split_byte_append split_byte_no_sep)
  have len: "39 + 2 \<le> length (LeasePrefix u k @ ?s)"
    using assms(1) FormatInt_pos(2) [OF assms(3)] s by (cases "FormatInt k 36") (auto simp: LeasePrefix_def)
  have "ParseInt (FormatInt k 36) 36 64 = Some k"
    using assms by (intro ParseInt_FormatInt) (auto simp: MaxInt64_def)
  moreover have "ParseInt ?s 16 32 = Some n"
    unfolding s using ParseInt_two_hex ab by simp
  moreover have "has_prefix (LeasePrefix u k @ ?s) (Lease @ ''_'')"
    by (simp add: LeasePrefix_def)
  ultimately show ?thesis
    using parts len assms hex s FormatInt_length [of k] FormatInt_pos(2) [OF assms(3)]
    unfolding ParseLeaseID_def lease_offset by (simp add: Let_def)
qed

lemma ParseLeaseID_sound:
  assumes "ParseLeaseID i = Some r"
  shows "\<exists>u. length u = hexLen \<and> isLowerHex u \<and> i = LeasePrefix u (SiteKey r) @ FormatShard (Shard r) \<and>
    0 < SiteKey r \<and> SiteKey r \<le> MaxInt64 \<and> 0 \<le> Shard r \<and> Shard r < 256"
proof -
  let ?parts = "split_byte (CHR ''_'') (drop 4 i)"
  have pre: "has_prefix i ''lse_''" and len: "length ?parts = 3"
    and p0: "length (?parts ! 0) = hexLen" "isLowerHex (?parts ! 0)"
    and p2: "length (?parts ! 2) = 2" "isLowerHex (?parts ! 2)"
    and key: "ParseInt (?parts ! 1) 36 64 = Some (SiteKey r)" "0 < SiteKey r" "FormatInt (SiteKey r) 36 = ?parts ! 1"
    and shard: "ParseInt (?parts ! 2) 16 32 = Some (Shard r)"
    using assms unfolding ParseLeaseID_def lease_offset by (auto simp: Let_def split: if_splits option.splits)
  obtain u v w where parts: "?parts = [u, v, w]"
    using len by (auto simp: numeral_3_eq_3 length_Suc_conv)
  have "drop 4 i = join ''_'' [u, v, w]"
    using join_split_byte [of "CHR ''_''" "drop 4 i"] parts by simp
  then have i: "i = ''lse_'' @ u @ ''_'' @ v @ ''_'' @ w"
    using pre by (auto simp: prefix_def)
  obtain a b where ab: "a < 16" "b < 16" "w = [digit_char a, digit_char b]"
    using two_hex [of w] p2 parts by auto
  then have sh: "Shard r = int (a * 16 + b)"
    using shard parts ParseInt_two_hex by simp
  then have "FormatShard (Shard r) = w" using FormatShard_digits ab by simp
  moreover have "SiteKey r \<le> MaxInt64"
    using ParseInt_range(2) [OF key(1)] by (simp add: MaxInt64_def)
  ultimately show ?thesis
    using i parts p0 key sh ab by (intro exI [of _ u]) (simp add: LeasePrefix_def)
qed

text \<open>
  C35. Lease identifiers are a canonical encoding: \<^verbatim>\<open>ParseLeaseID\<close> accepts exactly the
  strings built from 32 lower-case hexadecimal digits, a positive site key and a shard below 256,
  and returns that site key and shard.
\<close>

theorem ParseLeaseID_iff:
  "ParseLeaseID i = Some r \<longleftrightarrow>
     (\<exists>u. length u = hexLen \<and> isLowerHex u \<and> i = LeasePrefix u (SiteKey r) @ FormatShard (Shard r) \<and>
        0 < SiteKey r \<and> SiteKey r \<le> MaxInt64 \<and> 0 \<le> Shard r \<and> Shard r < 256)"
  using ParseLeaseID_format ParseLeaseID_sound by fastforce

end
