(* ===== verification/Float64.thy ===== *)
theory Float64
  imports Prelude Complex_Main "HOL-Library.Log_Nat"
begin

text \<open>
  The binary64 arithmetic of Go's \<^verbatim>\<open>float64\<close>, as far as the sources use it: a value is a NaN,
  an infinity or a rational number, and every operation rounds its exact result to nearest, ties
  to even, with 53 bits and the exponent range of the format.  The two zeros are one value (the
  sources never divide by a computed zero or look at its sign), and multiplications and additions
  are not fused.
\<close>

section \<open>Rounding to nearest\<close>

text \<open>
  \<open>elog x\<close> is the binary exponent of \<open>x\<close>, \<open>quantum x\<close> the exponent of the spacing around it.
\<close>

abbreviation pow2 :: "int \<Rightarrow> rat" where "pow2 e \<equiv> 2 powi e"

definition elog :: "rat \<Rightarrow> int" where
  "elog x = (let (n, d) = quotient_of x; e = bitlen n - bitlen d in
             if pow2 e \<le> x then e else e - 1)"

definition round_int :: "rat \<Rightarrow> int" where
  "round_int x = (let f = \<lfloor>x\<rfloor>; r = x - of_int f in
     if r < 1 / 2 then f else if r > 1 / 2 then f + 1 else if even f then f else f + 1)"

definition quantum :: "rat \<Rightarrow> int" where
  "quantum x = max (elog \<bar>x\<bar> - 52) (- 1074)"

definition round_rat :: "rat \<Rightarrow> rat" where
  "round_rat x = (if x = 0 then 0 else of_int (round_int (x / pow2 (quantum x))) * pow2 (quantum x))"

definition representable :: "rat \<Rightarrow> bool" where
  "representable x \<longleftrightarrow> (\<exists>m e. x = of_int m * pow2 e \<and> \<bar>m\<bar> \<le> 2 ^ 53 \<and> - 1074 \<le> e)"

lemma pow2_pos [simp]: "0 < pow2 e"
  by simp

lemma pow2_le_iff [simp]: "pow2 a \<le> pow2 b \<longleftrightarrow> a \<le> b"
  by (meson not_less one_less_numeral_iff power_int_increasing power_int_strict_increasing
      semiring_norm(76) one_le_numeral zero_less_numeral linorder_not_le)

lemma pow2_less_iff [simp]: "pow2 a < pow2 b \<longleftrightarrow> a < b"
  by (simp add: not_le [symmetric] del: not_le)

lemma pow2_add: "pow2 (a + b) = pow2 a * pow2 b"
  by (simp add: power_int_add)

lemma pow2_nat: "0 \<le> e \<Longrightarrow> pow2 e = of_int (2 ^ nat e)"
  by (simp add: power_int_nonneg_exp)

lemma bitlen_pow2_bounds:
  assumes "0 < n"
  shows "pow2 (bitlen n - 1) \<le> of_int n" and "of_int n < pow2 (bitlen n)"
proof -
  have b: "2 ^ nat (bitlen n - 1) \<le> n" "n < 2 ^ nat (bitlen n)"
    using bitlen_bounds [OF assms] by auto
  have p: "1 \<le> bitlen n"
    using assms bitlen_nonneg [of n] bitlen_eq_zero_iff [of n] by linarith
  show "pow2 (bitlen n - 1) \<le> of_int n"
    using b(1) p by (simp add: pow2_nat)
  show "of_int n < pow2 (bitlen n)"
    using b(2) p by (simp add: pow2_nat)
qed

lemma elog_bounds:
  assumes "0 < x"
  shows "pow2 (elog x) \<le> x" and "x < pow2 (elog x + 1)"
proof -
  obtain n d where q: "quotient_of x = (n, d)" by force
  have d: "0 < d" and x: "x = of_int n / of_int d"
    using quotient_of_denom_pos [OF q] quotient_of_div [OF q] by auto
  have n: "0 < n" using assms x d by (simp add: zero_less_divide_iff)
  let ?e = "bitlen n - bitlen d"
  note bn = bitlen_pow2_bounds [OF n] and bd = bitlen_pow2_bounds [OF d]
  have "pow2 (?e - 1) * of_int d \<le> pow2 (?e - 1) * pow2 (bitlen d)"
    using bd by (intro mult_left_mono) auto
  also have "\<dots> = pow2 (bitlen n - 1)" by (simp add: pow2_add [symmetric])
  finally have lo: "pow2 (?e - 1) \<le> x"
    using bn d by (simp add: x field_simps)
  have "of_int n < pow2 (bitlen n)" by (rule bn)
  also have "\<dots> = pow2 (?e + 1) * pow2 (bitlen d - 1)" by (simp add: pow2_add [symmetric])
  also have "\<dots> \<le> pow2 (?e + 1) * of_int d"
    using bd by (intro mult_left_mono) auto
  finally have hi: "x < pow2 (?e + 1)"
    using d by (simp add: x field_simps)
  show "pow2 (elog x) \<le> x" "x < pow2 (elog x + 1)"
    using lo hi by (auto simp: elog_def q Let_def)
qed

lemma elog_le: "0 < x \<Longrightarrow> x \<le> y \<Longrightarrow> elog x \<le> elog y"
proof -
  assume a: "0 < x" "x \<le> y"
  then have "pow2 (elog x) < pow2 (elog y + 1)"
    using elog_bounds(1) [of x] elog_bounds(2) [of y] by linarith
  then show ?thesis by simp
qed

lemma round_int_mono: "x \<le> y \<Longrightarrow> round_int x \<le> round_int y"
proof -
  assume "x \<le> y"
  then have f: "\<lfloor>x\<rfloor> \<le> \<lfloor>y\<rfloor>" by (rule floor_mono)
  show ?thesis
  proof (cases "\<lfloor>x\<rfloor> = \<lfloor>y\<rfloor>")
    case True
    with \<open>x \<le> y\<close> show ?thesis by (auto simp: round_int_def Let_def)
  next
    case False
    with f have "\<lfloor>x\<rfloor> + 1 \<le> \<lfloor>y\<rfloor>" by simp
    moreover have "round_int x \<le> \<lfloor>x\<rfloor> + 1" "\<lfloor>y\<rfloor> \<le> round_int y"
      by (auto simp: round_int_def Let_def)
    ultimately show ?thesis by linarith
  qed
qed

lemma round_int_of_int [simp]: "round_int (of_int n) = n"
  by (simp add: round_int_def)

lemma round_int_minus: "round_int (- x) = - round_int x"
proof (cases "x = of_int \<lfloor>x\<rfloor>")
  case True
  then show ?thesis by (metis of_int_minus round_int_of_int)
next
  case False
  have "of_int \<lfloor>x\<rfloor> < x" using False of_int_floor_le [of x] by linarith
  then have "\<lfloor>- x\<rfloor> = - \<lfloor>x\<rfloor> - 1"
    by (intro floor_unique) (simp_all, linarith)
  then show ?thesis
    by (auto simp: round_int_def Let_def)
qed

lemma quantum_minus [simp]: "quantum (- x) = quantum x"
  by (simp add: quantum_def)

lemma round_rat_minus [simp]: "round_rat (- x) = - round_rat x"
  by (simp add: round_rat_def round_int_minus)

lemma round_rat_0 [simp]: "round_rat 0 = 0"
  by (simp add: round_rat_def)

lemma quantum_mono: "0 < x \<Longrightarrow> x \<le> y \<Longrightarrow> quantum x \<le> quantum y"
  using elog_le [of x y] by (auto simp: quantum_def)

lemma round_rat_nonneg: "0 \<le> x \<Longrightarrow> 0 \<le> round_rat x"
  using round_int_mono [of 0 "x / pow2 (quantum x)"] round_int_of_int [of 0]
  by (simp add: round_rat_def)

lemma round_rat_pos_mono:
  assumes "0 < x" and "x \<le> y"
  shows "round_rat x \<le> round_rat y"
proof (cases "quantum x = quantum y")
  case True
  have "x / pow2 (quantum y) \<le> y / pow2 (quantum y)"
    using assms by (simp add: divide_right_mono)
  from round_int_mono [OF this] True assms show ?thesis
    by (simp add: round_rat_def)
next
  case False
  let ?p = "quantum x" and ?q = "quantum y" and ?e = "elog y"
  have lt: "?p < ?q" using quantum_mono [OF assms] False by simp
  then have q: "?q = ?e - 52" using assms by (auto simp: quantum_def)
  have "elog x < ?e" using lt q assms by (auto simp: quantum_def)
  then have "x < pow2 ?e"
    using elog_bounds(2) [OF assms(1)] pow2_le_iff [of "elog x + 1" ?e] by linarith
  moreover have "pow2 ?e = pow2 (?e - ?p) * pow2 ?p" by (simp add: pow2_add [symmetric])
  ultimately have "x / pow2 ?p \<le> of_int (2 ^ nat (?e - ?p))"
    using lt q by (simp add: power_int_nonneg_exp divide_le_eq)
  from round_int_mono [OF this] have "round_int (x / pow2 ?p) \<le> 2 ^ nat (?e - ?p)"
    by (metis round_int_of_int)
  then have "of_int (round_int (x / pow2 ?p)) * pow2 ?p \<le> pow2 (?e - ?p) * pow2 ?p"
    using lt q by (intro mult_right_mono) (auto simp: pow2_nat)
  then have up: "round_rat x \<le> pow2 ?e"
    using assms by (simp add: round_rat_def pow2_add [symmetric])
  have eq: "pow2 ?e = of_int (2 ^ 52) * pow2 ?q" by (simp add: q power_int_diff)
  then have "of_int (2 ^ 52) \<le> y / pow2 ?q"
    using elog_bounds(1) [of y] assms by (simp add: le_divide_eq)
  from round_int_mono [OF this] have "2 ^ 52 \<le> round_int (y / pow2 ?q)"
    by (metis round_int_of_int)
  then have "of_int (2 ^ 52) * pow2 ?q \<le> of_int (round_int (y / pow2 ?q)) * pow2 ?q"
    by (intro mult_right_mono) (auto simp del: of_int_power)
  then have "pow2 ?e \<le> round_rat y"
    using assms eq by (simp add: round_rat_def)
  with up show ?thesis by linarith
qed

lemma round_rat_mono: "x \<le> y \<Longrightarrow> round_rat x \<le> round_rat y"
proof -
  assume le: "x \<le> y"
  consider "0 < x" | "x \<le> 0" "0 \<le> y" | "y < 0" using le by linarith
  then show ?thesis
  proof cases
    case 1
    then show ?thesis using le by (rule round_rat_pos_mono)
  next
    case 2
    then show ?thesis using round_rat_nonneg [of y] round_rat_nonneg [of "- x"] by simp
  next
    case 3
    then show ?thesis using round_rat_pos_mono [of "- y" "- x"] le by simp
  qed
qed

lemma round_rat_representable:
  assumes "representable x"
  shows "round_rat x = x"
proof (cases "x = 0")
  case False
  obtain m e where x: "x = of_int m * pow2 e" and m: "\<bar>m\<bar> \<le> 2 ^ 53" and e: "- 1074 \<le> e"
    using assms by (auto simp: representable_def)
  have ax: "\<bar>x\<bar> = of_int \<bar>m\<bar> * pow2 e" by (simp add: x abs_mult)
  have "pow2 (elog \<bar>x\<bar>) \<le> \<bar>x\<bar>" using False by (intro elog_bounds) simp
  also have "\<dots> \<le> of_int (2 ^ 53) * pow2 e"
    unfolding ax using m by (intro mult_right_mono) (auto simp del: of_int_power)
  also have "\<dots> = pow2 (53 + e)" by (simp add: pow2_add)
  finally have el: "elog \<bar>x\<bar> \<le> 53 + e" by simp
  show ?thesis
  proof (cases "quantum x \<le> e")
    case True
    then have "x / pow2 (quantum x) = of_int (m * 2 ^ nat (e - quantum x))"
      by (simp add: x power_int_diff pow2_nat [symmetric] power_int_nonneg_exp [symmetric])
    then have "round_rat x = of_int (m * 2 ^ nat (e - quantum x)) * pow2 (quantum x)"
      using False by (simp only: round_rat_def round_int_of_int if_False)
    also have "\<dots> = of_int m * (pow2 (e - quantum x) * pow2 (quantum x))"
      using True by (simp add: power_int_nonneg_exp)
    finally show ?thesis by (simp add: x pow2_add [symmetric])
  next
    case False
    then have "quantum x = e + 1" "elog \<bar>x\<bar> = 53 + e" using el e by (auto simp: quantum_def)
    then have "pow2 (53 + e) \<le> of_int \<bar>m\<bar> * pow2 e"
      using elog_bounds(1) [of "\<bar>x\<bar>"] ax \<open>x \<noteq> 0\<close> by simp
    then have "of_int (2 ^ 53) * pow2 e \<le> of_int \<bar>m\<bar> * pow2 e" by (simp add: pow2_add)
    then have "(of_int (2 ^ 53) :: rat) \<le> of_int \<bar>m\<bar>" by (simp del: of_int_power)
    then have "\<bar>m\<bar> = 2 ^ 53" using m by (simp only: of_int_le_iff)
    then have "even \<bar>m\<bar>" by simp
    then obtain k where "m = 2 * k" by (auto elim: evenE)
    then have "x / pow2 (quantum x) = of_int k"
      using \<open>quantum x = e + 1\<close> by (simp add: x pow2_add)
    then have "round_rat x = of_int k * pow2 (quantum x)"
      using \<open>x \<noteq> 0\<close> by (simp only: round_rat_def round_int_of_int if_False)
    then show ?thesis using \<open>m = 2 * k\<close> \<open>quantum x = e + 1\<close> by (simp add: x pow2_add)
  qed
qed simp

lemma representable_round: "representable (round_rat x)"
proof (cases "x = 0")
  case True
  then show ?thesis unfolding representable_def by (intro exI [of _ 0]) simp
next
  case False
  let ?q = "quantum x" and ?e = "elog \<bar>x\<bar>"
  have "\<bar>x\<bar> < pow2 (?e + 1)" using elog_bounds(2) [of "\<bar>x\<bar>"] False by simp
  also have "\<dots> \<le> pow2 (53 + ?q)" by (simp add: quantum_def)
  also have "\<dots> = of_int (2 ^ 53) * pow2 ?q" by (simp add: pow2_add)
  finally have "\<bar>x\<bar> / pow2 ?q \<le> of_int (2 ^ 53)" by (simp add: divide_le_eq del: of_int_power)
  then have le: "x / pow2 ?q \<le> of_int (2 ^ 53)" "of_int (- (2 ^ 53)) \<le> x / pow2 ?q"
    by (auto simp: abs_le_iff field_simps)
  have "round_int (x / pow2 ?q) \<le> 2 ^ 53" "- (2 ^ 53) \<le> round_int (x / pow2 ?q)"
    using round_int_mono [OF le(1)] round_int_mono [OF le(2)] by (simp_all only: round_int_of_int)
  then have "\<bar>round_int (x / pow2 ?q)\<bar> \<le> 2 ^ 53" by (simp add: abs_le_iff)
  moreover have "- 1074 \<le> ?q" by (simp add: quantum_def)
  ultimately show ?thesis
    using False by (auto simp: representable_def round_rat_def)
qed

section \<open>The contract of a rounding\<close>

text \<open>What arithmetic in floating point relies on: rounding is monotone and keeps what is representable.\<close>

locale rounding =
  fixes rnd :: "rat \<Rightarrow> rat"
    and rep :: "rat \<Rightarrow> bool"
  assumes mono: "x \<le> y \<Longrightarrow> rnd x \<le> rnd y"
    and exact: "rep x \<Longrightarrow> rnd x = x"
    and closed: "rep (rnd x)"
begin

lemma ge: "rep v \<Longrightarrow> v \<le> x \<Longrightarrow> v \<le> rnd x"
  using mono [of v x] exact by simp

lemma le: "rep v \<Longrightarrow> x \<le> v \<Longrightarrow> rnd x \<le> v"
  using mono [of x v] exact by simp

text \<open>A rounded value on one side of a representable bound came from that side.\<close>

lemma less_imp: "rep v \<Longrightarrow> rnd x < v \<Longrightarrow> x < v"
  using ge [of v x] by linarith

end

interpretation ieee: rounding round_rat representable
  by unfold_locales (auto intro: round_rat_mono round_rat_representable representable_round)

lemma representable_int: "\<bar>n\<bar> \<le> 2 ^ 53 \<Longrightarrow> representable (of_int n)"
  unfolding representable_def by (rule exI [of _ n], rule exI [of _ 0]) simp

lemma representable_pow2: "- 1074 \<le> e \<Longrightarrow> representable (pow2 e)"
  unfolding representable_def by (rule exI [of _ 1], rule exI [of _ e]) simp

section \<open>Values and operations\<close>

datatype f64 = NaN | Inf bool | Fin rat

definition to_f64 :: "rat \<Rightarrow> f64" where
  "to_f64 x = (let r = round_rat x in
     if 2 ^ 1024 \<le> r then Inf True else if r \<le> - (2 ^ 1024) then Inf False else Fin r)"

definition of_int64 :: "int \<Rightarrow> f64" where
  "of_int64 n = to_f64 (of_int n)"

fun f_mul :: "f64 \<Rightarrow> f64 \<Rightarrow> f64" where
  "f_mul (Fin x) (Fin y) = to_f64 (x * y)"
| "f_mul (Inf s) (Inf t) = Inf (s = t)"
| "f_mul (Inf s) (Fin y) = (if y = 0 then NaN else Inf (s = (0 < y)))"
| "f_mul (Fin x) (Inf t) = (if x = 0 then NaN else Inf ((0 < x) = t))"
| "f_mul _ _ = NaN"

fun f_add :: "f64 \<Rightarrow> f64 \<Rightarrow> f64" where
  "f_add (Fin x) (Fin y) = to_f64 (x + y)"
| "f_add (Inf s) (Inf t) = (if s = t then Inf s else NaN)"
| "f_add (Inf s) (Fin y) = Inf s"
| "f_add (Fin x) (Inf t) = Inf t"
| "f_add _ _ = NaN"

fun f_div :: "f64 \<Rightarrow> f64 \<Rightarrow> f64" where
  "f_div (Fin x) (Fin y) =
     (if y = 0 then (if x = 0 then NaN else Inf (0 < x)) else to_f64 (x / y))"
| "f_div (Inf s) (Fin y) = Inf (s = (0 \<le> y))"
| "f_div (Fin x) (Inf t) = Fin 0"
| "f_div _ _ = NaN"

text \<open>Comparisons: every one of them is false on a NaN.\<close>

fun f_le :: "f64 \<Rightarrow> f64 \<Rightarrow> bool" where
  "f_le (Fin x) (Fin y) = (x \<le> y)"
| "f_le (Inf s) (Inf t) = (t \<or> \<not> s)"
| "f_le (Inf s) (Fin y) = (\<not> s)"
| "f_le (Fin x) (Inf t) = t"
| "f_le _ _ = False"

fun f_lt :: "f64 \<Rightarrow> f64 \<Rightarrow> bool" where
  "f_lt (Fin x) (Fin y) = (x < y)"
| "f_lt (Inf s) (Inf t) = (\<not> s \<and> t)"
| "f_lt (Inf s) (Fin y) = (\<not> s)"
| "f_lt (Fin x) (Inf t) = t"
| "f_lt _ _ = False"

definition f_eq :: "f64 \<Rightarrow> f64 \<Rightarrow> bool" where
  "f_eq x y \<longleftrightarrow> f_le x y \<and> f_le y x"

text \<open>\<^verbatim>\<open>math.Round\<close>: half away from zero, exact on every finite value.\<close>

fun f_round :: "f64 \<Rightarrow> f64" where
  "f_round (Fin x) = Fin (of_int (if 0 \<le> x then \<lfloor>x + 1 / 2\<rfloor> else \<lceil>x - 1 / 2\<rceil>))"
| "f_round y = y"

text \<open>
  The conversion \<^verbatim>\<open>int64(f)\<close> truncates.  Out of range its result depends on the machine; the
  value of amd64 is taken here, and no theorem depends on it.
\<close>

fun to_int64 :: "f64 \<Rightarrow> int" where
  "to_int64 (Fin x) = (let n = (if 0 \<le> x then \<lfloor>x\<rfloor> else \<lceil>x\<rceil>) in if in64 n then n else MinInt64)"
| "to_int64 _ = MinInt64"

lemma of_int64_exact: "\<bar>n\<bar> \<le> 2 ^ 53 \<Longrightarrow> of_int64 n = Fin (of_int n)"
proof -
  assume n: "\<bar>n\<bar> \<le> 2 ^ 53"
  then have "(of_int n :: rat) \<le> of_int (2 ^ 53)" "of_int (- (2 ^ 53)) \<le> (of_int n :: rat)"
    by (simp_all only: of_int_le_iff abs_le_iff) linarith
  then show ?thesis
    by (simp add: of_int64_def to_f64_def Let_def ieee.exact representable_int [OF n])
qed

section \<open>Rounding of non-negative values\<close>

lemma elog_unique: "0 < x \<Longrightarrow> pow2 e \<le> x \<Longrightarrow> x < pow2 (e + 1) \<Longrightarrow> elog x = e"
  using elog_bounds [of x] pow2_less_iff [of e "elog x + 1"] pow2_less_iff [of "elog x" "e + 1"]
  by linarith

lemma to_f64_nonneg: "0 \<le> x \<Longrightarrow> to_f64 x = (if 2 ^ 1024 \<le> round_rat x then Inf True else Fin (round_rat x))"
  using round_rat_nonneg [of x] by (auto simp: to_f64_def Let_def intro: order.antisym)

lemma to_f64_ge: "representable v \<Longrightarrow> 0 \<le> v \<Longrightarrow> v \<le> x \<Longrightarrow> f_le (Fin v) (to_f64 x)"
  using ieee.ge [of v x] by (simp add: to_f64_nonneg)

lemma to_f64_le:
  assumes "representable v" "0 \<le> x" "x \<le> v" "v < 2 ^ 1024"
  shows "to_f64 x = Fin (round_rat x)" and "0 \<le> round_rat x" and "round_rat x \<le> v"
  using ieee.le [OF assms(1,3)] assms(2,4) round_rat_nonneg [of x] by (simp_all add: to_f64_nonneg)

lemma f_le_cases:
  assumes "f_le (Fin v) x"
  obtains (fin) q where "x = Fin q" "v \<le> q" | (inf) "x = Inf True"
  using assms by (cases x) auto

lemma f_mul_ge:
  assumes "f_le (Fin a) x" and "f_le (Fin b) y" and "0 < a" "0 < b" and "representable (a * b)"
  shows "f_le (Fin (a * b)) (f_mul x y)"
proof -
  have *: "to_f64 (p * q) = to_f64 (p * q) \<and> f_le (Fin (a * b)) (to_f64 (p * q))" if "a \<le> p" "b \<le> q" for p q
    using that assms(3-5) mult_mono [of a p b q] by (simp add: to_f64_ge)
  show ?thesis
    using assms(1,2)
    by (elim f_le_cases) (use * assms(3,4) in auto)
qed

lemma representable_1: "representable 1"
  using representable_int [of 1] by simp

lemma representable_half: "representable (1 / 2)" "representable (1 / 4)"
  using representable_pow2 [of "- 1"] representable_pow2 [of "- 2"]
  by (simp_all add: power_int_minus field_simps)

end
