(* ===== verification/Durationx.thy ===== *)
theory Durationx
  imports Strconv Float64 Apperr
begin

text \<open>
  \<^verbatim>\<open>internal/pkg/durationx\<close>: durations with a day unit and the keyword \<open>permanent\<close>, in
  nanoseconds as a 64-bit integer, with the parts of Go's \<^verbatim>\<open>time\<close> package they are parsed and
  printed with.  The decoders for JSON and YAML are not modelled beyond the conversion of an
  integer number of milliseconds.
\<close>

section \<open>time.Duration\<close>

abbreviation (input) Nanosecond :: int where "Nanosecond \<equiv> 1"
abbreviation (input) Microsecond :: int where "Microsecond \<equiv> 1000"
abbreviation (input) Millisecond :: int where "Millisecond \<equiv> 1000000"
abbreviation (input) Second :: int where "Second \<equiv> 1000000000"
abbreviation (input) Minute :: int where "Minute \<equiv> 60000000000"
abbreviation (input) Hour :: int where "Hour \<equiv> 3600000000000"
abbreviation (input) day :: int where "day \<equiv> 86400000000000"

text \<open>The micro sign \<open>U+00B5\<close> and the Greek letter \<open>U+03BC\<close> in UTF-8.\<close>

abbreviation micro_sign :: string where "micro_sign \<equiv> [char_of (194::nat), char_of (181::nat)]"
abbreviation greek_mu :: string where "greek_mu \<equiv> [char_of (206::nat), char_of (188::nat)]"

definition unitMap :: "(string \<times> int) list" where
  "unitMap =
    [(''ns'', 1), (''us'', 1000), (micro_sign @ ''s'', 1000), (greek_mu @ ''s'', 1000),
     (''ms'', 1000000), (''s'', 1000000000), (''m'', 60000000000), (''h'', 3600000000000)]"

definition is_digit :: "char \<Rightarrow> bool" where
  "is_digit c \<longleftrightarrow> 48 \<le> byte c \<and> byte c \<le> 57"

text \<open>\<^verbatim>\<open>leadingInt\<close>: \<open>None\<close> on overflow, else the value and the rest.\<close>

fun leadingInt :: "int \<Rightarrow> string \<Rightarrow> (int \<times> string) option" where
  "leadingInt x [] = Some (x, [])"
| "leadingInt x (c # s) =
     (if \<not> is_digit c then Some (x, c # s)
      else if x > 2 ^ 63 div 10 then None
      else let y = x * 10 + (int (byte c) - 48) in if y > 2 ^ 63 then None else leadingInt y s)"

text \<open>
  \<^verbatim>\<open>leadingFraction\<close>: the digits that fit, the number of them (the scale is that power of
  ten) and the rest.
\<close>

fun leadingFraction :: "bool \<Rightarrow> int \<Rightarrow> nat \<Rightarrow> string \<Rightarrow> int \<times> nat \<times> string" where
  "leadingFraction overflow x k [] = (x, k, [])"
| "leadingFraction overflow x k (c # s) =
     (if \<not> is_digit c then (x, k, c # s)
      else if overflow then leadingFraction overflow x k s
      else if x > (2 ^ 63 - 1) div 10 then leadingFraction True x k s
      else let y = x * 10 + (int (byte c) - 48) in
           if y > 2 ^ 63 then leadingFraction True x k s else leadingFraction False y (Suc k) s)"

definition unit_char :: "char \<Rightarrow> bool" where
  "unit_char c \<longleftrightarrow> c \<noteq> CHR ''.'' \<and> \<not> is_digit c"

text \<open>
  The nanoseconds of a fraction, \<^verbatim>\<open>uint64(float64(f) * (float64(unit) / scale))\<close>; the
  scale is at most \<open>10^19\<close> and multiplied up in floating point, one factor ten at a time.
\<close>

fun f_scale :: "nat \<Rightarrow> f64" where
  "f_scale 0 = Fin 1"
| "f_scale (Suc k) = f_mul (f_scale k) (Fin 10)"

definition fraction_ns :: "int \<Rightarrow> int \<Rightarrow> nat \<Rightarrow> int" where
  "fraction_ns f unit k =
     (case f_mul (of_int64 f) (f_div (of_int64 unit) (f_scale k)) of
        Fin x \<Rightarrow> \<lfloor>x\<rfloor> | _ \<Rightarrow> 0)"

text \<open>One turn of the loop of \<^verbatim>\<open>time.ParseDuration\<close>: the value of the first term and the rest.\<close>

definition parse_term :: "string \<Rightarrow> (int \<times> string) option" where
  "parse_term s =
     (if s = [] \<or> \<not> (hd s = CHR ''.'' \<or> is_digit (hd s)) then None
      else
        (case leadingInt 0 s of
           None \<Rightarrow> None
         | Some (v, s1) \<Rightarrow>
             (let pre = (length s1 \<noteq> length s);
                  dot = (s1 \<noteq> [] \<and> hd s1 = CHR ''.'');
                  (f, k, s2) = (if dot then leadingFraction False 0 0 (tl s1) else (0, 0, s1));
                  post = (dot \<and> length s2 \<noteq> length (tl s1))
              in if \<not> pre \<and> \<not> post then None
                 else
                   (let u = takeWhile unit_char s2; s3 = dropWhile unit_char s2 in
                    if u = [] then None
                    else case map_of unitMap u of
                           None \<Rightarrow> None
                         | Some unit \<Rightarrow>
                             (if v > 2 ^ 63 div unit then None
                              else let w = v * unit + (if f > 0 then fraction_ns f unit k else 0) in
                                   if f > 0 \<and> w > 2 ^ 63 then None else Some (w, s3))))))"

lemma leadingInt_length: "leadingInt x s = Some (v, r) \<Longrightarrow> length r \<le> length s"
  by (induction x s arbitrary: v r rule: leadingInt.induct) (fastforce simp: Let_def split: if_splits)+

lemma leadingFraction_length: "leadingFraction b x k s = (f, j, r) \<Longrightarrow> length r \<le> length s"
  by (induction b x k s arbitrary: f j r rule: leadingFraction.induct)
     (fastforce simp: Let_def split: if_splits)+

lemma parse_term_length:
  assumes "parse_term s = Some (v, r)"
  shows "length r < length s"
proof -
  obtain n s1 where s1: "leadingInt 0 s = Some (n, s1)"
    using assms by (auto simp: parse_term_def split: if_splits option.splits)
  define s2 where "s2 = (if s1 \<noteq> [] \<and> hd s1 = CHR ''.'' then snd (snd (leadingFraction False 0 0 (tl s1))) else s1)"
  have "length s1 \<le> length s" using leadingInt_length [OF s1] .
  moreover have "length s2 \<le> length s1"
    using leadingFraction_length [of False 0 0 "tl s1"]
    by (cases s1; cases "leadingFraction False 0 0 (tl s1)") (fastforce simp: s2_def)+
  moreover have "r = dropWhile unit_char s2" "takeWhile unit_char s2 \<noteq> []"
    using assms s1 by (auto simp: parse_term_def Let_def s2_def split: if_splits option.splits prod.splits)
  moreover have "length (takeWhile unit_char s2) + length (dropWhile unit_char s2) = length s2"
    by (metis length_append takeWhile_dropWhile_id)
  ultimately show ?thesis by (cases "takeWhile unit_char s2") auto
qed

function parse_terms :: "int \<Rightarrow> string \<Rightarrow> int option" where
  "parse_terms d s =
     (if s = [] then Some d
      else
        (case parse_term s of
           None \<Rightarrow> None
         | Some (v, r) \<Rightarrow>
             (let d' = (d + v) mod 2 ^ 64 in if d' > 2 ^ 63 then None else parse_terms d' r)))"
  by pat_completeness auto
termination
  by (relation "measure (\<lambda>(d, s). length s)") (auto simp: parse_term_length)

declare parse_terms.simps [simp del]

text \<open>\<^verbatim>\<open>time.ParseDuration\<close>; \<open>None\<close> is an error.\<close>

definition ParseDuration :: "string \<Rightarrow> int option" where
  "ParseDuration s =
     (let neg = (s \<noteq> [] \<and> hd s = CHR ''-'');
          body = (if s \<noteq> [] \<and> (hd s = CHR ''-'' \<or> hd s = CHR ''+'') then tl s else s)
      in if body = ''0'' then Some 0
         else if body = [] then None
         else case parse_terms 0 body of
                None \<Rightarrow> None
              | Some d \<Rightarrow>
                  (if neg then Some (- d)
                   else if d > 2 ^ 63 - 1 then None
                   else Some d))"

text \<open>
  \<^verbatim>\<open>time.Duration.String\<close>.  \<open>fmt_frac\<close> prints \<open>prec\<close> decimals without trailing zeros and
  returns the remaining integer, as \<^verbatim>\<open>fmtFrac\<close> does from the right.
\<close>

fun fmt_frac :: "int \<Rightarrow> bool \<Rightarrow> nat \<Rightarrow> string \<Rightarrow> string \<times> int" where
  "fmt_frac v pr 0 buf = (if pr then CHR ''.'' # buf else buf, v)"
| "fmt_frac v pr (Suc prec) buf =
     (let digit = v mod 10; pr' = (pr \<or> digit \<noteq> 0)
      in fmt_frac (v div 10) pr' prec (if pr' then digit_char (nat digit) # buf else buf))"

definition fmt_int :: "int \<Rightarrow> string" where
  "fmt_int v = format_nat 10 v"

definition std_String :: "int \<Rightarrow> string" where
  "std_String d =
     (let u = \<bar>d\<bar>;
          body =
            (if u < 1000000000 then
               (if u = 0 then ''0s''
                else
                  (let (prec, suffix) =
                         (if u < 1000 then (0, ''ns'')
                          else if u < 1000000 then (3, micro_sign @ ''s'')
                          else (6, ''ms''));
                       (frac, i) = fmt_frac u False prec []
                   in fmt_int i @ frac @ suffix))
             else
               (let (frac, secs) = fmt_frac u False 9 []; mins = secs div 60; hours = mins div 60
                in (if mins > 0
                    then (if hours > 0 then fmt_int hours @ ''h'' else []) @ fmt_int (mins mod 60) @ ''m''
                    else []) @ fmt_int (secs mod 60) @ frac @ ''s''))
      in if d < 0 then CHR ''-'' # body else body)"

section \<open>durationx.Duration\<close>

abbreviation (input) Permanent :: int where "Permanent \<equiv> -1"
abbreviation (input) maxDuration :: int where "maxDuration \<equiv> 9223372036854775807"
abbreviation (input) maxMillis :: int where "maxMillis \<equiv> 9223372036854"

definition IsPermanent :: "int \<Rightarrow> bool" where "IsPermanent d \<longleftrightarrow> d = Permanent"

definition IsZero :: "int \<Rightarrow> bool" where "IsZero d \<longleftrightarrow> d = 0"

definition Std :: "int \<Rightarrow> int" where "Std d = d"

text \<open>\<^verbatim>\<open>Milliseconds\<close>: Go's division truncates towards zero.\<close>

definition Milliseconds :: "int \<Rightarrow> int" where
  "Milliseconds d = (if IsPermanent d then -1 else if d \<ge> 0 then d div Millisecond else - ((- d) div Millisecond))"

text \<open>The tail of \<^verbatim>\<open>Parse\<close>, after a leading day count.\<close>

definition parse_rest :: "string \<Rightarrow> int \<Rightarrow> string \<Rightarrow> gerror + int" where
  "parse_rest s tot rest =
     (if rest = [] then Inr tot
      else
        (case ParseDuration rest of
           None \<Rightarrow> Inl (OtherError (Msg ''durationx: invalid duration %q'' [s]))
         | Some d \<Rightarrow>
             (if d < 0 then Inl (OtherError (Msg ''durationx: negative duration %q'' [s]))
              else if tot > wrap64 (maxDuration - d) then
                Inl (OtherError (Msg ''durationx: duration %q overflows'' [s]))
              else Inr (wrap64 (tot + d)))))"

definition Parse :: "string \<Rightarrow> gerror + int" where
  "Parse str =
     (let s = TrimSpace str; low = map ascii_lower s in
      if low = [] \<or> low = ''0'' then Inr 0
      else if low = ''permanent'' then Inr Permanent
      else if has_prefix s ''-'' then Inl (OtherError (Msg ''durationx: negative duration %q'' [s]))
      else
        (let split =
               (case index_byte (CHR ''d'') s of
                  Some i \<Rightarrow> if i > 0 then map_option (\<lambda>n. (n, drop (i + 1) s)) (ParseInt (take i s) 10 64) else None
                | None \<Rightarrow> None);
             overflow = Inl (OtherError (Msg ''durationx: duration %q overflows'' [s]))
         in case split of
              Some (n, rest) \<Rightarrow>
                if n > maxDuration div day then overflow
                else parse_rest s (n * day) rest
            | None \<Rightarrow> parse_rest s 0 s))"

text \<open>\<^verbatim>\<open>String\<close>: the largest units first; each part is printed when it is not zero.\<close>

definition unit_part :: "int \<Rightarrow> int \<Rightarrow> string \<Rightarrow> string" where
  "unit_part td unit name = (if td div unit > 0 then FormatInt (td div unit) 10 @ name else [])"

definition String :: "int \<Rightarrow> string" where
  "String d =
     (if IsPermanent d then ''permanent''
      else if d = 0 then ''0s''
      else if d < 0 then std_String d
      else
        (let td1 = d mod day; td2 = td1 mod Hour; td3 = td2 mod Minute; td4 = td3 mod Second in
         unit_part d day ''d'' @ unit_part td1 Hour ''h'' @ unit_part td2 Minute ''m'' @
         unit_part td3 Second ''s'' @
         (if td4 > 0
          then (if td4 mod Millisecond = 0 then FormatInt (td4 div Millisecond) 10 @ ''ms'' else std_String td4)
          else [])))"

definition fromMillis :: "int \<Rightarrow> gerror + int" where
  "fromMillis ms =
     (if ms = -1 then Inr Permanent
      else if ms < -1 then Inl (OtherError (Msg ''durationx: negative duration %d'' [FormatInt ms 10]))
      else if ms > maxMillis then Inl (OtherError (Msg ''durationx: duration %dms overflows'' [FormatInt ms 10]))
      else Inr (wrap64 (ms * Millisecond)))"

end
