(* ===== verification/Durationx_Laws.thy ===== *)
theory Durationx_Laws
  imports Durationx
begin

text \<open>
  Printing a duration and parsing the text again gives the duration back.  The proof follows the
  text: scanning digits, one term, the unit parts from hours to seconds, the fraction below a
  second (which the parser computes in floating point), and the leading day count.
\<close>

section \<open>Scanning digits\<close>

lemma digit_value:
  "(char_digit c = Some d \<and> d < 10) \<longleftrightarrow> is_digit c \<and> d = byte c - 48"
  by (auto simp: char_digit_def is_digit_def Let_def split: if_splits)

lemma is_digit_digit_char: "d < 10 \<Longrightarrow> is_digit (digit_char d)"
  by (simp add: is_digit_def byte_digit_char)

lemma format_digits: "0 \<le> n \<Longrightarrow> c \<in> set (format_nat 10 n) \<Longrightarrow> is_digit c"
  using format_nat_digits [of 10 n c] is_digit_digit_char by auto

lemma parse_digits_ge: "parse_digits b acc s = Some n \<Longrightarrow> 0 \<le> acc \<Longrightarrow> 1 \<le> b \<Longrightarrow> acc \<le> n"
proof (induction b acc s rule: parse_digits.induct)
  case (2 b acc c s)
  then obtain d where d: "parse_digits b (acc * b + int d) s = Some n" "char_digit c = Some d" "int d < b"
    by (auto split: option.splits if_splits)
  have le: "acc \<le> acc * b + int d" using "2.prems" mult_left_mono [of 1 b acc] by simp
  have "acc * b + int d \<le> n"
    using "2.IH" [OF d(2,3) d(1)] "2.prems" le by simp
  with le show ?case by linarith
qed simp

definition stops :: "string \<Rightarrow> bool" where
  "stops r \<longleftrightarrow> r = [] \<or> \<not> is_digit (hd r)"

lemma leadingInt_scan:
  "parse_digits 10 x s = Some v \<Longrightarrow> v \<le> 2 ^ 63 \<Longrightarrow> 0 \<le> x \<Longrightarrow> stops r \<Longrightarrow> leadingInt x (s @ r) = Some (v, r)"
proof (induction s arbitrary: x)
  case Nil
  then show ?case by (cases r) (auto simp: stops_def)
next
  case (Cons c s)
  obtain d where d: "char_digit c = Some d" "d < 10" "parse_digits 10 (x * 10 + int d) s = Some v"
    using Cons.prems(1) by (auto split: option.splits if_splits)
  have c: "is_digit c" "int d = int (byte c) - 48"
    using digit_value [of c d] d(1,2) by (auto simp: is_digit_def)
  have "x * 10 + int d \<le> v" using parse_digits_ge [OF d(3)] Cons.prems(3) by simp
  then have "x * 10 + int d \<le> 2 ^ 63" "\<not> x > 2 ^ 63 div 10" using Cons.prems(2) by auto
  moreover have "leadingInt (x * 10 + int d) (s @ r) = Some (v, r)"
    using Cons d(3) by simp
  ultimately show ?case using c by (simp add: Let_def)
qed

lemma leadingInt_format:
  "0 \<le> n \<Longrightarrow> n \<le> 2 ^ 63 \<Longrightarrow> stops r \<Longrightarrow> leadingInt 0 (format_nat 10 n @ r) = Some (n, r)"
  by (rule leadingInt_scan) (simp_all add: parse_format_nat)

lemma leadingFraction_scan:
  "parse_digits 10 x s = Some v \<Longrightarrow> v < 2 ^ 63 \<Longrightarrow> 0 \<le> x \<Longrightarrow> stops r \<Longrightarrow>
   leadingFraction False x k (s @ r) = (v, k + length s, r)"
proof (induction s arbitrary: x k)
  case Nil
  then show ?case by (cases r) (auto simp: stops_def)
next
  case (Cons c s)
  obtain d where d: "char_digit c = Some d" "d < 10" "parse_digits 10 (x * 10 + int d) s = Some v"
    using Cons.prems(1) by (auto split: option.splits if_splits)
  have c: "is_digit c" "int d = int (byte c) - 48"
    using digit_value [of c d] d(1,2) by (auto simp: is_digit_def)
  have "x * 10 + int d \<le> v" using parse_digits_ge [OF d(3)] Cons.prems(3) by simp
  then have "\<not> x * 10 + int d > 2 ^ 63" "\<not> x > (2 ^ 63 - 1) div 10" using Cons.prems(2) by auto
  moreover have "leadingFraction False (x * 10 + int d) (Suc k) (s @ r) = (v, Suc k + length s, r)"
    using Cons d(3) by simp
  ultimately show ?case using c by (simp add: Let_def)
qed

section \<open>Terms\<close>

definition unit_name :: "string \<Rightarrow> bool" where
  "unit_name u \<longleftrightarrow> u \<noteq> [] \<and> (\<forall>c \<in> set u. unit_char c)"

definition resumes :: "string \<Rightarrow> bool" where
  "resumes r \<longleftrightarrow> r = [] \<or> is_digit (hd r)"

lemma unit_split:
  assumes "unit_name u" and "resumes r"
  shows "takeWhile unit_char (u @ r) = u" and "dropWhile unit_char (u @ r) = r"
proof -
  have "takeWhile unit_char r = []" "dropWhile unit_char r = r"
    using assms(2) by (cases r; auto simp: resumes_def unit_char_def)+
  then show "takeWhile unit_char (u @ r) = u" "dropWhile unit_char (u @ r) = r"
    using assms(1) by (simp_all add: unit_name_def takeWhile_append2 dropWhile_append2)
qed

lemma parse_term_int:
  assumes "0 \<le> n" and "n * unit \<le> 2 ^ 63" and "map_of unitMap u = Some unit" and "1 \<le> unit"
    and "unit_name u" and "resumes r"
  shows "parse_term (format_nat 10 n @ u @ r) = Some (n * unit, r)"
proof -
  have u: "u \<noteq> []" "unit_char (hd u)" using assms(5) by (auto simp: unit_name_def)
  then have st: "stops (u @ r)" "hd (u @ r) \<noteq> CHR ''.''" by (auto simp: stops_def unit_char_def)
  have n: "n \<le> 2 ^ 63 div unit" using zdiv_mono1 [OF assms(2), of unit] assms(4) by simp
  then have "n \<le> 2 ^ 63" using assms(1,2,4) mult_left_mono [of 1 unit n] by linarith
  then have "leadingInt 0 (format_nat 10 n @ u @ r) = Some (n, u @ r)"
    using leadingInt_format [OF assms(1) _ st(1)] by simp
  moreover have "is_digit (hd (format_nat 10 n @ u @ r))"
    using format_digits [OF assms(1)] by simp
  ultimately show ?thesis
    using st(2) u(1) n assms(3) unit_split [OF assms(5,6)] by (simp add: parse_term_def Let_def)
qed

lemma parse_terms_step:
  assumes "parse_term s = Some (v, r)" and "0 \<le> d" and "0 \<le> v" and "d + v \<le> 2 ^ 63"
  shows "parse_terms d s = parse_terms (d + v) r"
proof -
  have "s \<noteq> []" using assms(1) by (auto simp: parse_term_def)
  moreover have "(d + v) mod 2 ^ 64 = d + v" using assms(2-4) by (intro mod_pos_pos_trivial) auto
  ultimately show ?thesis
    using assms by (subst parse_terms.simps) (simp add: Let_def)
qed

lemma parse_terms_Nil [simp]: "parse_terms d [] = Some d"
  by (simp add: parse_terms.simps)

lemma units:
  "map_of unitMap ''h'' = Some Hour" "map_of unitMap ''m'' = Some Minute" "map_of unitMap ''s'' = Some Second"
  "map_of unitMap ''ms'' = Some Millisecond" "map_of unitMap ''ns'' = Some 1"
  "map_of unitMap (micro_sign @ ''s'') = Some Microsecond"
  by code_simp+

lemma unit_names:
  "unit_name ''h''" "unit_name ''m''" "unit_name ''s''" "unit_name ''ms''" "unit_name ''ns''"
  "unit_name (micro_sign @ ''s'')"
  by code_simp+

lemma unit_part_eq: "0 \<le> td \<Longrightarrow> 0 < unit \<Longrightarrow> unit_part td unit u = (if td div unit > 0 then format_nat 10 (td div unit) @ u else [])"
  by (simp add: unit_part_def FormatInt_def)

lemma parse_terms_unit_part:
  assumes "0 \<le> td" and "1 \<le> unit" and "map_of unitMap u = Some unit" and "unit_name u" and "resumes r"
    and "0 \<le> d" and "d + td \<le> 2 ^ 63"
  shows "parse_terms d (unit_part td unit u @ r) = parse_terms (d + (td - td mod unit)) r"
proof (cases "td div unit > 0")
  case True
  have eq: "td div unit * unit = td - td mod unit" by (simp add: minus_mod_eq_div_mult)
  have le: "0 \<le> td mod unit" "0 \<le> td - td mod unit"
    using assms(1,2) zmod_le_nonneg_dividend [of td unit] by simp_all
  then have le2: "d + (td - td mod unit) \<le> 2 ^ 63" "td - td mod unit \<le> 2 ^ 63" using assms(6,7) by linarith+
  then have "parse_term (format_nat 10 (td div unit) @ u @ r) = Some (td - td mod unit, r)"
    using parse_term_int [of "td div unit" unit u r] assms True eq by simp
  from parse_terms_step [OF this assms(6) le(2) le2(1)] show ?thesis
    using True assms(1,2) by (simp add: unit_part_eq)
next
  case False
  then have "td < unit" using assms(2) by (simp add: pos_imp_zdiv_pos_iff)
  then have "td mod unit = td" using assms(1) by (rule mod_pos_pos_trivial [rotated])
  with False show ?thesis using assms(1,2) by (simp add: unit_part_eq)
qed

lemma resumes_unit_part: "0 \<le> td \<Longrightarrow> 0 < unit \<Longrightarrow> resumes r \<Longrightarrow> resumes (unit_part td unit u @ r)"
  using format_digits [of "td div unit" "hd (format_nat 10 (td div unit))"]
  by (auto simp: unit_part_eq resumes_def)

section \<open>Fractions\<close>

text \<open>The last \<open>prec\<close> decimal digits of \<open>v\<close>, in front of \<open>buf\<close>.\<close>

lemma fmt_frac_True:
  "0 \<le> v \<Longrightarrow> \<exists>ds. fmt_frac v True prec buf = (CHR ''.'' # ds @ buf, v div 10 ^ prec) \<and> length ds = prec \<and>
     (\<forall>a t. parse_digits 10 a (ds @ t) = parse_digits 10 (a * 10 ^ prec + v mod 10 ^ prec) t)"
proof (induction prec arbitrary: v buf)
  case (Suc prec)
  let ?d = "digit_char (nat (v mod 10))"
  from Suc.prems have "0 \<le> v div 10" by simp
  from Suc.IH [OF this, of "?d # buf"]
  obtain ds where ds: "fmt_frac (v div 10) True prec (?d # buf) = (CHR ''.'' # ds @ ?d # buf, v div 10 div 10 ^ prec)"
    "length ds = prec"
    "\<And>a t. parse_digits 10 a (ds @ t) = parse_digits 10 (a * 10 ^ prec + v div 10 mod 10 ^ prec) t"
    by auto
  have d: "char_digit ?d = Some (nat (v mod 10))"
    by (rule char_digit_digit_char) (simp add: nat_less_iff)
  have val: "(a * 10 ^ prec + v div 10 mod 10 ^ prec) * 10 + v mod 10 = a * 10 ^ Suc prec + v mod 10 ^ Suc prec" for a
    by (simp add: algebra_simps zmod_zmult2_eq [of "10 ^ prec" v 10])
  have "parse_digits 10 a ((ds @ [?d]) @ t) = parse_digits 10 (a * 10 ^ Suc prec + v mod 10 ^ Suc prec) t" for a t
    unfolding val [symmetric] using ds(3) [of a "?d # t"] d by simp
  moreover have "fmt_frac v True (Suc prec) buf = (CHR ''.'' # (ds @ [?d]) @ buf, v div 10 ^ Suc prec)"
    using ds(1) by (simp add: Let_def zdiv_zmult2_eq)
  ultimately show ?case using ds(2) by (intro exI [of _ "ds @ [?d]"]) simp
qed simp

lemma fmt_frac_False:
  "0 \<le> v \<Longrightarrow> 
   (if v mod 10 ^ prec = 0 then fmt_frac v False prec [] = ([], v div 10 ^ prec)
    else \<exists>ds w. fmt_frac v False prec [] = (CHR ''.'' # ds, v div 10 ^ prec) \<and> 0 < length ds \<and> length ds \<le> prec \<and>
      parse_digits 10 0 ds = Some w \<and> 0 < w \<and> w * 10 ^ (prec - length ds) = v mod 10 ^ prec)"
proof (induction prec arbitrary: v)
  case (Suc prec)
  have split: "v mod 10 ^ Suc prec = v div 10 mod 10 ^ prec * 10 + v mod 10"
    by (simp add: zmod_zmult2_eq [of "10 ^ prec" v 10])
  have v10: "0 \<le> v div 10" using Suc.prems by simp
  show ?case
  proof (cases "v mod 10 = 0")
    case True
    have unf: "fmt_frac v False (Suc prec) [] = fmt_frac (v div 10) False prec []"
      using True by (simp add: Let_def)
    have dv: "v div 10 ^ Suc prec = v div 10 div 10 ^ prec" by (simp add: zdiv_zmult2_eq)
    show ?thesis
    proof (cases "v div 10 mod 10 ^ prec = 0")
      case True': True
      then show ?thesis using Suc.IH [OF v10] split True unf dv by simp
    next
      case False
      then obtain ds w where ds: "fmt_frac (v div 10) False prec [] = (CHR ''.'' # ds, v div 10 div 10 ^ prec)"
        "0 < length ds" "length ds \<le> prec" "parse_digits 10 0 ds = Some w" "0 < w"
        "w * 10 ^ (prec - length ds) = v div 10 mod 10 ^ prec"
        using Suc.IH [OF v10] by auto
      have "w * 10 ^ (Suc prec - length ds) = v mod 10 ^ Suc prec"
        using ds(3,6) True split by (simp add: Suc_diff_le)
      moreover have "v mod 10 ^ Suc prec \<noteq> 0" using split True False by simp
      ultimately show ?thesis using ds unf dv by auto
    qed
  next
    case False
    let ?d = "digit_char (nat (v mod 10))"
    obtain ds where ds: "fmt_frac (v div 10) True prec [?d] = (CHR ''.'' # ds @ [?d], v div 10 div 10 ^ prec)"
      "length ds = prec"
      "\<And>a t. parse_digits 10 a (ds @ t) = parse_digits 10 (a * 10 ^ prec + v div 10 mod 10 ^ prec) t"
      using fmt_frac_True [OF v10, of prec "[?d]"] by auto
    have d: "char_digit ?d = Some (nat (v mod 10))"
      by (rule char_digit_digit_char) (simp add: nat_less_iff)
    have "0 < v mod 10" "0 \<le> v div 10 mod 10 ^ prec" using False pos_mod_sign [of 10 v] by auto
    then have pos: "0 < v mod 10 ^ Suc prec" unfolding split by linarith
    have "parse_digits 10 0 (ds @ [?d]) = Some (v mod 10 ^ Suc prec)"
      using ds(3) [of 0 "[?d]"] d split by simp
    moreover have "fmt_frac v False (Suc prec) [] = (CHR ''.'' # ds @ [?d], v div 10 ^ Suc prec)"
      using ds(1) False by (simp add: Let_def zdiv_zmult2_eq)
    ultimately show ?thesis
      using ds(2) pos by auto
  qed
qed simp

lemma f_scale_exact: "k \<le> 6 \<Longrightarrow> f_scale k = Fin (of_int (10 ^ k))"
proof (induction k)
  case (Suc k)
  have "(10::int) ^ Suc k \<le> 10 ^ 6" using Suc.prems by (intro power_increasing) auto
  then have "\<bar>(10::int) ^ Suc k\<bar> \<le> 2 ^ 53" by simp
  from of_int64_exact [OF this] Suc show ?case
    by (simp add: of_int64_def mult.commute)
qed simp

lemma fraction_ns_exact:
  assumes "0 < w" and "k \<le> p" and "p \<le> 6" and "w * 10 ^ (p - k) < 10 ^ 6"
  shows "fraction_ns w (10 ^ p) k = w * 10 ^ (p - k)"
proof -
  have "w * 1 \<le> w * 10 ^ (p - k)" using assms(1) by (intro mult_left_mono) auto
  then have w: "w \<le> 10 ^ 6" using assms(4) by linarith
  have small: "\<bar>m\<bar> \<le> 2 ^ 53" if "0 \<le> m" "m \<le> 10 ^ 6" for m :: int using that by simp
  have p: "(10::int) ^ q \<le> 10 ^ 6" if "q \<le> p" for q using that assms(3) by (intro power_increasing) auto
  have e: "of_int64 m = Fin (of_int m)" "to_f64 (of_int m) = Fin (of_int m)" if "0 \<le> m" "m \<le> 10 ^ 6" for m
    using of_int64_exact [OF small [OF that]] by (simp_all add: of_int64_def)
  have "(of_int (10 ^ p) :: rat) / of_int (10 ^ k) = of_int (10 ^ (p - k))"
    using assms(2) by (simp add: field_simps flip: power_add)
  then have "f_div (of_int64 (10 ^ p)) (f_scale k) = Fin (of_int (10 ^ (p - k)))"
    using f_scale_exact [of k] assms(2,3) p [of p] p [of "p - k"] e(1) [of "10 ^ p"] e(2) [of "10 ^ (p - k)"]
    by simp
  moreover have "f_mul (of_int64 w) (Fin (of_int (10 ^ (p - k)))) = Fin (of_int (w * 10 ^ (p - k)))"
    using e(1) [of w] e(2) [of "w * 10 ^ (p - k)"] assms(1,4) w by simp
  ultimately show ?thesis unfolding fraction_ns_def by (simp only: f64.case floor_of_int)
qed

lemma parse_term_frac:
  assumes "0 \<le> v" and "v < 10 ^ 9" and "p \<le> 6" and "v mod 10 ^ p \<noteq> 0"
    and "map_of unitMap u = Some (10 ^ p)" and "unit_name u"
  shows "parse_term (fmt_int (v div 10 ^ p) @ fst (fmt_frac v False p []) @ u) = Some (v, [])"
proof -
  obtain ds w where ds: "fmt_frac v False p [] = (CHR ''.'' # ds, v div 10 ^ p)" "0 < length ds" "length ds \<le> p"
    "parse_digits 10 0 ds = Some w" "0 < w" "w * 10 ^ (p - length ds) = v mod 10 ^ p"
    using fmt_frac_False [OF assms(1), of p] assms(4) by auto
  let ?n = "v div 10 ^ p"
  let ?s = "format_nat 10 ?n @ CHR ''.'' # ds @ u"
  have u: "u \<noteq> []" "unit_char (hd u)" using assms(6) by (auto simp: unit_name_def)
  have stu: "stops u" "stops (CHR ''.'' # ds @ u)"
    using u by (auto simp: stops_def unit_char_def is_digit_def byte_def)
  have n: "0 \<le> ?n" "?n \<le> v" using assms(1) zdiv_mono2 [of v 1 "10 ^ p"] by (simp_all add: pos_imp_zdiv_nonneg_iff)
  have p6: "(10::int) ^ p \<le> 10 ^ 6" using assms(3) by (intro power_increasing) auto
  have md: "v mod 10 ^ p < 10 ^ 6" by (rule less_le_trans [OF pos_mod_bound p6]) simp
  have "w * 1 \<le> w * 10 ^ (p - length ds)" using ds(5) by (intro mult_left_mono) auto
  then have w: "w < 2 ^ 63" using ds(6) md by simp
  have unit: "takeWhile unit_char u = u" "dropWhile unit_char u = []"
    using unit_split [OF assms(6), of "[]"] by (simp_all add: resumes_def)
  have "leadingInt 0 ?s = Some (?n, CHR ''.'' # ds @ u)"
    using leadingInt_format [OF n(1) _ stu(2)] n assms(2) by simp
  moreover have "leadingFraction False 0 0 (ds @ u) = (w, length ds, u)"
    using leadingFraction_scan [OF ds(4) w _ stu(1), of 0] by simp
  moreover have "is_digit (hd ?s)" using format_digits [OF n(1)] by simp
  moreover have frac: "fraction_ns w (10 ^ p) (length ds) = v mod 10 ^ p"
    using fraction_ns_exact [OF ds(5,3) assms(3)] ds(6) md by simp
  moreover have sum: "?n * 10 ^ p + v mod 10 ^ p = v" by (rule div_mult_mod_eq)
  moreover have "?n \<le> 2 ^ 63 div 10 ^ p"
  proof (rule zdiv_mono1)
    show "v \<le> 2 ^ 63" using assms(2) by simp
  qed simp
  moreover have "\<not> v > 2 ^ 63" using assms(2) by simp
  ultimately show ?thesis
    using ds(1,2,5) u(1) assms(5) by (simp add: parse_term_def Let_def fmt_int_def unit)
qed

lemma parse_term_decimal:
  assumes "0 \<le> v" and "v < 10 ^ 9" and "p \<le> 6" and "map_of unitMap u = Some (10 ^ p)" and "unit_name u"
  shows "(case fmt_frac v False p [] of (fr, i) \<Rightarrow> parse_term (fmt_int i @ fr @ u)) = Some (v, [])"
proof (cases "v mod 10 ^ p = 0")
  case True
  then have "v div 10 ^ p * 10 ^ p = v" by (metis add.right_neutral div_mult_mod_eq)
  moreover have "0 \<le> v div 10 ^ p" using assms(1) by (simp add: pos_imp_zdiv_nonneg_iff)
  ultimately show ?thesis
    using fmt_frac_False [OF assms(1), of p] True assms parse_term_int [of "v div 10 ^ p" "10 ^ p" u "[]"]
    by (simp add: fmt_int_def resumes_def)
next
  case False
  then obtain ds where "fmt_frac v False p [] = (CHR ''.'' # ds, v div 10 ^ p)"
    using fmt_frac_False [OF assms(1), of p] by auto
  with parse_term_frac [OF assms(1-3) False assms(4,5)] show ?thesis by simp
qed

lemma parse_terms_tail:
  assumes "0 < t" and "t < Second" and "0 \<le> d" and "d + t \<le> 2 ^ 63"
  shows "parse_terms d (if t mod Millisecond = 0 then FormatInt (t div Millisecond) 10 @ ''ms'' else std_String t) = Some (d + t)"
    (is "parse_terms d ?s = _")
proof -
  have one: "parse_term ?s = Some (t, [])"
  proof (cases "t mod Millisecond = 0")
    case True
    have "t div Millisecond * Millisecond = t" using True by (metis add.right_neutral div_mult_mod_eq)
    then show ?thesis
      using parse_term_int [of "t div Millisecond" Millisecond "''ms''" "[]"] True assms units(4) unit_names(4)
      by (simp add: FormatInt_def resumes_def)
  next
    case False
    consider "t < 1000" | "1000 \<le> t" "t < 1000000" | "1000000 \<le> t" by linarith
    then show ?thesis
    proof cases
      case 1
      then show ?thesis
        using parse_term_decimal [of t 0 "''ns''"] False assms units(5) unit_names(5)
        by (simp add: std_String_def Let_def split: prod.splits)
    next
      case 2
      then show ?thesis
        using parse_term_decimal [of t 3 "micro_sign @ ''s''"] False assms units(6) unit_names(6)
        by (simp add: std_String_def Let_def split: prod.splits)
    next
      case 3
      then show ?thesis
        using parse_term_decimal [of t 6 "''ms''"] False assms units(4) unit_names(4)
        by (simp add: std_String_def Let_def split: prod.splits)
    qed
  qed
  show ?thesis using parse_terms_step [OF one] assms by simp
qed

section \<open>The round trip\<close>

definition tail_part :: "int \<Rightarrow> string" where
  "tail_part t = (if t > 0 then (if t mod Millisecond = 0 then FormatInt (t div Millisecond) 10 @ ''ms'' else std_String t) else [])"

definition sub_day :: "int \<Rightarrow> string" where
  "sub_day r = unit_part r Hour ''h'' @ unit_part (r mod Hour) Minute ''m'' @
     unit_part (r mod Hour mod Minute) Second ''s'' @ tail_part (r mod Hour mod Minute mod Second)"

lemma String_pos: "0 < d \<Longrightarrow> String d = unit_part d day ''d'' @ sub_day (d mod day)"
  by (simp add: String_def IsPermanent_def sub_day_def tail_part_def Let_def)

lemma tail_digit:
  assumes "0 < t" and "t < Second"
  shows "is_digit (hd (tail_part t))" and "tail_part t \<noteq> []"
proof -
  have "is_digit (hd (format_nat 10 n))" if "0 \<le> n" for n
    using format_digits [OF that, of "hd (format_nat 10 n)"] by simp
  moreover have "0 \<le> snd (fmt_frac t False p [])" for p
    using fmt_frac_False [of t p] assms by (auto simp: pos_imp_zdiv_nonneg_iff split: if_splits)
  ultimately show "is_digit (hd (tail_part t))" "tail_part t \<noteq> []"
    using assms by (auto simp: tail_part_def FormatInt_def std_String_def fmt_int_def Let_def split: prod.splits)
       (metis snd_conv)+
qed

lemma parse_sub_day:
  assumes "0 \<le> r" and "r < day"
  shows "parse_terms 0 (sub_day r) = Some r"
proof -
  define m s t where "m = r mod Hour" and "s = m mod Minute" and "t = s mod Second"
  note parts = m_def [symmetric] s_def [symmetric] t_def [symmetric]
  have b: "0 \<le> m" "0 \<le> s" "0 \<le> t" "t < Second" "m \<le> r" "s \<le> m" "t \<le> s"
    using assms zmod_le_nonneg_dividend [of r Hour] zmod_le_nonneg_dividend [of m Minute]
      zmod_le_nonneg_dividend [of s Second] by (simp_all add: parts) (simp_all add: m_def s_def t_def)
  have r3: "resumes (tail_part t)"
    using tail_digit [of t] b by (cases "t > 0") (auto simp: resumes_def tail_part_def)
  then have r2: "resumes (unit_part s Second ''s'' @ tail_part t)"
    using b by (intro resumes_unit_part) auto
  have r1: "resumes (unit_part m Minute ''m'' @ unit_part s Second ''s'' @ tail_part t)"
    using b r3 by (intro resumes_unit_part) auto
  have tail: "parse_terms d (tail_part t) = Some (d + t)" if "0 \<le> d" "d + t \<le> 2 ^ 63" for d
  proof (cases "0 < t")
    case True
    with parse_terms_tail [OF True b(4) that] show ?thesis by (simp add: tail_part_def)
  next
    case False
    with b(3) have "t = 0" by linarith
    then show ?thesis by (simp add: tail_part_def)
  qed
  have big: "r \<le> 2 ^ 63" using assms by simp
  have "parse_terms 0 (sub_day r) = parse_terms (0 + (r - m)) (unit_part m Minute ''m'' @ unit_part s Second ''s'' @ tail_part t)"
    unfolding sub_day_def parts
    using parse_terms_unit_part [OF assms(1) _ units(1) unit_names(1) r1, of 0] big by (simp add: parts)
  also have "\<dots> = parse_terms (0 + (r - m) + (m - s)) (unit_part s Second ''s'' @ tail_part t)"
    using parse_terms_unit_part [OF b(1) _ units(2) unit_names(2) r2, of "0 + (r - m)"] b big by (simp add: parts)
  also have "\<dots> = parse_terms (0 + (r - m) + (m - s) + (s - t)) (tail_part t)"
    using parse_terms_unit_part [OF b(2) _ units(3) unit_names(3) r3, of "0 + (r - m) + (m - s)"] b big by (simp add: parts)
  also have "0 + (r - m) + (m - s) + (s - t) = r - t" by linarith
  also have "parse_terms (r - t) (tail_part t) = Some r"
    using tail [of "r - t"] b big by simp
  finally show ?thesis .
qed

text \<open>The characters below the day unit, and how a non-empty text ends.\<close>

definition clock_char :: "char \<Rightarrow> bool" where
  "clock_char c \<longleftrightarrow> is_digit c \<or> c \<in> set (''.hmsn'' @ micro_sign)"

definition clock_text :: "string \<Rightarrow> bool" where
  "clock_text s \<longleftrightarrow> list_all clock_char s \<and> (s = [] \<or> last s \<in> set ''hms'')"

lemma parse_digits_all: "parse_digits 10 a s = Some v \<Longrightarrow> c \<in> set s \<Longrightarrow> is_digit c"
  by (induction s arbitrary: a) (use digit_value in \<open>fastforce split: option.splits if_splits\<close>)+

lemma clock_text_append: "clock_text s \<Longrightarrow> clock_text t \<Longrightarrow> clock_text (s @ t)"
  by (cases "t = []") (simp_all add: clock_text_def)

lemma clock_text_unit: "0 \<le> td \<Longrightarrow> 0 < unit \<Longrightarrow> u \<in> {''h'', ''m'', ''s''} \<Longrightarrow> clock_text (unit_part td unit u)"
  using format_digits [of "td div unit"]
  by (auto simp: clock_text_def unit_part_eq list_all_iff clock_char_def)

lemma std_String_sub_second:
  assumes "0 < t" and "t < Second"
  obtains p u where "u \<in> {''ns'', ''ms'', micro_sign @ ''s''}"
    "std_String t = fmt_int (snd (fmt_frac t False p [])) @ fst (fmt_frac t False p []) @ u"
proof -
  let ?p = "if t < 1000 then 0 else if t < 1000000 then 3 else (6::nat)"
  let ?u = "if t < 1000 then ''ns'' else if t < 1000000 then micro_sign @ ''s'' else ''ms''"
  have "std_String t = fmt_int (snd (fmt_frac t False ?p [])) @ fst (fmt_frac t False ?p []) @ ?u"
    using assms by (simp add: std_String_def Let_def split_beta)
  moreover have "?u \<in> {''ns'', ''ms'', micro_sign @ ''s''}" by simp
  ultimately show ?thesis by (rule that [rotated])
qed

lemma clock_text_tail:
  assumes "0 < t" and "t < Second"
  shows "clock_text (tail_part t)"
proof -
  have fmt: "list_all clock_char (format_nat 10 n)" if "0 \<le> n" for n
    using format_digits [OF that] by (auto simp: list_all_iff clock_char_def)
  have frc: "list_all clock_char (fst (fmt_frac t False p []))" "0 \<le> snd (fmt_frac t False p [])" for p
    using fmt_frac_False [of t p] assms
    by (auto simp: list_all_iff clock_char_def pos_imp_zdiv_nonneg_iff split: if_splits dest: parse_digits_all)
  have "clock_text (fmt_int (snd (fmt_frac t False p [])) @ fst (fmt_frac t False p []) @ u)"
    if "u \<in> {''ns'', ''ms'', micro_sign @ ''s''}" for p u
    using that frc [of p] fmt [of "snd (fmt_frac t False p [])"]
    by (auto simp: clock_text_def fmt_int_def clock_char_def)
  moreover have "clock_text (FormatInt (t div Millisecond) 10 @ ''ms'')"
    using fmt [of "t div Millisecond"] assms pos_imp_zdiv_nonneg_iff [of Millisecond t]
    by (simp add: clock_text_def FormatInt_def clock_char_def not_less)
  moreover obtain p u where "u \<in> {''ns'', ''ms'', micro_sign @ ''s''}"
    "std_String t = fmt_int (snd (fmt_frac t False p [])) @ fst (fmt_frac t False p []) @ u"
    using std_String_sub_second [OF assms] .
  ultimately show ?thesis
    using assms(1) by (simp only: tail_part_def if_True split: if_split) blast
qed

lemma clock_text_sub_day:
  assumes "0 \<le> r"
  shows "clock_text (sub_day r)"
proof -
  have "clock_text (tail_part t)" if "0 \<le> t" "t < Second" for t
    using clock_text_tail [of t] that by (cases "0 < t") (auto simp: tail_part_def clock_text_def)
  then show ?thesis
    unfolding sub_day_def using assms by (intro clock_text_append clock_text_unit) auto
qed

lemma sub_day_digit:
  assumes "0 < r" and "r < day"
  shows "sub_day r \<noteq> []" and "is_digit (hd (sub_day r))"
proof -
  have "parse_terms 0 (sub_day r) = Some r" using parse_sub_day assms by simp
  then show ne: "sub_day r \<noteq> []" using assms by auto
  have "resumes (sub_day r)"
    unfolding sub_day_def using assms tail_digit
    by (intro resumes_unit_part) (auto simp: resumes_def tail_part_def)
  with ne show "is_digit (hd (sub_day r))" by (simp add: resumes_def)
qed

lemma ParseDuration_sub_day:
  assumes "0 < r" and "r < day"
  shows "ParseDuration (sub_day r) = Some r"
proof -
  note d = sub_day_digit [OF assms]
  have "hd (sub_day r) \<noteq> CHR ''-''" "hd (sub_day r) \<noteq> CHR ''+''"
    using d(2) by (auto simp: is_digit_def byte_def)
  moreover have "sub_day r \<noteq> ''0''"
    using clock_text_sub_day [of r] assms by (auto simp: clock_text_def)
  ultimately show ?thesis
    using d(1) parse_sub_day [of r] assms by (simp add: ParseDuration_def)
qed

lemma TrimSpace_id:
  assumes "s \<noteq> []" and "byte (hd s) < 128" and "\<not> is_space (byte (hd s))"
    and "byte (last s) < 128" and "\<not> is_space (byte (last s))"
  shows "TrimSpace s = s"
proof -
  have sp: "space_piece [c] \<longleftrightarrow> is_space (byte c)" if "byte c < 128" for c
    using that by (simp add: space_piece_def decode_rune_def)
  have "runes s = [hd s] # runes (tl s)"
    using runes_ascii [of "hd s" "tl s"] assms(1,2) by simp
  then have 1: "dropWhile space_piece (runes s) = runes s"
    using assms(2,3) sp by simp
  have "runes s = runes (butlast s) @ [[last s]]"
    using runes_append_ascii [OF assms(4), of "butlast s" "[]"] assms(1) by simp
  then have "dropWhile space_piece (rev (runes s)) = rev (runes s)"
    using assms(4,5) sp by simp
  with 1 show ?thesis by (simp add: TrimSpace_def concat_runes)
qed

lemma Parse_unfold:
  assumes "TrimSpace str = s" and "(map ascii_lower s = [] \<or> map ascii_lower s = ''0'') = False"
    and "(map ascii_lower s = ''permanent'') = False" and "has_prefix s ''-'' = False"
  shows "index_byte (CHR ''d'') s = None \<Longrightarrow> Parse str = parse_rest s 0 s"
    and "index_byte (CHR ''d'') s = Some i \<Longrightarrow> 0 < i \<Longrightarrow> ParseInt (take i s) 10 64 = Some n \<Longrightarrow>
      n \<le> maxDuration div day \<Longrightarrow> Parse str = parse_rest s (n * day) (drop (i + 1) s)"
  unfolding Parse_def Let_def assms by simp_all

lemma Parse_String_pos:
  assumes "0 < d" and "d \<le> MaxInt64"
  shows "Parse (String d) = Inr d"
proof -
  define q r where "q = d div day" and "r = d mod day"
  have qr: "d = q * day + r" "0 \<le> r" "r < day" "0 \<le> q" "q \<le> maxDuration div day"
    using assms zdiv_mono1 [of d maxDuration day] by (auto simp: q_def r_def MaxInt64_def pos_imp_zdiv_nonneg_iff)
  let ?u = "unit_part d day ''d''"
  define s where "s = String d"
  have s: "s = ?u @ sub_day r" by (simp add: s_def String_pos [OF assms(1)] r_def)
  have u: "?u = (if q > 0 then format_nat 10 q @ ''d'' else [])"
    using assms by (simp add: unit_part_eq q_def)
  have hq: "is_digit (hd (format_nat 10 q))" using format_digits [OF qr(4), of "hd (format_nat 10 q)"] by simp
  have r0: "0 < r" if "\<not> q > 0" using that qr(1,2,4) assms(1) by linarith
  have ne: "s \<noteq> []" and hd: "is_digit (hd s)"
    using hq sub_day_digit [OF _ qr(3)] r0 by (auto simp: s u)
  have last: "last s \<in> set ''dhms''"
  proof (cases "sub_day r = []")
    case True
    then have "q > 0" using sub_day_digit(1) [OF _ qr(3)] r0 by auto
    with True show ?thesis by (simp add: s u)
  next
    case False
    with clock_text_sub_day [OF qr(2)] show ?thesis by (auto simp: clock_text_def s)
  qed
  have trim: "TrimSpace s = s"
    using ne hd last by (intro TrimSpace_id) (auto simp: is_digit_def is_space_def byte_def)
  have first: "hd (map ascii_lower s) = hd s"
    using ne hd by (simp add: hd_map ascii_lower_def is_digit_def)
  have "map ascii_lower s \<noteq> ''0''"
  proof
    assume "map ascii_lower s = ''0''"
    then obtain c where c: "s = [c]" by auto
    then show False using hd last by (auto simp: is_digit_def byte_def)
  qed
  then have low: "(map ascii_lower s = [] \<or> map ascii_lower s = ''0'') = False" using ne by simp
  have word: "(map ascii_lower s = ''permanent'') = False" and neg: "has_prefix s ''-'' = False"
    using first hd ne by (auto simp: is_digit_def byte_def prefix_def)
  have rest: "parse_rest s (q * day) (sub_day r) = Inr d"
  proof (cases "r = 0")
    case True
    moreover have "sub_day 0 = []" by code_simp
    ultimately have "sub_day r = []" by simp
    with True qr(1) show ?thesis by (simp add: parse_rest_def)
  next
    case False
    with qr(2) have "0 < r" by linarith
    then show ?thesis
      using ParseDuration_sub_day [OF _ qr(3)] sub_day_digit(1) [OF _ qr(3)] qr assms
      by (simp add: parse_rest_def wrap64_id in64_def MaxInt64_def MinInt64_def)
  qed
  have idx: "index_byte (CHR ''d'') s = (if q > 0 then Some (length (format_nat 10 q)) else None)"
  proof -
    have d: "\<not> is_digit (CHR ''d'')" "\<not> clock_char (CHR ''d'')" by code_simp+
    have no: "CHR ''d'' \<notin> set (format_nat 10 q)" "CHR ''d'' \<notin> set (sub_day r)"
      using format_digits [OF qr(4), of "CHR ''d''"] clock_text_sub_day [OF qr(2)] d
      by (auto simp: clock_text_def list_all_iff)
    then show ?thesis
      using index_byte_append [OF no(1), of "sub_day r"] by (simp add: s u index_byte_None_iff)
  qed
  have num: "ParseInt (format_nat 10 q) 10 64 = Some q"
    using ParseInt_FormatInt [of 10 64 q] qr(4,5) by (simp add: FormatInt_def)
  have "Parse s = Inr d"
  proof (cases "q > 0")
    case True
    then have "take (length (format_nat 10 q)) s = format_nat 10 q" "drop (length (format_nat 10 q) + 1) s = sub_day r"
      by (simp_all add: s u)
    with Parse_unfold(2) [OF trim low word neg, of "length (format_nat 10 q)" q] True idx num qr(5) rest
    show ?thesis by simp
  next
    case False
    then have "s = sub_day r" "q = 0" using qr(4) by (simp_all add: s u)
    with Parse_unfold(1) [OF trim low word neg] idx rest show ?thesis by simp
  qed
  then show ?thesis by (simp add: s_def)
qed

lemma Parse_String_special: "Parse (String Permanent) = Inr Permanent" "Parse (String 0) = Inr 0"
proof -
  have p: "String Permanent = ''permanent''" "String 0 = ''0s''"
    by (simp_all add: String_def IsPermanent_def)
  have t: "TrimSpace ''permanent'' = ''permanent''" "TrimSpace ''0s'' = ''0s''"
    by (rule TrimSpace_id; simp add: byte_def is_space_def)+
  have l: "map ascii_lower ''permanent'' = ''permanent''" "map ascii_lower ''0s'' = ''0s''"
    by (simp_all add: ascii_lower_def byte_def)
  show "Parse (String Permanent) = Inr Permanent"
    unfolding p Parse_def Let_def t l by simp
  have "format_nat 10 0 = ''0''" by code_simp
  then have "parse_term ''0s'' = Some (0, [])"
    using parse_term_int [OF _ _ units(3) _ unit_names(3), of 0 "[]"] by (simp add: resumes_def)
  then have "ParseDuration ''0s'' = Some 0"
    using parse_terms_step [of "''0s''" 0 "[]" 0] by (simp add: ParseDuration_def)
  then have "parse_rest ''0s'' 0 ''0s'' = Inr 0"
    by (simp add: parse_rest_def wrap64_id in64_def MaxInt64_def MinInt64_def)
  then show "Parse (String 0) = Inr 0"
    unfolding p using Parse_unfold(1) [OF t(2)] l(2) by simp
qed

text \<open>
  C36. Printing and parsing are inverse on every duration the sources store: \<^verbatim>\<open>permanent\<close>,
  zero and every positive 64-bit number of nanoseconds, whatever its unit parts and fractions.
\<close>

theorem Parse_String:
  assumes "d = Permanent \<or> 0 \<le> d \<and> d \<le> MaxInt64"
  shows "Parse (String d) = Inr d"
  using assms Parse_String_pos [of d] Parse_String_special by (cases "0 < d") auto

theorem Parse_String_witness:
  "(0::int) \<le> 93784005006007 \<and> Parse (String 93784005006007) = Inr 93784005006007"
  using Parse_String [of 93784005006007] by (simp add: MaxInt64_def)

end
