(* ===== verification/Policy_Base.thy ===== *)
theory Policy_Base
  imports Durationx
begin

text \<open>
  The vocabulary of \<^verbatim>\<open>internal/policy\<close>: outcomes, blame and error kinds
  (\<^verbatim>\<open>outcome.go\<close>), policy kinds and names (\<^verbatim>\<open>kind.go\<close>) and the validator that
  collects problems (\<^verbatim>\<open>validation.go\<close>).  A check returns the problems it adds, in order; a
  problem keeps its path, its format and the values formatted into it.
\<close>

section \<open>Outcomes\<close>

type_synonym outcome = string
type_synonym blame = string

abbreviation OutcomeSuccess :: outcome where "OutcomeSuccess \<equiv> ''success''"
abbreviation OutcomeEmpty :: outcome where "OutcomeEmpty \<equiv> ''empty''"
abbreviation OutcomeRateLimited :: outcome where "OutcomeRateLimited \<equiv> ''rate_limited''"
abbreviation OutcomeCaptcha :: outcome where "OutcomeCaptcha \<equiv> ''captcha''"
abbreviation OutcomeAuthInvalid :: outcome where "OutcomeAuthInvalid \<equiv> ''auth_invalid''"
abbreviation OutcomeForbidden :: outcome where "OutcomeForbidden \<equiv> ''forbidden''"
abbreviation OutcomeBanned :: outcome where "OutcomeBanned \<equiv> ''banned''"
abbreviation OutcomeProxyError :: outcome where "OutcomeProxyError \<equiv> ''proxy_error''"
abbreviation OutcomeNetworkError :: outcome where "OutcomeNetworkError \<equiv> ''network_error''"
abbreviation OutcomeTargetError :: outcome where "OutcomeTargetError \<equiv> ''target_error''"
abbreviation OutcomeClientError :: outcome where "OutcomeClientError \<equiv> ''client_error''"
abbreviation OutcomeUnknown :: outcome where "OutcomeUnknown \<equiv> ''unknown''"

abbreviation (input) outcomeCount :: nat where "outcomeCount \<equiv> 12"

definition Outcomes :: "outcome list" where
  "Outcomes =
    [OutcomeSuccess, OutcomeEmpty, OutcomeRateLimited, OutcomeCaptcha, OutcomeAuthInvalid, OutcomeForbidden,
     OutcomeBanned, OutcomeProxyError, OutcomeNetworkError, OutcomeTargetError, OutcomeClientError, OutcomeUnknown]"

text \<open>The switch of \<^verbatim>\<open>outcomeIndex\<close> as a table.\<close>

definition outcome_table :: "(outcome \<times> int) list" where
  "outcome_table =
    [(OutcomeSuccess, 0), (OutcomeEmpty, 1), (OutcomeRateLimited, 2), (OutcomeCaptcha, 3),
     (OutcomeAuthInvalid, 4), (OutcomeForbidden, 5), (OutcomeBanned, 6), (OutcomeProxyError, 7),
     (OutcomeNetworkError, 8), (OutcomeTargetError, 9), (OutcomeClientError, 10), (OutcomeUnknown, 11)]"

definition outcomeIndex :: "string \<Rightarrow> int" where
  "outcomeIndex s = (case map_of outcome_table s of Some i \<Rightarrow> i | None \<Rightarrow> -1)"

definition ValidOutcome :: "string \<Rightarrow> bool" where
  "ValidOutcome s \<longleftrightarrow> outcomeIndex s \<ge> 0"

definition IsRiskOutcome :: "string \<Rightarrow> bool" where
  "IsRiskOutcome s \<longleftrightarrow> s \<in> {OutcomeRateLimited, OutcomeCaptcha, OutcomeForbidden, OutcomeBanned}"

definition IsFailureOutcome :: "string \<Rightarrow> bool" where
  "IsFailureOutcome s \<longleftrightarrow>
     s \<in> {OutcomeEmpty, OutcomeRateLimited, OutcomeCaptcha, OutcomeAuthInvalid, OutcomeForbidden, OutcomeBanned}"

abbreviation BlameNone :: blame where "BlameNone \<equiv> ''none''"
abbreviation BlameIdentity :: blame where "BlameIdentity \<equiv> ''identity''"
abbreviation BlameProxy :: blame where "BlameProxy \<equiv> ''proxy''"
abbreviation BlameBoth :: blame where "BlameBoth \<equiv> ''both''"

definition ValidBlame :: "blame \<Rightarrow> bool" where
  "ValidBlame b \<longleftrightarrow> b \<in> {BlameNone, BlameIdentity, BlameProxy, BlameBoth}"

definition DefaultBlame :: "outcome \<Rightarrow> blame" where
  "DefaultBlame outcome =
     (if outcome \<in> {OutcomeEmpty, OutcomeCaptcha, OutcomeAuthInvalid, OutcomeForbidden, OutcomeBanned}
      then BlameIdentity
      else if outcome = OutcomeRateLimited then BlameBoth
      else if outcome \<in> {OutcomeProxyError, OutcomeNetworkError} then BlameProxy
      else BlameNone)"

definition blame_Identity :: "blame \<Rightarrow> bool" where
  "blame_Identity b \<longleftrightarrow> b = BlameIdentity \<or> b = BlameBoth"

definition blame_Proxy :: "blame \<Rightarrow> bool" where
  "blame_Proxy b \<longleftrightarrow> b = BlameProxy \<or> b = BlameBoth"

definition ErrorKinds :: "string list" where
  "ErrorKinds = [''timeout'', ''conn_reset'', ''conn_refused'', ''proxy_auth'', ''tls'', ''dns'', ''other'']"

definition ValidErrorKind :: "string \<Rightarrow> bool" where
  "ValidErrorKind s \<longleftrightarrow> s \<in> set ErrorKinds"

section \<open>Problems and checks\<close>

datatype marg = A_str string | A_int int | A_float f64 | A_dur int

datatype problem = Problem string string "marg list"

record ValidationError =
  ve_Kind :: string
  ve_Name :: string
  ve_Problems :: "problem list"

text \<open>\<^verbatim>\<open>result\<close>: \<open>None\<close> is the nil error.\<close>

definition v_result :: "problem list \<Rightarrow> string \<Rightarrow> string \<Rightarrow> ValidationError option" where
  "v_result problems kind name =
     (if problems = [] then None else Some \<lparr>ve_Kind = kind, ve_Name = name, ve_Problems = problems\<rparr>)"

definition field :: "string \<Rightarrow> string \<Rightarrow> string" where
  "field parent child = (if parent = '''' then child else parent @ ''.'' @ child)"

definition item :: "string \<Rightarrow> nat \<Rightarrow> string" where
  "item parent i = parent @ ''['' @ Itoa (int i) @ '']''"

definition v_duration :: "string \<Rightarrow> int \<Rightarrow> int \<Rightarrow> int \<Rightarrow> problem list" where
  "v_duration path d minD maxD =
     (if IsPermanent d then [Problem path ''must not be permanent'' []]
      else if Std d < minD then
        (if minD = 0 then [Problem path ''must not be negative'' []]
         else [Problem path ''must be at least %s (got %s)'' [A_dur minD, A_dur d]])
      else if maxD > 0 \<and> Std d > maxD then
        [Problem path ''must be at most %s (got %s)'' [A_dur maxD, A_dur d]]
      else [])"

definition v_intRange :: "string \<Rightarrow> int \<Rightarrow> int \<Rightarrow> int \<Rightarrow> problem list" where
  "v_intRange path n lo hi =
     (if n < lo \<or> n > hi
      then [Problem path ''must be between %d and %d (got %d)'' [A_int lo, A_int hi, A_int n]] else [])"

definition v_minInt :: "string \<Rightarrow> int \<Rightarrow> int \<Rightarrow> problem list" where
  "v_minInt path n lo =
     (if n < lo then [Problem path ''must be at least %d (got %d)'' [A_int lo, A_int n]] else [])"

definition v_ratio :: "string \<Rightarrow> f64 \<Rightarrow> bool \<Rightarrow> problem list" where
  "v_ratio path f openLow =
     (if openLow then
        (if \<not> (f_lt (Fin 0) f \<and> f_le f (Fin 1))
         then [Problem path ''must be greater than 0 and at most 1 (got %v)'' [A_float f]] else [])
      else if \<not> (f_le (Fin 0) f \<and> f_le f (Fin 1))
      then [Problem path ''must be between 0 and 1 (got %v)'' [A_float f]] else [])"

definition v_score :: "string \<Rightarrow> f64 \<Rightarrow> problem list" where
  "v_score path f =
     (if \<not> (f_le (Fin 0) f \<and> f_le f (Fin 100))
      then [Problem path ''must be between 0 and 100 (got %v)'' [A_float f]] else [])"

definition v_enum :: "string \<Rightarrow> string \<Rightarrow> string list \<Rightarrow> problem list" where
  "v_enum path v allowed =
     (if v \<in> set allowed then []
      else [Problem path ''must be one of %s (got %q)'' [A_str (join ''|'' allowed), A_str v]])"

text \<open>\<^verbatim>\<open>stringList\<close>: the loop carries the index and the values seen; a nil list is \<open>None\<close>.\<close>

fun string_items :: "string \<Rightarrow> (string \<Rightarrow> string \<Rightarrow> problem list) \<Rightarrow> nat \<Rightarrow> string set \<Rightarrow> string list \<Rightarrow> problem list" where
  "string_items path check i seen [] = []"
| "string_items path check i seen (s # ss) =
     (let p = item path i in
      if s = '''' then Problem p ''must not be empty'' [] # string_items path check (Suc i) seen ss
      else if length s > 256 then
        Problem p ''must be at most 256 characters'' [] # string_items path check (Suc i) seen ss
      else if s \<in> seen then
        Problem p ''duplicate value %q'' [A_str s] # string_items path check (Suc i) seen ss
      else check p s @ string_items path check (Suc i) (insert s seen) ss)"

definition v_stringList :: "string \<Rightarrow> string list option \<Rightarrow> (string \<Rightarrow> string \<Rightarrow> problem list) \<Rightarrow> problem list" where
  "v_stringList path l check =
     (case l of
        None \<Rightarrow> []
      | Some ss \<Rightarrow> if ss = [] then [Problem path ''must not be empty'' []] else string_items path check 0 {} ss)"

abbreviation no_check :: "string \<Rightarrow> string \<Rightarrow> problem list" where
  "no_check \<equiv> \<lambda>p s. []"

section \<open>Kinds, names and bind blocks\<close>

abbreviation KindRotation :: string where "KindRotation \<equiv> ''rotation''"
abbreviation KindSignal :: string where "KindSignal \<equiv> ''signal''"
abbreviation KindAction :: string where "KindAction \<equiv> ''action''"
abbreviation KindBreaker :: string where "KindBreaker \<equiv> ''breaker''"

abbreviation (input) MaxNameLength :: nat where "MaxNameLength \<equiv> 64"
abbreviation (input) MaxExtendsDepth :: nat where "MaxExtendsDepth \<equiv> 5"
abbreviation (input) maxBindingFieldLength :: nat where "maxBindingFieldLength \<equiv> 128"

definition ValidKind :: "string \<Rightarrow> bool" where
  "ValidKind k \<longleftrightarrow> k \<in> {KindRotation, KindSignal, KindAction, KindBreaker}"

definition DefaultPolicyName :: "string \<Rightarrow> string" where
  "DefaultPolicyName kind = (if \<not> ValidKind kind then '''' else ''default-'' @ kind)"

record Binding =
  bind_Site :: string
  bind_Client :: string
  bind_EndpointGroup :: string

definition name_char :: "bool \<Rightarrow> char \<Rightarrow> bool" where
  "name_char first c \<longleftrightarrow>
     97 \<le> byte c \<and> byte c \<le> 122 \<or> 48 \<le> byte c \<and> byte c \<le> 57 \<or>
     \<not> first \<and> (c = CHR ''.'' \<or> c = CHR ''_'' \<or> c = CHR ''-'')"

definition ValidName :: "string \<Rightarrow> bool" where
  "ValidName s =
     (if length s = 0 \<or> length s > MaxNameLength then False
      else name_char True (hd s) \<and> list_all (name_char False) (tl s))"

abbreviation name_pattern :: string where
  "name_pattern \<equiv> ''must match ^[a-z0-9][a-z0-9._-]{0,63}$ (got %q)''"

definition bind_field :: "string \<times> string \<Rightarrow> problem list" where
  "bind_field f =
     (if length (snd f) > maxBindingFieldLength
      then [Problem (fst f) ''must be at most %d characters'' [A_int (int maxBindingFieldLength)]] else [])"

definition validateCommon :: "string \<Rightarrow> string \<Rightarrow> Binding option \<Rightarrow> problem list" where
  "validateCommon name description bind =
     (if name = '''' then [Problem ''name'' ''is required'' []]
      else if \<not> ValidName name then [Problem ''name'' name_pattern [A_str name]] else []) @
     (if length description > 1024
      then [Problem ''description'' ''must be at most 1024 characters'' []] else []) @
     (case bind of
        None \<Rightarrow> []
      | Some b \<Rightarrow>
          (if bind_Site b = '''' then [Problem ''bind.site'' ''is required when bind is set'' []] else []) @
          concat (map bind_field
            [(''bind.site'', bind_Site b), (''bind.client'', bind_Client b),
             (''bind.endpoint_group'', bind_EndpointGroup b)]))"

definition validateExtends :: "string \<Rightarrow> string \<Rightarrow> problem list" where
  "validateExtends name extends =
     (if extends = '''' then []
      else if \<not> ValidName extends then [Problem ''extends'' name_pattern [A_str extends]]
      else if extends = name then [Problem ''extends'' ''a policy cannot extend itself'' []]
      else [])"

text \<open>
  \<^verbatim>\<open>validateRuleName\<close> for one rule: the problems and the table of names seen, with the
  index each was first used at.
\<close>

definition validateRuleName ::
    "string \<Rightarrow> string \<Rightarrow> nat \<Rightarrow> (string \<times> nat) list \<Rightarrow> problem list \<times> (string \<times> nat) list" where
  "validateRuleName path name i seen =
     (if name = '''' then ([], seen)
      else if \<not> ValidName name then ([Problem (field path ''name'') name_pattern [A_str name]], seen)
      else
        (case map_of seen name of
           Some prev \<Rightarrow>
             ([Problem (field path ''name'') ''duplicates the name of rules[%d] (%q)'' [A_int (int prev), A_str name]], seen)
         | None \<Rightarrow> ([], (name, i) # seen)))"

section \<open>Setters of defaults\<close>

definition setString :: "string \<Rightarrow> string \<Rightarrow> string" where
  "setString v def = (if v = '''' then def else v)"

definition setInt :: "int \<Rightarrow> int \<Rightarrow> int" where
  "setInt v def = (if v = 0 then def else v)"

definition setDuration :: "int \<Rightarrow> int \<Rightarrow> int" where
  "setDuration v def = (if v = 0 then def else v)"

definition nilIfEmpty :: "string list option \<Rightarrow> string list option" where
  "nilIfEmpty l = (case l of Some [] \<Rightarrow> None | _ \<Rightarrow> l)"

section \<open>Facts\<close>

lemma outcome_table_indices:
  "\<forall>(s, i) \<in> set outcome_table. 0 \<le> i \<and> i < 12 \<and> Outcomes ! nat i = s"
  by code_simp

lemma outcomeIndex_valid:
  assumes "0 \<le> outcomeIndex s"
  shows "outcomeIndex s < 12" and "Outcomes ! nat (outcomeIndex s) = s"
proof -
  obtain i where "map_of outcome_table s = Some i" "outcomeIndex s = i"
    using assms by (auto simp: outcomeIndex_def split: option.splits)
  with outcome_table_indices map_of_SomeD [of outcome_table s i]
  show "outcomeIndex s < 12" "Outcomes ! nat (outcomeIndex s) = s" by auto
qed

lemma outcomeIndex_inj: "0 \<le> outcomeIndex s \<Longrightarrow> outcomeIndex s = outcomeIndex t \<Longrightarrow> s = t"
  by (metis outcomeIndex_valid(2))

end
