(* ===== verification/Policy_Signal.thy ===== *)
theory Policy_Signal
  imports Policy_Base "HOL-Library.Word"
begin

text \<open>
  Signal policies: \<^verbatim>\<open>internal/policy/signal.go\<close> (the rules and their validation), the
  matchers they use (\<^verbatim>\<open>matchers.go\<close>) and the compiled classifier (\<^verbatim>\<open>classify.go\<close>).  The
  regular expression engine is a parameter \<open>re\<close>: it maps a pattern to the error of
  \<^verbatim>\<open>regexp.Compile\<close> or to the predicate \<^verbatim>\<open>MatchString\<close> of the compiled expression.
\<close>

unbundle bit_operations_syntax

type_synonym regexps = "string \<Rightarrow> string + (string \<Rightarrow> bool)"

section \<open>Matchers\<close>

abbreviation (input) maxRangeBound :: int where "maxRangeBound \<equiv> 4611686018427387904"
abbreviation (input) maxHTTPStatus :: int where "maxHTTPStatus \<equiv> 999"
abbreviation (input) maxURIPatternLen :: nat where "maxURIPatternLen \<equiv> 1024"

record IntRange =
  Gte :: "int option"
  Gt :: "int option"
  Lte :: "int option"
  Lt :: "int option"

definition Bounds :: "IntRange \<Rightarrow> int \<times> int" where
  "Bounds r =
     (let lo = (case Gte r of Some b \<Rightarrow> b | None \<Rightarrow> MinInt64) in
      if Gt r = Some MaxInt64 then (MaxInt64, MinInt64)
      else let lo = (case Gt r of Some b \<Rightarrow> wrap64 (b + 1) | None \<Rightarrow> lo);
               hi = (case Lte r of Some b \<Rightarrow> b | None \<Rightarrow> MaxInt64) in
      if Lt r = Some MinInt64 then (MaxInt64, MinInt64)
      else (lo, case Lt r of Some b \<Rightarrow> wrap64 (b - 1) | None \<Rightarrow> hi))"

definition range_Contains :: "IntRange \<Rightarrow> int \<Rightarrow> bool" where
  "range_Contains r v = (let (lo, hi) = Bounds r in v \<ge> lo \<and> v \<le> hi)"

definition bound_problem :: "string \<Rightarrow> int \<Rightarrow> int \<Rightarrow> string \<times> int option \<Rightarrow> problem list" where
  "bound_problem path minV maxV b =
     (case snd b of
        None \<Rightarrow> []
      | Some x \<Rightarrow>
          if maxV \<ge> maxRangeBound \<and> x < minV then
            [Problem (field path (fst b)) ''must be at least %d (got %d)'' [A_int minV, A_int x]]
          else if maxV \<ge> maxRangeBound \<and> x > maxV then
            [Problem (field path (fst b)) ''must be at most 2^62 (got %d)'' [A_int x]]
          else if x < minV \<or> x > maxV then
            [Problem (field path (fst b)) ''must be between %d and %d (got %d)'' [A_int minV, A_int maxV, A_int x]]
          else [])"

definition range_bounds_validate :: "IntRange \<Rightarrow> string \<Rightarrow> int \<Rightarrow> int \<Rightarrow> problem list" where
  "range_bounds_validate r path minV maxV =
     concat (map (bound_problem path minV maxV) [(''gte'', Gte r), (''gt'', Gt r), (''lte'', Lte r), (''lt'', Lt r)])"

definition range_validate :: "IntRange \<Rightarrow> string \<Rightarrow> int \<Rightarrow> int \<Rightarrow> problem list" where
  "range_validate r path minV maxV =
     (if Gte r = None \<and> Gt r = None \<and> Lte r = None \<and> Lt r = None
      then [Problem path ''must set at least one of gte, gt, lte, lt'' []]
      else
        (if Gte r \<noteq> None \<and> Gt r \<noteq> None then [Problem path ''gte and gt are mutually exclusive'' []] else []) @
        (if Lte r \<noteq> None \<and> Lt r \<noteq> None then [Problem path ''lte and lt are mutually exclusive'' []] else []) @
        (let bs = range_bounds_validate r path minV maxV in
         bs @
         (if bs \<noteq> [] then []
          else let (lo, hi) = Bounds r; lo = (if lo < minV then minV else lo); hi = (if hi > maxV then maxV else hi) in
               if lo > hi then [Problem path ''describes an empty range'' []] else [])))"

record IntMatcher =
  im_Values :: "int list"
  im_Range :: "IntRange option"

record URIMatcher =
  um_Prefix :: string
  um_Regex :: string

section \<open>Signal policies\<close>

record SignalWhen =
  sw_HTTPStatus :: "IntMatcher option"
  sw_BusinessCode :: "string list option"
  sw_ErrorKind :: "string list option"
  sw_Markers :: "string list option"
  sw_URI :: "URIMatcher option"
  sw_Method :: "string list option"
  sw_LatencyMs :: "IntRange option"
  sw_ResponseBytes :: "IntRange option"

record SignalRule =
  sr_Name :: string
  sr_When :: SignalWhen
  sr_Outcome :: outcome
  sr_Blame :: blame

record SignalSpec =
  ss_Name :: string
  ss_Description :: string
  ss_Bind :: "Binding option"
  ss_Extends :: string
  ss_TrustOutcomeHint :: bool
  ss_Rules :: "SignalRule list"

definition ascii_letter :: "char \<Rightarrow> bool" where
  "ascii_letter c \<longleftrightarrow> 65 \<le> byte c \<and> byte c \<le> 90 \<or> 97 \<le> byte c \<and> byte c \<le> 122"

definition validMethodToken :: "string \<Rightarrow> bool" where
  "validMethodToken m = (if m = '''' \<or> length m > 16 then False else list_all ascii_letter m)"

fun status_values :: "string \<Rightarrow> nat \<Rightarrow> int list \<Rightarrow> problem list" where
  "status_values p i [] = []"
| "status_values p i (code # codes) =
     (if code < 0 \<or> code > maxHTTPStatus
      then [Problem (item p i) ''must be between 0 and %d (got %d)'' [A_int maxHTTPStatus, A_int code]] else []) @
     status_values p (Suc i) codes"

definition status_validate :: "IntMatcher \<Rightarrow> string \<Rightarrow> problem list" where
  "status_validate m p =
     (case im_Range m of
        Some r \<Rightarrow>
          (let ps = range_validate r p 0 maxHTTPStatus in
           ps @
           (if ps = [] \<and> snd (Bounds r) < 1
            then [Problem p ''never matches: a range only matches reported statuses (use [0] to match a missing status)'' []]
            else []))
      | None \<Rightarrow> if im_Values m = [] then [Problem p ''must not be empty'' []] else []) @
     status_values p 0 (im_Values m)"

definition uri_validate :: "regexps \<Rightarrow> URIMatcher \<Rightarrow> string \<Rightarrow> problem list" where
  "uri_validate re u p =
     (if um_Prefix u = '''' \<and> um_Regex u = '''' then [Problem p ''must set prefix or regex'' []]
      else if um_Prefix u \<noteq> '''' \<and> um_Regex u \<noteq> '''' then [Problem p ''prefix and regex are mutually exclusive'' []]
      else if um_Prefix u \<noteq> '''' then
        (if \<not> has_prefix (um_Prefix u) ''/'' then [Problem (field p ''prefix'') ''must start with /'' []] else []) @
        (if length (um_Prefix u) > maxURIPatternLen
         then [Problem (field p ''prefix'') ''must be at most %d characters'' [A_int (int maxURIPatternLen)]] else [])
      else if length (um_Regex u) > maxURIPatternLen
      then [Problem (field p ''regex'') ''must be at most %d characters'' [A_int (int maxURIPatternLen)]]
      else (case re (um_Regex u) of
              Inl err \<Rightarrow> [Problem (field p ''regex'') ''invalid regular expression: %v'' [A_str err]]
            | Inr _ \<Rightarrow> []))"

definition opt_validate :: "'a option \<Rightarrow> ('a \<Rightarrow> problem list) \<Rightarrow> problem list" where
  "opt_validate x f = (case x of None \<Rightarrow> [] | Some y \<Rightarrow> f y)"

definition error_kind_check :: "string \<Rightarrow> string \<Rightarrow> problem list" where
  "error_kind_check p kind =
     (if \<not> ValidErrorKind kind
      then [Problem p ''must be one of %s (got %q)'' [A_str (join ''|'' ErrorKinds), A_str kind]] else [])"

definition method_check :: "string \<Rightarrow> string \<Rightarrow> problem list" where
  "method_check p m =
     (if \<not> validMethodToken m then [Problem p ''must be an HTTP method token (got %q)'' [A_str m]] else [])"

definition when_validate :: "regexps \<Rightarrow> SignalWhen \<Rightarrow> string \<Rightarrow> problem list" where
  "when_validate re w path =
     opt_validate (sw_HTTPStatus w) (\<lambda>m. status_validate m (field path ''http_status'')) @
     v_stringList (field path ''business_code'') (sw_BusinessCode w) no_check @
     v_stringList (field path ''error_kind'') (sw_ErrorKind w) error_kind_check @
     v_stringList (field path ''markers'') (sw_Markers w) no_check @
     opt_validate (sw_URI w) (\<lambda>u. uri_validate re u (field path ''uri'')) @
     v_stringList (field path ''method'') (sw_Method w) method_check @
     opt_validate (sw_LatencyMs w) (\<lambda>r. range_validate r (field path ''latency_ms'') 0 maxRangeBound) @
     opt_validate (sw_ResponseBytes w) (\<lambda>r. range_validate r (field path ''response_bytes'') 0 maxRangeBound)"

definition outcome_check :: "string \<Rightarrow> outcome \<Rightarrow> problem list" where
  "outcome_check path out =
     (if out = '''' then [Problem (field path ''outcome'') ''is required'' []]
      else if \<not> ValidOutcome out
      then [Problem (field path ''outcome'') ''must be one of %s (got %q)'' [A_str (join ''|'' Outcomes), A_str out]]
      else [])"

fun signal_rules_validate :: "regexps \<Rightarrow> nat \<Rightarrow> (string \<times> nat) list \<Rightarrow> SignalRule list \<Rightarrow> problem list" where
  "signal_rules_validate re i names [] = []"
| "signal_rules_validate re i names (r # rs) =
     (let path = item ''rules'' i;
          (ps, names') = validateRuleName path (sr_Name r) i names in
      ps @ outcome_check path (sr_Outcome r) @
      (if sr_Blame r \<noteq> '''' \<and> \<not> ValidBlame (sr_Blame r)
       then [Problem (field path ''blame'') ''must be one of none|identity|proxy|both (got %q)'' [A_str (sr_Blame r)]]
       else []) @
      when_validate re (sr_When r) (field path ''when'') @
      signal_rules_validate re (Suc i) names' rs)"

definition SignalSpec_Validate :: "regexps \<Rightarrow> SignalSpec option \<Rightarrow> ValidationError option" where
  "SignalSpec_Validate re spec =
     (case spec of
        None \<Rightarrow> Some \<lparr>ve_Kind = KindSignal, ve_Name = '''', ve_Problems = [Problem '''' ''spec is nil'' []]\<rparr>
      | Some s \<Rightarrow>
          v_result
            (validateCommon (ss_Name s) (ss_Description s) (ss_Bind s) @
             validateExtends (ss_Name s) (ss_Extends s) @
             signal_rules_validate re 0 [] (ss_Rules s))
            KindSignal (ss_Name s))"

section \<open>Compiled classifiers\<close>

record ReportFacts =
  rf_URI :: string
  rf_Method :: string
  rf_HTTPStatus :: int
  rf_BusinessCode :: string
  rf_ErrorKind :: string
  rf_Markers :: "string list"
  rf_OutcomeHint :: string
  rf_LatencyMs :: int
  rf_ResponseBytes :: int

record Classification =
  cl_Outcome :: outcome
  cl_Blame :: blame
  cl_RuleIndex :: int
  cl_RuleName :: string

datatype statusMode = statusAny | statusList | statusRange

record int64Range =
  r_set :: bool
  r_lo :: int
  r_hi :: int

definition r_contains :: "int64Range \<Rightarrow> int \<Rightarrow> bool" where
  "r_contains r v \<longleftrightarrow> v \<ge> r_lo r \<and> v \<le> r_hi r"

definition newInt64Range :: "IntRange option \<Rightarrow> int64Range" where
  "newInt64Range r =
     (case r of
        None \<Rightarrow> \<lparr>r_set = False, r_lo = 0, r_hi = 0\<rparr>
      | Some r \<Rightarrow> let (lo, hi) = Bounds r in \<lparr>r_set = True, r_lo = lo, r_hi = hi\<rparr>)"

record signalMatcher =
  sm_name :: string
  sm_outcome :: outcome
  sm_blame :: blame
  sm_status :: statusMode
  sm_statusBits :: "64 word list"
  sm_statusRange :: int64Range
  sm_businessCodes :: "string list option"
  sm_errorKinds :: "string list option"
  sm_markers :: "string list option"
  sm_methods :: "string list option"
  sm_uriPrefix :: string
  sm_uriRegex :: "(string \<Rightarrow> bool) option"
  sm_latency :: int64Range
  sm_bytes :: int64Range

record CompiledSignal =
  cs_trustHint :: bool
  cs_rules :: "signalMatcher list"

datatype compile_error =
    Empty_chain
  | Nil_element nat
  | Invalid_policy string ValidationError
  | Bad_regex string nat string

definition ruleLabel :: "string \<Rightarrow> nat \<Rightarrow> string \<Rightarrow> string" where
  "ruleLabel policyName i name =
     (if name \<noteq> '''' then name else policyName @ ''.rules['' @ Itoa (int i) @ '']'')"

definition set_status_bit :: "64 word list \<Rightarrow> int \<Rightarrow> 64 word list" where
  "set_status_bit bits code =
     (if code \<ge> 0 \<and> code < int (length bits * 64)
      then bits[nat (drop_bit 6 code) := bits ! nat (drop_bit 6 code) OR push_bit (nat (code AND 63)) 1]
      else bits)"

definition compileSignalRule :: "regexps \<Rightarrow> string \<Rightarrow> nat \<Rightarrow> SignalRule \<Rightarrow> compile_error + signalMatcher" where
  "compileSignalRule re policyName i r =
     (let w = sr_When r;
          m = \<lparr>sm_name = ruleLabel policyName i (sr_Name r), sm_outcome = sr_Outcome r,
               sm_blame = (if sr_Blame r = '''' then DefaultBlame (sr_Outcome r) else sr_Blame r),
               sm_status =
                 (case sw_HTTPStatus w of None \<Rightarrow> statusAny
                  | Some hs \<Rightarrow> if im_Range hs \<noteq> None then statusRange else statusList),
               sm_statusBits =
                 (case sw_HTTPStatus w of None \<Rightarrow> replicate 16 0
                  | Some hs \<Rightarrow> if im_Range hs \<noteq> None then replicate 16 0
                             else foldl set_status_bit (replicate 16 0) (im_Values hs)),
               sm_statusRange =
                 (case sw_HTTPStatus w of None \<Rightarrow> newInt64Range None | Some hs \<Rightarrow> newInt64Range (im_Range hs)),
               sm_businessCodes = sw_BusinessCode w, sm_errorKinds = sw_ErrorKind w,
               sm_markers = sw_Markers w, sm_methods = sw_Method w, sm_uriPrefix = '''', sm_uriRegex = None,
               sm_latency = newInt64Range (sw_LatencyMs w), sm_bytes = newInt64Range (sw_ResponseBytes w)\<rparr> in
      case sw_URI w of
        None \<Rightarrow> Inr m
      | Some u \<Rightarrow>
          if um_Regex u \<noteq> '''' then
            (case re (um_Regex u) of
               Inl err \<Rightarrow> Inl (Bad_regex policyName i err)
             | Inr f \<Rightarrow> Inr (m\<lparr>sm_uriRegex := Some f\<rparr>))
          else Inr (m\<lparr>sm_uriPrefix := um_Prefix u\<rparr>))"

fun compileSignalRules :: "regexps \<Rightarrow> string \<Rightarrow> nat \<Rightarrow> SignalRule list \<Rightarrow> compile_error + signalMatcher list" where
  "compileSignalRules re policyName i [] = Inr []"
| "compileSignalRules re policyName i (r # rs) =
     (case compileSignalRule re policyName i r of
        Inl e \<Rightarrow> Inl e
      | Inr m \<Rightarrow>
          (case compileSignalRules re policyName (Suc i) rs of Inl e \<Rightarrow> Inl e | Inr ms \<Rightarrow> Inr (m # ms)))"

fun compileSignalSpecs :: "regexps \<Rightarrow> SignalSpec list \<Rightarrow> compile_error + signalMatcher list" where
  "compileSignalSpecs re [] = Inr []"
| "compileSignalSpecs re (s # ss) =
     (case compileSignalRules re (ss_Name s) 0 (ss_Rules s) of
        Inl e \<Rightarrow> Inl e
      | Inr ms \<Rightarrow> (case compileSignalSpecs re ss of Inl e \<Rightarrow> Inl e | Inr ms' \<Rightarrow> Inr (ms @ ms')))"

fun check_signal_chain :: "regexps \<Rightarrow> nat \<Rightarrow> SignalSpec option list \<Rightarrow> compile_error + SignalSpec list" where
  "check_signal_chain re i [] = Inr []"
| "check_signal_chain re i (None # ss) = Inl (Nil_element i)"
| "check_signal_chain re i (Some s # ss) =
     (case SignalSpec_Validate re (Some s) of
        Some e \<Rightarrow> Inl (Invalid_policy (ss_Name s) e)
      | None \<Rightarrow> (case check_signal_chain re (Suc i) ss of Inl e \<Rightarrow> Inl e | Inr l \<Rightarrow> Inr (s # l)))"

definition CompileSignal :: "regexps \<Rightarrow> SignalSpec option list \<Rightarrow> compile_error + CompiledSignal" where
  "CompileSignal re chain =
     (if chain = [] then Inl Empty_chain
      else case check_signal_chain re 0 chain of
        Inl e \<Rightarrow> Inl e
      | Inr specs \<Rightarrow>
          (case compileSignalSpecs re specs of
             Inl e \<Rightarrow> Inl e
           | Inr ms \<Rightarrow> Inr \<lparr>cs_trustHint = ss_TrustOutcomeHint (last specs), cs_rules = ms\<rparr>))"

definition containsString :: "string list \<Rightarrow> string \<Rightarrow> bool" where
  "containsString l s = (if s = '''' then False else s \<in> set l)"

definition containsFold :: "string list \<Rightarrow> string \<Rightarrow> bool" where
  "containsFold l s = (if s = '''' then False else list_ex (\<lambda>v. EqualFold v s) l)"

definition anyMarker :: "string list \<Rightarrow> string list \<Rightarrow> bool" where
  "anyMarker ruleMarkers reported = list_ex (containsString ruleMarkers) reported"

definition status_matches :: "signalMatcher \<Rightarrow> int \<Rightarrow> bool" where
  "status_matches m code =
     (case sm_status m of
        statusAny \<Rightarrow> True
      | statusList \<Rightarrow>
          \<not> (code < 0 \<or> code \<ge> int (length (sm_statusBits m) * 64) \<or>
             sm_statusBits m ! nat (drop_bit 6 code) AND push_bit (nat (code AND 63)) 1 = 0)
      | statusRange \<Rightarrow> \<not> (code \<le> 0 \<or> \<not> r_contains (sm_statusRange m) code))"

abbreviation unless_nil :: "'a option \<Rightarrow> ('a \<Rightarrow> bool) \<Rightarrow> bool" where
  "unless_nil x P \<equiv> (case x of None \<Rightarrow> True | Some y \<Rightarrow> P y)"

definition matches :: "signalMatcher \<Rightarrow> ReportFacts \<Rightarrow> bool" where
  "matches m f \<longleftrightarrow>
     status_matches m (rf_HTTPStatus f) \<and>
     unless_nil (sm_errorKinds m) (\<lambda>l. containsString l (rf_ErrorKind f)) \<and>
     unless_nil (sm_businessCodes m) (\<lambda>l. containsString l (rf_BusinessCode f)) \<and>
     unless_nil (sm_markers m) (\<lambda>l. anyMarker l (rf_Markers f)) \<and>
     unless_nil (sm_methods m) (\<lambda>l. containsFold l (rf_Method f)) \<and>
     \<not> (sm_uriPrefix m \<noteq> '''' \<and> \<not> has_prefix (rf_URI f) (sm_uriPrefix m)) \<and>
     unless_nil (sm_uriRegex m) (\<lambda>g. g (rf_URI f)) \<and>
     \<not> (r_set (sm_latency m) \<and> \<not> r_contains (sm_latency m) (rf_LatencyMs f)) \<and>
     \<not> (r_set (sm_bytes m) \<and> \<not> r_contains (sm_bytes m) (rf_ResponseBytes f))"

fun first_match :: "nat \<Rightarrow> signalMatcher list \<Rightarrow> ReportFacts \<Rightarrow> Classification option" where
  "first_match i [] f = None"
| "first_match i (m # ms) f =
     (if matches m f
      then Some \<lparr>cl_Outcome = sm_outcome m, cl_Blame = sm_blame m, cl_RuleIndex = int i, cl_RuleName = sm_name m\<rparr>
      else first_match (Suc i) ms f)"

definition unmatched :: "outcome \<Rightarrow> Classification" where
  "unmatched out = \<lparr>cl_Outcome = out, cl_Blame = DefaultBlame out, cl_RuleIndex = -1, cl_RuleName = ''''\<rparr>"

definition Classify :: "CompiledSignal option \<Rightarrow> ReportFacts \<Rightarrow> Classification" where
  "Classify c f =
     (case c of
        None \<Rightarrow> unmatched OutcomeUnknown
      | Some c \<Rightarrow>
          (case first_match 0 (cs_rules c) f of
             Some r \<Rightarrow> r
           | None \<Rightarrow>
               if cs_trustHint c \<and> ValidOutcome (rf_OutcomeHint f) then unmatched (rf_OutcomeHint f)
               else unmatched OutcomeUnknown))"

definition RuleCount :: "CompiledSignal option \<Rightarrow> nat" where
  "RuleCount c = (case c of None \<Rightarrow> 0 | Some c \<Rightarrow> length (cs_rules c))"

definition TrustOutcomeHint :: "CompiledSignal option \<Rightarrow> bool" where
  "TrustOutcomeHint c = (case c of None \<Rightarrow> False | Some c \<Rightarrow> cs_trustHint c)"

end
