(* ===== verification/Policy_Signal_Laws.thy ===== *)
theory Policy_Signal_Laws
  imports Policy_Signal
begin

text \<open>
  What a signal policy means, stated over its conditions alone, and that the compiled classifier
  (status bitmaps, precomputed intervals, one pass over the concatenated chain) implements it;
  when compilation fails; and the type of a classification.
\<close>

unbundle bit_operations_syntax

section \<open>What a rule means\<close>

definition in_range :: "IntRange \<Rightarrow> int \<Rightarrow> bool" where
  "in_range r v \<longleftrightarrow>
     (\<forall>b. Gte r = Some b \<longrightarrow> b \<le> v) \<and> (\<forall>b. Gt r = Some b \<longrightarrow> b < v) \<and>
     (\<forall>b. Lte r = Some b \<longrightarrow> v \<le> b) \<and> (\<forall>b. Lt r = Some b \<longrightarrow> v < b)"

definition status_holds :: "IntMatcher \<Rightarrow> int \<Rightarrow> bool" where
  "status_holds m code =
     (case im_Range m of None \<Rightarrow> code \<in> set (im_Values m) | Some r \<Rightarrow> 0 < code \<and> in_range r code)"

definition uri_holds :: "regexps \<Rightarrow> URIMatcher \<Rightarrow> string \<Rightarrow> bool" where
  "uri_holds re u uri \<longleftrightarrow>
     (if um_Regex u = '''' then has_prefix uri (um_Prefix u) else \<exists>g. re (um_Regex u) = Inr g \<and> g uri)"

definition rule_holds :: "regexps \<Rightarrow> SignalWhen \<Rightarrow> ReportFacts \<Rightarrow> bool" where
  "rule_holds re w f \<longleftrightarrow>
     unless_nil (sw_HTTPStatus w) (\<lambda>m. status_holds m (rf_HTTPStatus f)) \<and>
     unless_nil (sw_BusinessCode w) (\<lambda>l. rf_BusinessCode f \<in> set l) \<and>
     unless_nil (sw_ErrorKind w) (\<lambda>l. rf_ErrorKind f \<in> set l) \<and>
     unless_nil (sw_Markers w) (\<lambda>l. set (rf_Markers f) \<inter> set l \<noteq> {}) \<and>
     unless_nil (sw_URI w) (\<lambda>u. uri_holds re u (rf_URI f)) \<and>
     unless_nil (sw_Method w) (\<lambda>l. \<exists>m \<in> set l. EqualFold m (rf_Method f)) \<and>
     unless_nil (sw_LatencyMs w) (\<lambda>r. in_range r (rf_LatencyMs f)) \<and>
     unless_nil (sw_ResponseBytes w) (\<lambda>r. in_range r (rf_ResponseBytes f))"

text \<open>The values of the integer fields of a report fit their Go types.\<close>

definition facts_typed :: "ReportFacts \<Rightarrow> bool" where
  "facts_typed f \<longleftrightarrow> in64 (rf_HTTPStatus f) \<and> in64 (rf_LatencyMs f) \<and> in64 (rf_ResponseBytes f)"

section \<open>Consequences of validation\<close>

lemma bound_problem_Nil:
  "bound_problem p lo hi (n, b) = [] \<longleftrightarrow> (\<forall>x. b = Some x \<longrightarrow> lo \<le> x \<and> x \<le> hi)"
  by (auto simp: bound_problem_def split: option.splits)

lemma range_validate_Nil:
  assumes "range_validate r p lo hi = []"
  shows "Gte r = None \<or> Gt r = None" and "Lte r = None \<or> Lt r = None"
    and "range_bounds_validate r p lo hi = []"
  using assms by (auto simp: range_validate_def Let_def split: if_splits)

lemma range_validate_bounds:
  assumes "range_validate r p lo hi = []"
  shows "Gte r = Some b \<Longrightarrow> lo \<le> b \<and> b \<le> hi" and "Gt r = Some b \<Longrightarrow> lo \<le> b \<and> b \<le> hi"
    and "Lte r = Some b \<Longrightarrow> lo \<le> b \<and> b \<le> hi" and "Lt r = Some b \<Longrightarrow> lo \<le> b \<and> b \<le> hi"
  using range_validate_Nil(3) [OF assms] by (auto simp: range_bounds_validate_def bound_problem_Nil)

lemma Contains_in_range:
  assumes v: "range_validate r p lo hi = []" and "0 \<le> lo" "hi \<le> maxRangeBound" and x: "in64 x"
  shows "fst (Bounds r) \<le> x \<and> x \<le> snd (Bounds r) \<longleftrightarrow> in_range r x"
proof -
  have sm: "in64 (b + 1)" "in64 (b - 1)" "b \<noteq> MaxInt64" "b \<noteq> MinInt64" if "lo \<le> b \<and> b \<le> hi" for b
    using that assms by (auto simp: in64_def MinInt64_def MaxInt64_def)
  have gt: "in64 (b + 1)" "b \<noteq> MaxInt64" if "Gt r = Some b" for b
    using sm range_validate_bounds(2) [OF v that] by auto
  have lt: "in64 (b - 1)" "b \<noteq> MinInt64" if "Lt r = Some b" for b
    using sm range_validate_bounds(4) [OF v that] by auto
  have "Gt r \<noteq> Some MaxInt64" "Lt r \<noteq> Some MinInt64" using gt lt by auto
  then have B: "Bounds r =
      (case Gt r of Some b \<Rightarrow> b + 1 | None \<Rightarrow> (case Gte r of Some b \<Rightarrow> b | None \<Rightarrow> MinInt64),
       case Lt r of Some b \<Rightarrow> b - 1 | None \<Rightarrow> (case Lte r of Some b \<Rightarrow> b | None \<Rightarrow> MaxInt64))"
    using gt(1) lt(1) by (auto simp: Bounds_def Let_def split: option.splits)
  have x': "MinInt64 \<le> x" "x \<le> MaxInt64" using x by (auto simp: in64_def)
  have "fst (Bounds r) \<le> x \<longleftrightarrow> (\<forall>b. Gte r = Some b \<longrightarrow> b \<le> x) \<and> (\<forall>b. Gt r = Some b \<longrightarrow> b < x)"
    using range_validate_Nil(1) [OF v] x' by (auto simp: B split: option.splits)
  moreover have "x \<le> snd (Bounds r) \<longleftrightarrow> (\<forall>b. Lte r = Some b \<longrightarrow> x \<le> b) \<and> (\<forall>b. Lt r = Some b \<longrightarrow> x < b)"
    using range_validate_Nil(2) [OF v] x' by (auto simp: B split: option.splits)
  ultimately show ?thesis by (auto simp: in_range_def)
qed

lemma string_items_Nil:
  "string_items path check i seen ss = [] \<Longrightarrow>
   '''' \<notin> set ss \<and> distinct ss \<and> set ss \<inter> seen = {} \<and> (\<forall>s \<in> set ss. \<exists>p. check p s = [])"
proof (induction ss arbitrary: i seen)
  case (Cons s ss)
  from Cons.prems have *: "s \<noteq> ''''" "s \<notin> seen" "check (item path i) s = []"
      "string_items path check (Suc i) (insert s seen) ss = []"
    by (auto simp: Let_def split: if_splits)
  with Cons.IH [OF *(4)] show ?case by auto
qed simp

lemma v_stringList_Nil:
  "v_stringList p (Some l) check = [] \<Longrightarrow> l \<noteq> [] \<and> '''' \<notin> set l \<and> distinct l \<and> (\<forall>s \<in> set l. \<exists>p. check p s = [])"
  using string_items_Nil by (fastforce simp: v_stringList_def split: if_splits)

lemma status_values_Nil: "status_values p i cs = [] \<Longrightarrow> \<forall>c \<in> set cs. 0 \<le> c \<and> c \<le> maxHTTPStatus"
  by (induction cs arbitrary: i) (auto split: if_splits)

section \<open>The status bitmap\<close>

lemma length_set_status_bit [simp]: "length (set_status_bit bits c) = length bits"
  by (simp add: set_status_bit_def)

lemma bit_set_status_bit:
  assumes "length bits = 16" and "0 \<le> c" "c < 1024" and "0 \<le> d" "d < 1024"
  shows "bit (set_status_bit bits c ! nat (drop_bit 6 d)) (nat (d AND 63)) \<longleftrightarrow>
         d = c \<or> bit (bits ! nat (drop_bit 6 d)) (nat (d AND 63))"
proof -
  have m: "x AND 63 = x mod 64" for x :: int
    using take_bit_eq_mask [of 6 x] by (simp add: take_bit_eq_mod mask_eq_exp_minus_1)
  have s: "drop_bit 6 x = x div 64" for x :: int
    by (simp add: drop_bit_eq_div)
  have eq: "d = c \<longleftrightarrow> nat (d div 64) = nat (c div 64) \<and> nat (d mod 64) = nat (c mod 64)"
    using assms by (metis eq_nat_nat_iff div_int_pos_iff mult_div_mod_eq pos_mod_sign zero_less_numeral zero_le_numeral)
  have "nat (d mod 64) < 64" "nat (d div 64) < 16" "nat (c div 64) < 16" using assms by auto
  then show ?thesis
    using assms(1-3) eq
    by (auto simp: set_status_bit_def m s nth_list_update bit_or_iff bit_exp_iff)
qed

lemma status_bits_iff:
  assumes "\<forall>c \<in> set cs. 0 \<le> c \<and> c \<le> maxHTTPStatus" and "0 \<le> d" "d < 1024" and "length bits = 16"
  shows "bit (foldl set_status_bit bits cs ! nat (drop_bit 6 d)) (nat (d AND 63)) \<longleftrightarrow>
         d \<in> set cs \<or> bit (bits ! nat (drop_bit 6 d)) (nat (d AND 63))"
  using assms
proof (induction cs arbitrary: bits)
  case (Cons c cs)
  have "0 \<le> c" "c < 1024" using Cons.prems(1) by auto
  with Cons.IH [of "set_status_bit bits c"] Cons.prems bit_set_status_bit [of bits c d] show ?case by auto
qed simp

lemma length_status_bits [simp]: "length (foldl set_status_bit bits cs) = length bits"
  by (induction cs arbitrary: bits) auto

section \<open>One rule\<close>

lemma status_matches_list:
  assumes "status_validate hs p = []" and "im_Range hs = None" and "sm_status m = statusList"
    and "sm_statusBits m = foldl set_status_bit (replicate 16 0) (im_Values hs)"
  shows "status_matches m code \<longleftrightarrow> code \<in> set (im_Values hs)"
proof -
  have v: "\<forall>c \<in> set (im_Values hs). 0 \<le> c \<and> c \<le> maxHTTPStatus"
    using assms(1) status_values_Nil by (fastforce simp: status_validate_def)
  have "bit ((replicate 16 0 :: 64 word list) ! nat (drop_bit 6 code)) n = False" if "0 \<le> code" "code < 1024" for n
    using that by (simp add: drop_bit_eq_div)
  then show ?thesis
    using v status_bits_iff [OF v, of code "replicate 16 0"]
    by (auto simp: status_matches_def assms(3,4) and_exp_eq_0_iff_not_bit)
qed

lemma status_matches_range:
  assumes "status_validate hs p = []" and "im_Range hs = Some r" and "sm_status m = statusRange"
    and "sm_statusRange m = newInt64Range (Some r)" and "in64 code"
  shows "status_matches m code \<longleftrightarrow> 0 < code \<and> in_range r code"
proof -
  have "range_validate r p 0 maxHTTPStatus = []"
    using assms(1,2) by (simp add: status_validate_def Let_def)
  from Contains_in_range [OF this _ _ assms(5)] show ?thesis
    by (auto simp: status_matches_def assms(3,4) newInt64Range_def r_contains_def case_prod_beta Let_def)
qed

lemma range_matches:
  assumes "opt_validate x (\<lambda>r. range_validate r p 0 maxRangeBound) = []" and "in64 v"
  shows "\<not> (r_set (newInt64Range x) \<and> \<not> r_contains (newInt64Range x) v) \<longleftrightarrow> unless_nil x (\<lambda>r. in_range r v)"
  using assms Contains_in_range [of _ p 0 maxRangeBound v]
  by (auto simp: opt_validate_def newInt64Range_def r_contains_def case_prod_beta Let_def split: option.splits)

lemma containsString_valid:
  "v_stringList p (Some l) check = [] \<Longrightarrow> containsString l s \<longleftrightarrow> s \<in> set l"
  by (auto simp: containsString_def dest: v_stringList_Nil)

lemma anyMarker_valid:
  "v_stringList p (Some l) check = [] \<Longrightarrow> anyMarker l rs \<longleftrightarrow> set rs \<inter> set l \<noteq> {}"
  by (auto simp: anyMarker_def list_ex_iff containsString_valid)

lemma EqualFold_Nil: "EqualFold v '''' \<Longrightarrow> v = ''''"
  by (auto simp: EqualFold_def decode_all_nonempty intro: ccontr)

lemma containsFold_valid:
  assumes "v_stringList p (Some l) check = []"
  shows "containsFold l s \<longleftrightarrow> (\<exists>m \<in> set l. EqualFold m s)"
  using v_stringList_Nil [OF assms] EqualFold_Nil by (auto simp: containsFold_def list_ex_iff)

definition effective_rule_blame :: "SignalRule \<Rightarrow> blame" where
  "effective_rule_blame r = (if sr_Blame r = '''' then DefaultBlame (sr_Outcome r) else sr_Blame r)"

definition implements :: "regexps \<Rightarrow> string \<Rightarrow> SignalRule \<Rightarrow> signalMatcher \<Rightarrow> bool" where
  "implements re label r m \<longleftrightarrow>
     sm_name m = label \<and> sm_outcome m = sr_Outcome r \<and> sm_blame m = effective_rule_blame r \<and>
     (\<forall>f. facts_typed f \<longrightarrow> matches m f = rule_holds re (sr_When r) f)"

lemma compiled_parts:
  assumes "compileSignalRule re n i r = Inr m"
  shows "sm_name m = ruleLabel n i (sr_Name r)" and "sm_outcome m = sr_Outcome r"
    and "sm_blame m = effective_rule_blame r"
    and "sm_status m = (case sw_HTTPStatus (sr_When r) of None \<Rightarrow> statusAny
           | Some hs \<Rightarrow> if im_Range hs \<noteq> None then statusRange else statusList)"
    and "sw_HTTPStatus (sr_When r) = Some hs \<Longrightarrow> im_Range hs = None \<Longrightarrow>
           sm_statusBits m = foldl set_status_bit (replicate 16 0) (im_Values hs)"
    and "sw_HTTPStatus (sr_When r) = Some hs \<Longrightarrow> sm_statusRange m = newInt64Range (im_Range hs)"
    and "sm_businessCodes m = sw_BusinessCode (sr_When r)" and "sm_errorKinds m = sw_ErrorKind (sr_When r)"
    and "sm_markers m = sw_Markers (sr_When r)" and "sm_methods m = sw_Method (sr_When r)"
    and "sm_latency m = newInt64Range (sw_LatencyMs (sr_When r))"
    and "sm_bytes m = newInt64Range (sw_ResponseBytes (sr_When r))"
  using assms
  by (auto simp: compileSignalRule_def Let_def effective_rule_blame_def split: option.splits if_splits sum.splits)

lemma compiled_uri:
  assumes "compileSignalRule re n i r = Inr m"
  shows "\<not> (sm_uriPrefix m \<noteq> '''' \<and> \<not> has_prefix s (sm_uriPrefix m)) \<and> unless_nil (sm_uriRegex m) (\<lambda>g. g s) \<longleftrightarrow>
         unless_nil (sw_URI (sr_When r)) (\<lambda>u. uri_holds re u s)"
  using assms
  by (auto simp: compileSignalRule_def Let_def uri_holds_def split: option.splits if_splits sum.splits)

lemma compileSignalRule_total:
  assumes "when_validate re (sr_When r) p = []"
  shows "\<exists>m. compileSignalRule re n i r = Inr m"
proof (cases "sw_URI (sr_When r)")
  case (Some u)
  with assms have "uri_validate re u (field p ''uri'') = []"
    by (simp add: when_validate_def opt_validate_def)
  then have "um_Regex u = '''' \<or> (\<exists>g. re (um_Regex u) = Inr g)"
    by (auto simp: uri_validate_def split: if_splits sum.splits)
  with Some show ?thesis by (auto simp: compileSignalRule_def Let_def)
qed (simp add: compileSignalRule_def Let_def)

lemma compileSignalRule_implements:
  assumes v: "when_validate re (sr_When r) p = []" and c: "compileSignalRule re n i r = Inr m"
  shows "implements re (ruleLabel n i (sr_Name r)) r m"
proof -
  note c' = compiled_parts [OF c]
  let ?w = "sr_When r"
  have vs: "opt_validate (sw_HTTPStatus ?w) (\<lambda>m. status_validate m (field p ''http_status'')) = []"
    "v_stringList (field p ''business_code'') (sw_BusinessCode ?w) no_check = []"
    "v_stringList (field p ''error_kind'') (sw_ErrorKind ?w) error_kind_check = []"
    "v_stringList (field p ''markers'') (sw_Markers ?w) no_check = []"
    "v_stringList (field p ''method'') (sw_Method ?w) method_check = []"
    "opt_validate (sw_LatencyMs ?w) (\<lambda>r. range_validate r (field p ''latency_ms'') 0 maxRangeBound) = []"
    "opt_validate (sw_ResponseBytes ?w) (\<lambda>r. range_validate r (field p ''response_bytes'') 0 maxRangeBound) = []"
    using v by (simp_all add: when_validate_def)
  have "matches m f = rule_holds re ?w f" if f: "facts_typed f" for f
  proof -
    have 1: "status_matches m (rf_HTTPStatus f) = unless_nil (sw_HTTPStatus ?w) (\<lambda>m. status_holds m (rf_HTTPStatus f))"
    proof (cases "sw_HTTPStatus ?w")
      case None
      then show ?thesis using c'(4) by (simp add: status_matches_def)
    next
      case (Some hs)
      then have hs: "status_validate hs (field p ''http_status'') = []" using vs(1) by (simp add: opt_validate_def)
      show ?thesis
      proof (cases "im_Range hs")
        case None
        with Some c'(4) c'(5) [OF Some None] status_matches_list [OF hs None] show ?thesis
          by (simp add: status_holds_def)
      next
        case r: (Some r')
        with Some c'(4) c'(6) [OF Some] f status_matches_range [OF hs r] show ?thesis
          by (simp add: status_holds_def facts_typed_def)
      qed
    qed
    have 2: "unless_nil (sm_errorKinds m) (\<lambda>l. containsString l (rf_ErrorKind f)) =
             unless_nil (sw_ErrorKind ?w) (\<lambda>l. rf_ErrorKind f \<in> set l)"
      using vs(3) by (auto simp: c' containsString_valid split: option.splits)
    have 3: "unless_nil (sm_businessCodes m) (\<lambda>l. containsString l (rf_BusinessCode f)) =
             unless_nil (sw_BusinessCode ?w) (\<lambda>l. rf_BusinessCode f \<in> set l)"
      using vs(2) by (auto simp: c' containsString_valid split: option.splits)
    have 4: "unless_nil (sm_markers m) (\<lambda>l. anyMarker l (rf_Markers f)) =
             unless_nil (sw_Markers ?w) (\<lambda>l. set (rf_Markers f) \<inter> set l \<noteq> {})"
      using vs(4) by (auto simp: c' anyMarker_valid split: option.splits)
    have 5: "unless_nil (sm_methods m) (\<lambda>l. containsFold l (rf_Method f)) =
             unless_nil (sw_Method ?w) (\<lambda>l. \<exists>m \<in> set l. EqualFold m (rf_Method f))"
      using vs(5) by (auto simp: c' containsFold_valid split: option.splits)
    note 6 = range_matches [OF vs(6), of "rf_LatencyMs f"] and 7 = range_matches [OF vs(7), of "rf_ResponseBytes f"]
    show ?thesis
      using 1 2 3 4 5 6 7 compiled_uri [OF c, of "rf_URI f"] f
      unfolding matches_def rule_holds_def c'(11,12) facts_typed_def by blast
  qed
  then show ?thesis using c' by (simp add: implements_def)
qed


section \<open>The chain\<close>

text \<open>The rules of a chain in order, each with the label it is reported under.\<close>

definition chain_rules :: "SignalSpec list \<Rightarrow> (string \<times> SignalRule) list" where
  "chain_rules specs =
     concat (map (\<lambda>s. map (\<lambda>(i, r). (ruleLabel (ss_Name s) i (sr_Name r), r)) (enumerate 0 (ss_Rules s))) specs)"

text \<open>The classification a chain of policies stands for.\<close>

definition classify_spec :: "regexps \<Rightarrow> SignalSpec list \<Rightarrow> ReportFacts \<Rightarrow> Classification" where
  "classify_spec re specs f =
     (case find (\<lambda>(i, l, r). rule_holds re (sr_When r) f) (enumerate 0 (chain_rules specs)) of
        Some (i, l, r) \<Rightarrow>
          \<lparr>cl_Outcome = sr_Outcome r, cl_Blame = effective_rule_blame r, cl_RuleIndex = int i, cl_RuleName = l\<rparr>
      | None \<Rightarrow>
          unmatched (if ss_TrustOutcomeHint (last specs) \<and> ValidOutcome (rf_OutcomeHint f)
                     then rf_OutcomeHint f else OutcomeUnknown))"

definition rule_valid :: "regexps \<Rightarrow> SignalRule \<Rightarrow> bool" where
  "rule_valid re r \<longleftrightarrow>
     (\<exists>p. when_validate re (sr_When r) p = []) \<and> ValidOutcome (sr_Outcome r) \<and>
     (sr_Blame r = '''' \<or> ValidBlame (sr_Blame r))"

lemma signal_rules_validate_Nil:
  "signal_rules_validate re i names rs = [] \<Longrightarrow> r \<in> set rs \<Longrightarrow> rule_valid re r"
proof (induction rs arbitrary: i names)
  case (Cons x xs)
  then show ?case
    by (fastforce simp: rule_valid_def outcome_check_def Let_def case_prod_beta split: if_splits)
qed simp

lemma SignalSpec_Validate_rules:
  "SignalSpec_Validate re (Some s) = None \<Longrightarrow> r \<in> set (ss_Rules s) \<Longrightarrow> rule_valid re r"
  using signal_rules_validate_Nil
  by (fastforce simp: SignalSpec_Validate_def v_result_def split: if_splits)

lemma check_signal_chain_Inr:
  "check_signal_chain re i chain = Inr specs \<longleftrightarrow>
   chain = map Some specs \<and> list_all (\<lambda>s. SignalSpec_Validate re s = None) chain"
  by (induction re i chain arbitrary: specs rule: check_signal_chain.induct)
     (auto simp: SignalSpec_Validate_def [of _ None] split: option.splits sum.splits, metis+)

lemma check_signal_chain_total:
  "list_all (\<lambda>s. SignalSpec_Validate re s = None) chain \<Longrightarrow> \<exists>specs. check_signal_chain re i chain = Inr specs"
  by (induction re i chain rule: check_signal_chain.induct) (auto simp: SignalSpec_Validate_def [of _ None])

lemma compileSignalRules_Inr:
  assumes "\<forall>r \<in> set rs. rule_valid re r"
  shows "\<exists>ms. compileSignalRules re n i rs = Inr ms \<and>
     list_all2 (\<lambda>(l, r) m. rule_valid re r \<and> implements re l r m)
       (map (\<lambda>(i, r). (ruleLabel n i (sr_Name r), r)) (enumerate i rs)) ms"
  using assms
proof (induction rs arbitrary: i)
  case (Cons r rs)
  then obtain p where p: "when_validate re (sr_When r) p = []" by (auto simp: rule_valid_def)
  from compileSignalRule_total [OF p] obtain m where m: "compileSignalRule re n i r = Inr m" by blast
  with compileSignalRule_implements [OF p m] Cons.IH [of "Suc i"] Cons.prems show ?case by auto
qed simp

lemma compileSignalSpecs_Inr:
  assumes "list_all (\<lambda>s. SignalSpec_Validate re (Some s) = None) specs"
  shows "\<exists>ms. compileSignalSpecs re specs = Inr ms \<and>
     list_all2 (\<lambda>(l, r) m. rule_valid re r \<and> implements re l r m) (chain_rules specs) ms"
  using assms
proof (induction specs)
  case (Cons s specs)
  have "\<forall>r \<in> set (ss_Rules s). rule_valid re r"
    using Cons.prems SignalSpec_Validate_rules by auto
  from compileSignalRules_Inr [OF this, of "ss_Name s" 0] Cons show ?case
    by (auto simp: chain_rules_def intro: list_all2_appendI)
qed (simp add: chain_rules_def)

lemma CompileSignal_Inr:
  "(\<exists>c. CompileSignal re chain = Inr c) \<longleftrightarrow>
   chain \<noteq> [] \<and> list_all (\<lambda>s. SignalSpec_Validate re s = None) chain"
proof -
  have "\<exists>c. CompileSignal re chain = Inr c"
    if "chain \<noteq> []" and v: "list_all (\<lambda>s. SignalSpec_Validate re s = None) chain"
  proof -
    from check_signal_chain_total [OF v] obtain specs where s: "check_signal_chain re 0 chain = Inr specs" by blast
    then have "list_all (\<lambda>s. SignalSpec_Validate re (Some s) = None) specs"
      using check_signal_chain_Inr [of re 0 chain specs] by (simp add: list_all_iff)
    from compileSignalSpecs_Inr [OF this] that(1) s show ?thesis by (auto simp: CompileSignal_def)
  qed
  moreover have "chain \<noteq> [] \<and> list_all (\<lambda>s. SignalSpec_Validate re s = None) chain"
    if "CompileSignal re chain = Inr c" for c
    using that check_signal_chain_Inr by (auto simp: CompileSignal_def split: if_splits sum.splits)
  ultimately show ?thesis by blast
qed

lemma CompileSignal_compiled:
  assumes "CompileSignal re (map Some specs) = Inr c"
  shows "cs_trustHint c = ss_TrustOutcomeHint (last specs)"
    and "list_all2 (\<lambda>(l, r) m. rule_valid re r \<and> implements re l r m) (chain_rules specs) (cs_rules c)"
proof -
  from assms CompileSignal_Inr [of re "map Some specs"]
  have v: "list_all (\<lambda>s. SignalSpec_Validate re (Some s) = None) specs" by (auto simp: list_all_iff)
  have "check_signal_chain re 0 (map Some specs) = Inr specs"
    using v by (simp add: check_signal_chain_Inr list_all_iff)
  with assms compileSignalSpecs_Inr [OF v]
  show "cs_trustHint c = ss_TrustOutcomeHint (last specs)"
    "list_all2 (\<lambda>(l, r) m. rule_valid re r \<and> implements re l r m) (chain_rules specs) (cs_rules c)"
    by (auto simp: CompileSignal_def split: if_splits)
qed

lemma first_match_find:
  assumes "list_all2 (\<lambda>(l, r) m. rule_valid re r \<and> implements re l r m) lrs ms" and "facts_typed f"
  shows "first_match i ms f =
    map_option (\<lambda>(i, l, r). \<lparr>cl_Outcome = sr_Outcome r, cl_Blame = effective_rule_blame r,
                             cl_RuleIndex = int i, cl_RuleName = l\<rparr>)
      (find (\<lambda>(i, l, r). rule_holds re (sr_When r) f) (enumerate i lrs))"
  using assms
proof (induction lrs ms arbitrary: i rule: list_all2_induct)
  case (Cons lr lrs m ms)
  then show ?case by (cases lr) (auto simp: implements_def)
qed simp

text \<open>
  C2. A compiled classifier implements the meaning of its policies: the first rule of the chain,
  root first, whose conditions all hold decides the outcome, the blame (the rule's own or the
  default of its outcome), the index and the label; when none holds the leaf's trust setting
  decides between a valid outcome hint and unknown.
\<close>

theorem Classify_refines:
  assumes "CompileSignal re (map Some specs) = Inr c" and "facts_typed f"
  shows "Classify (Some c) f = classify_spec re specs f"
  unfolding Classify_def classify_spec_def option.case
    first_match_find [OF CompileSignal_compiled(2) [OF assms(1)] assms(2)]
  by (auto simp: CompileSignal_compiled(1) [OF assms(1)] split: option.splits)

definition chain_error :: "regexps \<Rightarrow> SignalSpec option list \<Rightarrow> nat \<Rightarrow> nat \<Rightarrow> compile_error \<Rightarrow> bool" where
  "chain_error re chain k i e \<longleftrightarrow>
     i < length chain \<and> list_all (\<lambda>s. SignalSpec_Validate re s = None) (take i chain) \<and>
     (case chain ! i of
        None \<Rightarrow> e = Nil_element (k + i)
      | Some s \<Rightarrow> map_option (Invalid_policy (ss_Name s)) (SignalSpec_Validate re (Some s)) = Some e)"

lemma chain_error_Cons:
  "(\<exists>i. chain_error re (x # chain) k i e) \<longleftrightarrow>
   chain_error re (x # chain) k 0 e \<or>
   SignalSpec_Validate re x = None \<and> (\<exists>i. chain_error re chain (Suc k) i e)"
proof -
  have "chain_error re (x # chain) k (Suc i) e \<longleftrightarrow>
        SignalSpec_Validate re x = None \<and> chain_error re chain (Suc k) i e" for i
    by (auto simp: chain_error_def split: option.splits)
  then show ?thesis by (metis not0_implies_Suc)
qed

lemma check_signal_chain_Inl:
  "check_signal_chain re k chain = Inl e \<longleftrightarrow> (\<exists>i. chain_error re chain k i e)"
  by (induction re k chain rule: check_signal_chain.induct)
     (simp add: chain_error_def, auto simp: chain_error_Cons chain_error_def [of _ _ _ 0]
       SignalSpec_Validate_def [of _ None] split: option.splits sum.splits)

text \<open>
  C26. Compilation fails exactly for an empty chain, or at the first element that is nil or does not
  validate, with the error that names it; in particular the second compilation of a validated
  regular expression never fails, so the error of \<^verbatim>\<open>compileSignalRule\<close> is never returned.
\<close>

theorem CompileSignal_errors:
  "CompileSignal re chain = Inl e \<longleftrightarrow>
   chain = [] \<and> e = Empty_chain \<or> (\<exists>i. chain_error re chain 0 i e)"
proof (cases "chain = [] \<or> (\<exists>e. check_signal_chain re 0 chain = Inl e)")
  case True
  moreover have "\<not> chain_error re [] 0 i e" for i by (simp add: chain_error_def)
  ultimately show ?thesis
    by (auto simp: CompileSignal_def check_signal_chain_Inl [symmetric])
next
  case False
  then obtain specs where "check_signal_chain re 0 chain = Inr specs" "chain \<noteq> []"
    by (metis sum.exhaust)
  with check_signal_chain_Inr [of re 0 chain specs] CompileSignal_Inr [of re chain] False
  show ?thesis by (auto simp: check_signal_chain_Inl [symmetric])
qed

lemma Outcomes_valid: "ValidOutcome OutcomeUnknown"
  by code_simp

lemma ValidBlame_Default: "ValidBlame (DefaultBlame out)"
  by (simp add: ValidBlame_def DefaultBlame_def)

lemma first_match_typed:
  assumes "first_match i ms f = Some cl" and "\<forall>m \<in> set ms. ValidOutcome (sm_outcome m) \<and> ValidBlame (sm_blame m)"
  shows "ValidOutcome (cl_Outcome cl) \<and> ValidBlame (cl_Blame cl) \<and> int i \<le> cl_RuleIndex cl \<and>
         cl_RuleIndex cl < int (i + length ms)"
  using assms
proof (induction ms arbitrary: i)
  case (Cons m ms)
  show ?case
  proof (cases "matches m f")
    case True
    with Cons.prems show ?thesis by auto
  next
    case False
    with Cons.prems Cons.IH [of "Suc i"] show ?thesis by simp
  qed
qed simp

text \<open>
  C29. Whatever a report says, the classification of a compiled chain is a known outcome with a known
  blame, and its rule index is -1 or the index of a compiled rule.
\<close>

theorem Classify_typed:
  assumes "CompileSignal re (map Some specs) = Inr c"
  shows "ValidOutcome (cl_Outcome (Classify (Some c) f)) \<and> ValidBlame (cl_Blame (Classify (Some c) f)) \<and>
         -1 \<le> cl_RuleIndex (Classify (Some c) f) \<and> cl_RuleIndex (Classify (Some c) f) < int (RuleCount (Some c))"
proof -
  have "ValidOutcome (sm_outcome m) \<and> ValidBlame (sm_blame m)" if m: "m \<in> set (cs_rules c)" for m
  proof -
    obtain j where "j < length (cs_rules c)" "m = cs_rules c ! j" using m by (auto simp: in_set_conv_nth)
    then have "case chain_rules specs ! j of (l, r) \<Rightarrow> rule_valid re r \<and> implements re l r m"
      using list_all2_nthD2 [OF CompileSignal_compiled(2) [OF assms], of j]
      by (simp add: case_prod_beta)
    then obtain l r where "rule_valid re r" "implements re l r m" by (cases "chain_rules specs ! j") blast
    then show ?thesis
      unfolding rule_valid_def implements_def effective_rule_blame_def using ValidBlame_Default by metis
  qed
  then have t: "first_match 0 (cs_rules c) f = Some cl \<Longrightarrow>
      ValidOutcome (cl_Outcome cl) \<and> ValidBlame (cl_Blame cl) \<and> 0 \<le> cl_RuleIndex cl \<and>
      cl_RuleIndex cl < int (length (cs_rules c))" for cl
    using first_match_typed [of 0 "cs_rules c" f cl] by simp
  have u: "ValidOutcome (cl_Outcome (unmatched out)) \<and> ValidBlame (cl_Blame (unmatched out)) \<and>
           cl_RuleIndex (unmatched out) = -1" if "ValidOutcome out" for out
    using that by (simp add: unmatched_def ValidBlame_Default)
  show ?thesis
  proof (cases "first_match 0 (cs_rules c) f")
    case None
    then have "Classify (Some c) f =
        unmatched (if cs_trustHint c \<and> ValidOutcome (rf_OutcomeHint f) then rf_OutcomeHint f else OutcomeUnknown)"
      by (simp add: Classify_def)
    moreover have "ValidOutcome (if cs_trustHint c \<and> ValidOutcome (rf_OutcomeHint f) then rf_OutcomeHint f else OutcomeUnknown)"
      using Outcomes_valid by simp
    ultimately have "\<exists>out. ValidOutcome out \<and> Classify (Some c) f = unmatched out" by blast
    then show ?thesis using u by (auto simp: RuleCount_def)
  next
    case (Some cl)
    then show ?thesis using t [OF Some] by (simp add: Classify_def RuleCount_def)
  qed
qed

section \<open>A concrete policy\<close>

definition no_conditions :: SignalWhen where
  "no_conditions = \<lparr>sw_HTTPStatus = None, sw_BusinessCode = None, sw_ErrorKind = None, sw_Markers = None,
     sw_URI = None, sw_Method = None, sw_LatencyMs = None, sw_ResponseBytes = None\<rparr>"

definition throttle_rule :: SignalRule where
  "throttle_rule = \<lparr>sr_Name = ''slow'',
     sr_When = no_conditions\<lparr>sw_HTTPStatus := Some \<lparr>im_Values = [429, 503], im_Range = None\<rparr>\<rparr>,
     sr_Outcome = OutcomeRateLimited, sr_Blame = ''''\<rparr>"

definition server_rule :: SignalRule where
  "server_rule = \<lparr>sr_Name = '''',
     sr_When = no_conditions\<lparr>sw_HTTPStatus := Some \<lparr>im_Values = [],
       im_Range = Some \<lparr>Gte = Some 500, Gt = None, Lte = None, Lt = Some 600\<rparr>\<rparr>\<rparr>,
     sr_Outcome = OutcomeTargetError, sr_Blame = BlameNone\<rparr>"

definition demo_signal :: SignalSpec where
  "demo_signal = \<lparr>ss_Name = ''web'', ss_Description = '''', ss_Bind = None, ss_Extends = '''',
     ss_TrustOutcomeHint = True, ss_Rules = [throttle_rule, server_rule]\<rparr>"

definition no_regexps :: regexps where
  "no_regexps = (\<lambda>s. Inl ''unsupported'')"

definition status_report :: "int \<Rightarrow> ReportFacts" where
  "status_report code = \<lparr>rf_URI = ''/x'', rf_Method = ''GET'', rf_HTTPStatus = code, rf_BusinessCode = '''',
     rf_ErrorKind = '''', rf_Markers = [], rf_OutcomeHint = OutcomeSuccess, rf_LatencyMs = 12, rf_ResponseBytes = 0\<rparr>"

lemma demo_valid: "SignalSpec_Validate no_regexps (Some demo_signal) = None"
  by code_simp

lemma demo_compiles: "\<exists>c. CompileSignal no_regexps (map Some [demo_signal]) = Inr c"
  unfolding CompileSignal_Inr by (simp add: demo_valid)

lemma status_report_typed: "facts_typed (status_report 503)"
  by (simp add: facts_typed_def status_report_def in64_def MinInt64_def MaxInt64_def)

theorem Classify_refines_witness:
  "\<exists>c. CompileSignal no_regexps (map Some [demo_signal]) = Inr c \<and> facts_typed (status_report 503) \<and>
       Classify (Some c) (status_report 503) = classify_spec no_regexps [demo_signal] (status_report 503) \<and>
       cl_Outcome (Classify (Some c) (status_report 503)) = OutcomeRateLimited"
proof -
  obtain c where c: "CompileSignal no_regexps (map Some [demo_signal]) = Inr c" using demo_compiles by blast
  have "cl_Outcome (classify_spec no_regexps [demo_signal] (status_report 503)) = OutcomeRateLimited"
    by (simp add: classify_spec_def chain_rules_def demo_signal_def rule_holds_def throttle_rule_def
        no_conditions_def status_holds_def status_report_def)
  with c Classify_refines [OF c status_report_typed] status_report_typed show ?thesis by auto
qed

theorem Classify_typed_witness:
  "\<exists>c. CompileSignal no_regexps (map Some [demo_signal]) = Inr c \<and>
       ValidOutcome (cl_Outcome (Classify (Some c) (status_report 503))) \<and>
       cl_RuleIndex (Classify (Some c) (status_report 503)) < int (RuleCount (Some c))"
  using demo_compiles Classify_typed [of no_regexps "[demo_signal]" _ "status_report 503"] by blast

end
