(* ===== verification/Policy_Action.thy ===== *)
theory Policy_Action
  imports Policy_Signal
begin

text \<open>
  Action policies: \<^verbatim>\<open>internal/policy/action_spec.go\<close>, the specification with its defaults and
  its validation.  A Go map is an association list whose first entry for a key counts.
\<close>

section \<open>Constants\<close>

type_synonym subjectKind = string
type_synonym actionKind = string
type_synonym actionScope = string

abbreviation ModeEnforce :: string where "ModeEnforce \<equiv> ''enforce''"
abbreviation ModeShadow :: string where "ModeShadow \<equiv> ''shadow''"
abbreviation BanExpiryPending :: string where "BanExpiryPending \<equiv> ''pending''"
abbreviation BanExpiryActive :: string where "BanExpiryActive \<equiv> ''active''"

abbreviation (input) DefaultCooldownMax :: int where "DefaultCooldownMax \<equiv> 24 * Hour"
abbreviation (input) DefaultCooldownMaxExponent :: int where "DefaultCooldownMaxExponent \<equiv> 10"
abbreviation (input) DefaultFailureResetAfter :: int where "DefaultFailureResetAfter \<equiv> Hour"
abbreviation (input) maxCooldownExponent :: int where "maxCooldownExponent \<equiv> 64"
abbreviation (input) maxBanHistoryWindow :: int where "maxBanHistoryWindow \<equiv> 30 * 24 * Hour"
abbreviation (input) minCounterWindow :: int where "minCounterWindow \<equiv> Second"

definition DefaultCooldownMultiplier :: f64 where "DefaultCooldownMultiplier = Fin 1"
definition DefaultHealthAlpha :: f64 where "DefaultHealthAlpha = to_f64 (1 / 10)"

abbreviation SubjectIdentity :: subjectKind where "SubjectIdentity \<equiv> ''identity''"
abbreviation SubjectAccount :: subjectKind where "SubjectAccount \<equiv> ''account''"
abbreviation SubjectProxy :: subjectKind where "SubjectProxy \<equiv> ''proxy''"

abbreviation ActionCooldown :: actionKind where "ActionCooldown \<equiv> ''cooldown''"
abbreviation ActionExpire :: actionKind where "ActionExpire \<equiv> ''expire''"
abbreviation ActionQuarantine :: actionKind where "ActionQuarantine \<equiv> ''quarantine''"
abbreviation ActionBan :: actionKind where "ActionBan \<equiv> ''ban''"
abbreviation ActionActivate :: actionKind where "ActionActivate \<equiv> ''activate''"

abbreviation ScopeIdentityEndpoint :: actionScope where "ScopeIdentityEndpoint \<equiv> ''identity_endpoint''"
abbreviation ScopeIdentitySite :: actionScope where "ScopeIdentitySite \<equiv> ''identity_site''"
abbreviation ScopeIdentity :: actionScope where "ScopeIdentity \<equiv> ''identity''"
abbreviation ScopeAccount :: actionScope where "ScopeAccount \<equiv> ''account''"
abbreviation ScopeProxySite :: actionScope where "ScopeProxySite \<equiv> ''proxy_site''"
abbreviation ScopeProxy :: actionScope where "ScopeProxy \<equiv> ''proxy''"

abbreviation RuleNameActivate :: string where "RuleNameActivate \<equiv> ''lifecycle.activate''"
abbreviation RuleNameEndpointLow :: string where "RuleNameEndpointLow \<equiv> ''health.endpoint_low''"
abbreviation RuleNameQuarantine :: string where "RuleNameQuarantine \<equiv> ''health.quarantine''"

definition Subject :: "actionScope \<Rightarrow> subjectKind" where
  "Subject s =
     (if s \<in> {ScopeIdentityEndpoint, ScopeIdentitySite, ScopeIdentity} then SubjectIdentity
      else if s = ScopeAccount then SubjectAccount
      else if s \<in> {ScopeProxySite, ScopeProxy} then SubjectProxy
      else '''')"

definition ScopeAllowed :: "actionKind \<Rightarrow> actionScope \<Rightarrow> bool" where
  "ScopeAllowed action scope =
     (if action = ActionCooldown then Subject scope \<noteq> ''''
      else if action = ActionBan then scope = ScopeIdentity \<or> scope = ScopeAccount \<or> scope = ScopeProxy
      else if action = ActionExpire then scope = ScopeIdentity
      else if action = ActionQuarantine then scope = ScopeIdentity \<or> scope = ScopeProxy
      else False)"

section \<open>The specification\<close>

record CountCondition =
  cc_Gte :: int
  cc_Within :: int

record ActionRule =
  ar_Name :: string
  ar_Outcome :: "outcome list"
  ar_Count :: "CountCondition option"
  ar_Action :: actionKind
  ar_Scope :: actionScope
  ar_Base :: int
  ar_Multiplier :: f64
  ar_Max :: int
  ar_MaxExponent :: int
  ar_Duration :: int
  ar_FailureResetAfter :: int

record EscalationStep =
  es_Bans :: CountCondition
  es_Duration :: int

record HealthSpec =
  h_Alpha :: f64
  h_Baseline :: f64
  h_Tau :: int
  h_Observations :: "(outcome \<times> f64) list"
  h_EndpointLowScore :: f64
  h_EndpointLowMinSamples :: int
  h_EndpointLowCooldown :: int
  h_QuarantineScore :: f64
  h_QuarantineMinSamples :: int
  h_QuarantineDuration :: int

record CrossAttributionSpec =
  ca_Enabled :: bool
  ca_Window :: int
  ca_ProxyDistinctIdentities :: int
  ca_IdentityDistinctProxies :: int

record ActionSpec =
  as_Name :: string
  as_Description :: string
  as_Bind :: "Binding option"
  as_Extends :: string
  as_Mode :: string
  as_Rules :: "ActionRule list"
  as_Escalation :: "EscalationStep list"
  as_Health :: HealthSpec
  as_BanExpiryState :: string
  as_CrossAttribution :: CrossAttributionSpec

section \<open>Defaults\<close>

definition rule_defaults :: "ActionRule \<Rightarrow> ActionRule" where
  "rule_defaults r =
     (if ar_Action r \<noteq> ActionCooldown then r
      else r\<lparr>ar_Multiplier := (if f_eq (ar_Multiplier r) (Fin 0) then DefaultCooldownMultiplier else ar_Multiplier r),
             ar_Max := setDuration (ar_Max r) DefaultCooldownMax,
             ar_MaxExponent := setInt (ar_MaxExponent r) DefaultCooldownMaxExponent,
             ar_FailureResetAfter := setDuration (ar_FailureResetAfter r) DefaultFailureResetAfter\<rparr>)"

definition health_defaults :: "HealthSpec \<Rightarrow> HealthSpec" where
  "health_defaults h =
     h\<lparr>h_Alpha := (if f_eq (h_Alpha h) (Fin 0) then DefaultHealthAlpha else h_Alpha h),
       h_Tau := setDuration (h_Tau h) (6 * Hour),
       h_EndpointLowMinSamples := setInt (h_EndpointLowMinSamples h) 10,
       h_EndpointLowCooldown := setDuration (h_EndpointLowCooldown h) (6 * Hour),
       h_QuarantineMinSamples := setInt (h_QuarantineMinSamples h) 10,
       h_QuarantineDuration := setDuration (h_QuarantineDuration h) (24 * Hour)\<rparr>"

definition cross_defaults :: "CrossAttributionSpec \<Rightarrow> CrossAttributionSpec" where
  "cross_defaults c =
     c\<lparr>ca_Window := setDuration (ca_Window c) (10 * Minute),
       ca_ProxyDistinctIdentities := setInt (ca_ProxyDistinctIdentities c) 3,
       ca_IdentityDistinctProxies := setInt (ca_IdentityDistinctProxies c) 3\<rparr>"

definition ActionSpec_ApplyDefaults :: "ActionSpec \<Rightarrow> ActionSpec" where
  "ActionSpec_ApplyDefaults s =
     s\<lparr>as_Mode := setString (as_Mode s) ModeEnforce,
       as_BanExpiryState := setString (as_BanExpiryState s) BanExpiryPending,
       as_Rules := map rule_defaults (as_Rules s),
       as_Health := health_defaults (as_Health s),
       as_CrossAttribution := cross_defaults (as_CrossAttribution s)\<rparr>"

definition newActionBase :: ActionSpec where
  "newActionBase =
     ActionSpec_ApplyDefaults
       \<lparr>as_Name = '''', as_Description = '''', as_Bind = None, as_Extends = '''', as_Mode = '''', as_Rules = [],
        as_Escalation = [],
        as_Health = \<lparr>h_Alpha = Fin 0, h_Baseline = Fin 70, h_Tau = 0, h_Observations = [],
          h_EndpointLowScore = Fin 15, h_EndpointLowMinSamples = 0, h_EndpointLowCooldown = 0,
          h_QuarantineScore = Fin 20, h_QuarantineMinSamples = 0, h_QuarantineDuration = 0\<rparr>,
        as_BanExpiryState = '''',
        as_CrossAttribution = \<lparr>ca_Enabled = True, ca_Window = 0, ca_ProxyDistinctIdentities = 0,
          ca_IdentityDistinctProxies = 0\<rparr>\<rparr>"

section \<open>Validation\<close>

definition reservedActionRuleName :: "string \<Rightarrow> bool" where
  "reservedActionRuleName name \<longleftrightarrow> name \<in> {RuleNameActivate, RuleNameEndpointLow, RuleNameQuarantine}"

definition allowedScopes :: "actionKind \<Rightarrow> string" where
  "allowedScopes a =
     (if a = ActionCooldown then ''identity_endpoint|identity_site|identity|account|proxy_site|proxy''
      else if a = ActionBan then ''identity|account|proxy''
      else if a = ActionExpire then ''identity''
      else if a = ActionQuarantine then ''identity|proxy''
      else '''')"

fun outcomes_validate :: "string \<Rightarrow> nat \<Rightarrow> string set \<Rightarrow> outcome list \<Rightarrow> problem list" where
  "outcomes_validate p i seen [] = []"
| "outcomes_validate p i seen (out # outs) =
     (if \<not> ValidOutcome out then
        Problem (item p i) ''must be one of %s (got %q)'' [A_str (join ''|'' Outcomes), A_str out] #
        outcomes_validate p (Suc i) seen outs
      else
        (if out \<in> seen then [Problem (item p i) ''duplicate outcome %q'' [A_str out]] else []) @
        outcomes_validate p (Suc i) (insert out seen) outs)"

definition validateCooldown :: "ActionRule \<Rightarrow> string \<Rightarrow> problem list" where
  "validateCooldown r path =
     (if ar_Base r = 0 then [Problem (field path ''base'') ''is required for cooldown'' []]
      else v_duration (field path ''base'') (ar_Base r) Millisecond 0) @
     (if \<not> f_le (Fin 1) (ar_Multiplier r) \<or> ar_Multiplier r = Inf True
      then [Problem (field path ''multiplier'') ''must be a finite number of at least 1 (got %v)'' [A_float (ar_Multiplier r)]]
      else []) @
     v_duration (field path ''max'') (ar_Max r) 0 0 @
     (if \<not> IsPermanent (ar_Max r) \<and> \<not> IsPermanent (ar_Base r) \<and> ar_Base r > 0 \<and> ar_Max r < ar_Base r
      then [Problem (field path ''max'') ''must be at least base (%s)'' [A_dur (ar_Base r)]] else []) @
     v_intRange (field path ''max_exponent'') (ar_MaxExponent r) 0 maxCooldownExponent @
     v_duration (field path ''failure_reset_after'') (ar_FailureResetAfter r) Second 0 @
     (if ar_Duration r \<noteq> 0
      then [Problem (field path ''duration'') ''is not supported for cooldown (use base/multiplier/max)'' []] else [])"

definition rejectCooldownFields :: "ActionRule \<Rightarrow> string \<Rightarrow> problem list" where
  "rejectCooldownFields r path =
     concat (map (\<lambda>(name, present). if present then [Problem (field path name) ''is only supported for cooldown'' []] else [])
       [(''base'', ar_Base r \<noteq> 0), (''multiplier'', \<not> f_eq (ar_Multiplier r) (Fin 0)), (''max'', ar_Max r \<noteq> 0),
        (''max_exponent'', ar_MaxExponent r \<noteq> 0), (''failure_reset_after'', ar_FailureResetAfter r \<noteq> 0)])"

text \<open>The switch over the action: the problems, or \<open>None\<close> with the problem of an unknown action.\<close>

definition action_validate :: "ActionRule \<Rightarrow> string \<Rightarrow> problem list option" where
  "action_validate r path =
     (if ar_Action r = ActionCooldown then Some (validateCooldown r path)
      else if ar_Action r = ActionBan then
        Some (rejectCooldownFields r path @
          (if ar_Duration r = 0
           then [Problem (field path ''duration'') ''is required for ban (a duration or permanent)'' []]
           else if \<not> IsPermanent (ar_Duration r) then v_duration (field path ''duration'') (ar_Duration r) Second 0
           else []))
      else if ar_Action r = ActionQuarantine then
        Some (rejectCooldownFields r path @
          (if ar_Duration r = 0 then [Problem (field path ''duration'') ''is required for quarantine'' []]
           else v_duration (field path ''duration'') (ar_Duration r) Second 0))
      else if ar_Action r = ActionExpire then
        Some (rejectCooldownFields r path @
          (if ar_Duration r \<noteq> 0 then [Problem (field path ''duration'') ''is not supported for expire'' []] else []))
      else None)"

definition ActionRule_validate :: "ActionRule \<Rightarrow> string \<Rightarrow> problem list" where
  "ActionRule_validate r path =
     (let outcomePath = field path ''when.outcome''; scopeValid = (Subject (ar_Scope r) \<noteq> '''') in
      (if ar_Outcome r = [] then [Problem outcomePath ''is required'' []] else []) @
      outcomes_validate outcomePath 0 {} (ar_Outcome r) @
      (case ar_Count r of
         None \<Rightarrow> []
       | Some c \<Rightarrow>
           v_minInt (field path ''when.count.gte'') (cc_Gte c) 1 @
           v_duration (field path ''when.count.within'') (cc_Within c) minCounterWindow 0) @
      (if \<not> scopeValid
       then [Problem (field path ''scope'')
               ''must be one of identity_endpoint|identity_site|identity|account|proxy_site|proxy (got %q)''
               [A_str (ar_Scope r)]]
       else []) @
      (case action_validate r path of
         None \<Rightarrow>
           [Problem (field path ''action'') ''must be one of cooldown|expire|quarantine|ban (got %q)'' [A_str (ar_Action r)]]
       | Some ps \<Rightarrow>
           ps @
           (if scopeValid \<and> \<not> ScopeAllowed (ar_Action r) (ar_Scope r)
            then [Problem (field path ''scope'') ''%s does not support scope %s (allowed: %s)''
                    [A_str (ar_Action r), A_str (ar_Scope r), A_str (allowedScopes (ar_Action r))]]
            else [])))"

fun action_rules_validate :: "nat \<Rightarrow> (string \<times> nat) list \<Rightarrow> ActionRule list \<Rightarrow> problem list" where
  "action_rules_validate i names [] = []"
| "action_rules_validate i names (r # rs) =
     (let path = item ''rules'' i;
          (ps, names') = validateRuleName path (ar_Name r) i names in
      ps @
      (if reservedActionRuleName (ar_Name r)
       then [Problem (field path ''name'') ''%q is reserved for built-in health and lifecycle actions'' [A_str (ar_Name r)]]
       else []) @
      ActionRule_validate r path @
      action_rules_validate (Suc i) names' rs)"

definition step_order_validate :: "nat \<Rightarrow> EscalationStep \<Rightarrow> EscalationStep \<Rightarrow> problem list" where
  "step_order_validate i prev st =
     (let path = item ''escalation'' (Suc i) in
      (if cc_Gte (es_Bans st) \<le> cc_Gte (es_Bans prev)
       then [Problem (field path ''when.bans.gte'') ''must be greater than escalation[%d].when.bans.gte (%d)''
               [A_int (int i), A_int (cc_Gte (es_Bans prev))]]
       else []) @
      (if IsPermanent (es_Duration prev) \<and> \<not> IsPermanent (es_Duration st) \<or>
          \<not> IsPermanent (es_Duration prev) \<and> \<not> IsPermanent (es_Duration st) \<and> es_Duration st < es_Duration prev
       then [Problem (field path ''duration'') ''must not be shorter than escalation[%d].duration (%s)''
               [A_int (int i), A_dur (es_Duration prev)]]
       else []))"

definition step_validate :: "nat \<Rightarrow> EscalationStep \<Rightarrow> problem list" where
  "step_validate i st =
     (let path = item ''escalation'' i in
      v_minInt (field path ''when.bans.gte'') (cc_Gte (es_Bans st)) 1 @
      v_duration (field path ''when.bans.within'') (cc_Within (es_Bans st)) Second maxBanHistoryWindow @
      (if es_Duration st = 0 then [Problem (field path ''duration'') ''is required (a duration or permanent)'' []]
       else if \<not> IsPermanent (es_Duration st) then v_duration (field path ''duration'') (es_Duration st) Second 0
       else []))"

fun later_steps_validate :: "nat \<Rightarrow> EscalationStep \<Rightarrow> EscalationStep list \<Rightarrow> problem list" where
  "later_steps_validate i prev [] = []"
| "later_steps_validate i prev (st # sts) =
     step_validate (Suc i) st @ step_order_validate i prev st @ later_steps_validate (Suc i) st sts"

definition validateEscalation :: "EscalationStep list \<Rightarrow> problem list" where
  "validateEscalation steps =
     (case steps of [] \<Rightarrow> [] | st # sts \<Rightarrow> step_validate 0 st @ later_steps_validate 0 st sts)"

definition observation_validate :: "string \<Rightarrow> (outcome \<times> f64) list \<Rightarrow> outcome \<Rightarrow> problem list" where
  "observation_validate path obs out =
     (let p = field (field path ''observations'') out in
      if \<not> ValidOutcome out then [Problem p ''unknown outcome %q'' [A_str out]]
      else v_score p (the (map_of obs out)))"

definition HealthSpec_validate :: "HealthSpec \<Rightarrow> string \<Rightarrow> problem list" where
  "HealthSpec_validate h path =
     v_ratio (field path ''alpha'') (h_Alpha h) True @
     v_score (field path ''baseline'') (h_Baseline h) @
     v_duration (field path ''tau'') (h_Tau h) Second 0 @
     concat (map (observation_validate path (h_Observations h)) (sort (remdups (map fst (h_Observations h))))) @
     v_score (field path ''endpoint_low_score'') (h_EndpointLowScore h) @
     v_minInt (field path ''endpoint_low_min_samples'') (h_EndpointLowMinSamples h) 1 @
     v_duration (field path ''endpoint_low_cooldown'') (h_EndpointLowCooldown h) Second 0 @
     v_score (field path ''quarantine_score'') (h_QuarantineScore h) @
     v_minInt (field path ''quarantine_min_samples'') (h_QuarantineMinSamples h) 1 @
     v_duration (field path ''quarantine_duration'') (h_QuarantineDuration h) Second 0"

definition ActionSpec_Validate :: "ActionSpec option \<Rightarrow> ValidationError option" where
  "ActionSpec_Validate spec =
     (case spec of
        None \<Rightarrow> Some \<lparr>ve_Kind = KindAction, ve_Name = '''', ve_Problems = [Problem '''' ''spec is nil'' []]\<rparr>
      | Some s \<Rightarrow>
          let c = as_CrossAttribution s in
          v_result
            (validateCommon (as_Name s) (as_Description s) (as_Bind s) @
             validateExtends (as_Name s) (as_Extends s) @
             v_enum ''mode'' (as_Mode s) [ModeEnforce, ModeShadow] @
             action_rules_validate 0 [] (as_Rules s) @
             validateEscalation (as_Escalation s) @
             HealthSpec_validate (as_Health s) ''health'' @
             v_enum ''ban_expiry_state'' (as_BanExpiryState s) [BanExpiryPending, BanExpiryActive] @
             v_duration ''cross_attribution.window'' (ca_Window c) Second 0 @
             v_minInt ''cross_attribution.proxy_distinct_identities'' (ca_ProxyDistinctIdentities c) 1 @
             v_minInt ''cross_attribution.identity_distinct_proxies'' (ca_IdentityDistinctProxies c) 1)
            KindAction (as_Name s))"

end
