(* ===== verification/Policy_Severity.thy ===== *)
theory Policy_Severity
  imports Policy_Action
begin

text \<open>
  \<^verbatim>\<open>internal/policy/severity.go\<close>: the order on planned actions, the reduction to one action per
  subject, and the duration of a cooldown in floating point.
\<close>

section \<open>Planned actions and their order\<close>

record PlannedAction =
  pa_Action :: actionKind
  pa_Scope :: actionScope
  pa_Duration :: int
  pa_Permanent :: bool
  pa_Severity :: int
  pa_RuleIndex :: int
  pa_RuleName :: string
  pa_Source :: string

definition Severity :: "PlannedAction \<Rightarrow> int" where
  "Severity a =
     (if pa_Action a = ActionActivate then 0
      else if pa_Action a = ActionCooldown then 1
      else if pa_Action a = ActionQuarantine then 2
      else if pa_Action a = ActionExpire then 3
      else if pa_Action a = ActionBan then (if pa_Permanent a then 5 else 4)
      else -1)"

definition effectiveDuration :: "PlannedAction \<Rightarrow> int" where
  "effectiveDuration a = (if pa_Permanent a then MaxInt64 else pa_Duration a)"

definition scopeBreadth :: "actionScope \<Rightarrow> int" where
  "scopeBreadth s =
     (if s \<in> {ScopeIdentityEndpoint, ScopeProxySite} then 0
      else if s \<in> {ScopeIdentitySite, ScopeProxy, ScopeAccount} then 1
      else if s = ScopeIdentity then 2
      else -1)"

definition moreSevere :: "PlannedAction \<Rightarrow> PlannedAction \<Rightarrow> bool" where
  "moreSevere a b =
     (if Severity a \<noteq> Severity b then Severity a > Severity b
      else if effectiveDuration a \<noteq> effectiveDuration b then effectiveDuration a > effectiveDuration b
      else if scopeBreadth (pa_Scope a) \<noteq> scopeBreadth (pa_Scope b)
      then scopeBreadth (pa_Scope a) > scopeBreadth (pa_Scope b)
      else pa_RuleIndex a < pa_RuleIndex b)"

definition subject_group :: "PlannedAction \<Rightarrow> nat" where
  "subject_group a =
     (if Subject (pa_Scope a) = SubjectIdentity then 0
      else if Subject (pa_Scope a) = SubjectAccount then 1
      else if Subject (pa_Scope a) = SubjectProxy then 2
      else 3)"

definition best_step :: "PlannedAction list \<Rightarrow> nat option list \<Rightarrow> nat \<Rightarrow> nat option list" where
  "best_step actions best i =
     (let g = subject_group (actions ! i) in
      case best ! g of
        None \<Rightarrow> best[g := Some i]
      | Some b \<Rightarrow> if moreSevere (actions ! i) (actions ! b) then best[g := Some i] else best)"

definition MostSevere :: "PlannedAction list \<Rightarrow> PlannedAction list" where
  "MostSevere actions =
     (if actions = [] then []
      else let best = foldl (best_step actions) [None, None, None, None] [0..<length actions] in
           map (\<lambda>i. (actions ! i)\<lparr>pa_Severity := Severity (actions ! i)\<rparr>) (map the (filter (\<lambda>x. x \<noteq> None) best)))"

section \<open>Powers and cooldowns\<close>

text \<open>
  \<^verbatim>\<open>math.Pow\<close> for a base of at least 1 (or infinite) and an integral exponent that is not negative,
  the only arguments the cooldown passes: the base is split into a mantissa and an exponent, the
  mantissa is squared and multiplied with rounding, and the result is scaled once.
\<close>

function pow_loop :: "int \<Rightarrow> f64 \<Rightarrow> int \<Rightarrow> f64 \<Rightarrow> int \<Rightarrow> f64 \<times> int" where
  "pow_loop i x1 xe a1 ae =
     (if i \<le> 0 then (a1, ae)
      else if xe < - 4096 \<or> 4096 < xe then (a1, ae + xe)
      else let (a1', ae') = (if odd i then (f_mul a1 x1, ae + xe) else (a1, ae));
               x2 = f_mul x1 x1 in
           if f_lt x2 (Fin (1 / 2)) then pow_loop (i div 2) (f_add x2 x2) (2 * xe - 1) a1' ae'
           else pow_loop (i div 2) x2 (2 * xe) a1' ae')"
  by pat_completeness auto
termination by (relation "measure (\<lambda>(i, _). nat i)") auto

declare pow_loop.simps [simp del]

definition scale :: "f64 \<times> int \<Rightarrow> f64" where
  "scale p = (case fst p of Fin a \<Rightarrow> to_f64 (a * pow2 (snd p)) | x \<Rightarrow> x)"

definition math_Pow :: "f64 \<Rightarrow> f64 \<Rightarrow> f64" where
  "math_Pow x y =
     (if f_eq y (Fin 0) \<or> f_eq x (Fin 1) then Fin 1
      else if f_eq y (Fin 1) then x
      else case (x, y) of
          (Inf True, Fin _) \<Rightarrow> Inf True
        | (Fin q, Fin n) \<Rightarrow>
            if n \<ge> 2 ^ 63 then Inf True
            else scale (pow_loop \<lfloor>n\<rfloor> (Fin (q / pow2 (elog q + 1))) (elog q + 1) (Fin 1) 0)
        | _ \<Rightarrow> NaN)"

definition f_0_8 :: f64 where "f_0_8 = to_f64 (8 / 10)"
definition f_1_2 :: f64 where "f_1_2 = to_f64 (12 / 10)"
definition maxFloat :: f64 where "maxFloat = Fin (2 ^ 63)"

definition clamp_jitter :: "f64 \<Rightarrow> f64" where
  "clamp_jitter jitter =
     (if jitter = NaN then Fin 1
      else if f_lt jitter f_0_8 then f_0_8
      else if f_lt f_1_2 jitter then f_1_2
      else jitter)"

definition cooldown_float :: "int \<Rightarrow> int \<Rightarrow> f64 \<Rightarrow> int \<Rightarrow> int \<Rightarrow> f64" where
  "cooldown_float base maxDur multiplier maxExponent streak =
     (let streak = (if streak < 1 then 1 else streak);
          maxExponent = (if maxExponent < 0 then 0 else maxExponent);
          multiplier = (if \<not> f_le (Fin 1) multiplier then Fin 1 else multiplier);
          exponent = (if streak - 1 > maxExponent then maxExponent else streak - 1);
          d = f_mul (of_int64 base) (math_Pow multiplier (of_int64 exponent)) in
      if maxDur > 0 \<and> f_lt (of_int64 maxDur) d then of_int64 maxDur else d)"

definition whole_millis :: "f64 \<Rightarrow> int" where
  "whole_millis d =
     (if f_le maxFloat d \<or> d = Inf True then MaxInt64
      else let ms = f_round (f_div d (Fin (of_int Millisecond)));
               ms = (if f_lt ms (Fin 1) then Fin 1 else ms) in
           if f_le maxFloat (f_mul ms (Fin (of_int Millisecond))) then MaxInt64
           else wrap64 (to_int64 ms * Millisecond))"

definition CooldownDuration :: "int \<Rightarrow> int \<Rightarrow> f64 \<Rightarrow> int \<Rightarrow> int \<Rightarrow> f64 \<Rightarrow> int" where
  "CooldownDuration base maxDur multiplier maxExponent streak jitter =
     (if base \<le> 0 then 0
      else whole_millis
             (f_mul (cooldown_float base maxDur multiplier maxExponent streak) (clamp_jitter jitter)))"

end
