(* ===== verification/Policy_Evaluate.thy ===== *)
theory Policy_Evaluate
  imports Policy_Severity
begin

text \<open>
  \<^verbatim>\<open>internal/policy/evaluate.go\<close>: the compilation of a chain of action policies and the plan of
  actions for one classified report.  The random source of the jitter is a function of the number of
  calls made to it, and the loop over the rules counts them.
\<close>

unbundle bit_operations_syntax

section \<open>Compiled action chains\<close>

abbreviation SourceRule :: string where "SourceRule \<equiv> ''rule''"
abbreviation SourceHealth :: string where "SourceHealth \<equiv> ''health''"
abbreviation SourceLifecycle :: string where "SourceLifecycle \<equiv> ''lifecycle''"
abbreviation SourceEscalation :: string where "SourceEscalation \<equiv> ''escalation''"
abbreviation identityStatePending :: string where "identityStatePending \<equiv> ''pending''"

record CounterRequest =
  cr_Subject :: subjectKind
  cr_Outcome :: outcome
  cr_Window :: int

record EvalInput =
  ei_Outcome :: outcome
  ei_Blame :: blame
  ei_IdentityState :: string
  ei_HasAccount :: bool
  ei_HasProxy :: bool
  ei_Counts :: "CounterRequest \<Rightarrow> int"
  ei_BanCounts :: "int \<Rightarrow> int"
  ei_EndpointStreak :: int
  ei_SiteStreak :: int
  ei_ProxyStreak :: int
  ei_EndpointScore :: f64
  ei_EndpointSamples :: int
  ei_GlobalScore :: f64
  ei_GlobalSamples :: int
  ei_EndpointCooldownRemaining :: int
  ei_Jitter :: "(nat \<Rightarrow> f64) option"

record actionMatcher =
  am_index :: int
  am_name :: string
  am_outcomes :: "32 word"
  am_hasCount :: bool
  am_countGte :: int
  am_countWindow :: int
  am_subject :: subjectKind
  am_action :: actionKind
  am_scope :: actionScope
  am_base :: int
  am_maxDur :: int
  am_multiplier :: f64
  am_maxExponent :: int
  am_duration :: int
  am_permanent :: bool

record escalationStep =
  st_gte :: int
  st_window :: int
  st_duration :: int
  st_permanent :: bool

record healthThresholds =
  ht_endpointLowScore :: f64
  ht_endpointLowMinSamples :: int
  ht_endpointLowCooldown :: int
  ht_quarantineScore :: f64
  ht_quarantineMinSamples :: int
  ht_quarantineDuration :: int

record CompiledAction =
  ca_Mode :: string
  ca_Health :: HealthSpec
  ca_CrossAttribution :: CrossAttributionSpec
  ca_BanExpiryState :: string
  ca_rules :: "actionMatcher list"
  ca_escalation :: "escalationStep list"
  ca_counters :: "CounterRequest list list"
  ca_escalationWindows :: "int list"
  ca_observations :: "(f64 \<times> bool) list"
  ca_failureResetAfter :: int
  ca_health :: healthThresholds

definition add_outcome :: "32 word \<Rightarrow> outcome \<Rightarrow> 32 word" where
  "add_outcome w out = (let idx = outcomeIndex out in if idx \<ge> 0 then w OR push_bit (nat idx) 1 else w)"

definition compile_rule :: "nat \<Rightarrow> string \<Rightarrow> nat \<Rightarrow> ActionRule \<Rightarrow> actionMatcher" where
  "compile_rule index policy i r =
     \<lparr>am_index = int index, am_name = ruleLabel policy i (ar_Name r),
      am_outcomes = foldl add_outcome 0 (ar_Outcome r),
      am_hasCount = (ar_Count r \<noteq> None),
      am_countGte = (case ar_Count r of Some c \<Rightarrow> cc_Gte c | None \<Rightarrow> 0),
      am_countWindow = (case ar_Count r of Some c \<Rightarrow> Std (cc_Within c) | None \<Rightarrow> 0),
      am_subject = Subject (ar_Scope r), am_action = ar_Action r,
      am_scope = (if ar_Action r = ActionCooldown \<and> ar_Scope r = ScopeIdentity then ScopeIdentitySite else ar_Scope r),
      am_base = Std (ar_Base r), am_maxDur = Std (ar_Max r), am_multiplier = ar_Multiplier r,
      am_maxExponent = ar_MaxExponent r,
      am_duration = (if IsPermanent (ar_Duration r) then 0 else Std (ar_Duration r)),
      am_permanent = IsPermanent (ar_Duration r)\<rparr>"

text \<open>The loop over the rules of one policy: the matchers so far, the reset period and whether a cooldown was seen.\<close>

fun compile_policy_rules :: "string \<Rightarrow> nat \<Rightarrow> ActionRule list \<Rightarrow> actionMatcher list \<times> int \<times> bool \<Rightarrow> actionMatcher list \<times> int \<times> bool" where
  "compile_policy_rules policy i [] st = st"
| "compile_policy_rules policy i (r # rs) (ms, reset, saw) =
     (let m = compile_rule (length ms) policy i r;
          d = Std (ar_FailureResetAfter r);
          reset' = (if ar_Action r = ActionCooldown \<and> (\<not> saw \<or> d > reset) then d else reset);
          saw' = (saw \<or> ar_Action r = ActionCooldown) in
      compile_policy_rules policy (Suc i) rs (ms @ [m], reset', saw'))"

definition add_counter :: "nat \<Rightarrow> CounterRequest list \<Rightarrow> actionMatcher \<Rightarrow> CounterRequest list" where
  "add_counter idx reqs m =
     (if \<not> am_hasCount m \<or> am_outcomes m AND push_bit idx 1 = 0 then reqs
      else let req = \<lparr>cr_Subject = am_subject m, cr_Outcome = Outcomes ! idx, cr_Window = am_countWindow m\<rparr> in
           if req \<in> set reqs then reqs else reqs @ [req])"

definition compileRules :: "ActionSpec list \<Rightarrow> CompiledAction \<Rightarrow> CompiledAction" where
  "compileRules chain c =
     (let (ms, reset, saw) =
            foldl (\<lambda>st s. compile_policy_rules (as_Name s) 0 (as_Rules s) st) (ca_rules c, DefaultFailureResetAfter, False) chain in
      c\<lparr>ca_rules := ms, ca_failureResetAfter := reset,
        ca_counters := map (\<lambda>idx. foldl (add_counter idx) [] ms) [0..<outcomeCount]\<rparr>)"

definition compile_step :: "EscalationStep \<Rightarrow> escalationStep" where
  "compile_step st =
     \<lparr>st_gte = cc_Gte (es_Bans st), st_window = Std (cc_Within (es_Bans st)),
      st_duration = (if IsPermanent (es_Duration st) then 0 else Std (es_Duration st)),
      st_permanent = IsPermanent (es_Duration st)\<rparr>"

definition add_window :: "int list \<Rightarrow> escalationStep \<Rightarrow> int list" where
  "add_window ws st = (if st_window st \<in> set ws then ws else ws @ [st_window st])"

fun escalation_source :: "ActionSpec list \<Rightarrow> EscalationStep list" where
  "escalation_source [] = []"
| "escalation_source (s # leaf_first) =
     (if as_Escalation s = [] then escalation_source leaf_first else as_Escalation s)"

definition compileEscalation :: "ActionSpec list \<Rightarrow> CompiledAction \<Rightarrow> CompiledAction" where
  "compileEscalation chain c =
     (let steps = map compile_step (escalation_source (rev chain)) in
      c\<lparr>ca_escalation := ca_escalation c @ steps,
        ca_escalationWindows := foldl add_window (ca_escalationWindows c) steps\<rparr>)"

definition default_observations :: "(outcome \<times> f64) list" where
  "default_observations =
     [(OutcomeSuccess, Fin 100), (OutcomeEmpty, Fin 60), (OutcomeNetworkError, Fin 50),
      (OutcomeRateLimited, Fin 30), (OutcomeForbidden, Fin 10), (OutcomeCaptcha, Fin 0)]"

definition observe :: "(f64 \<times> bool) list \<Rightarrow> outcome \<times> f64 \<Rightarrow> (f64 \<times> bool) list" where
  "observe obs ov =
     (let idx = outcomeIndex (fst ov) in if idx \<ge> 0 then obs[nat idx := (snd ov, True)] else obs)"

definition compileObservations :: "(outcome \<times> f64) list \<Rightarrow> CompiledAction \<Rightarrow> CompiledAction" where
  "compileObservations overrides c =
     c\<lparr>ca_observations :=
         foldl observe (foldl observe (ca_observations c) default_observations)
           (map (\<lambda>k. (k, the (map_of overrides k))) (remdups (map fst overrides)))\<rparr>"

fun check_action_chain :: "nat \<Rightarrow> ActionSpec option list \<Rightarrow> compile_error + ActionSpec list" where
  "check_action_chain i [] = Inr []"
| "check_action_chain i (None # ss) = Inl (Nil_element i)"
| "check_action_chain i (Some s # ss) =
     (case ActionSpec_Validate (Some s) of
        Some e \<Rightarrow> Inl (Invalid_policy (as_Name s) e)
      | None \<Rightarrow> (case check_action_chain (Suc i) ss of Inl e \<Rightarrow> Inl e | Inr l \<Rightarrow> Inr (s # l)))"

definition CompileAction :: "ActionSpec option list \<Rightarrow> compile_error + CompiledAction" where
  "CompileAction chain =
     (if chain = [] then Inl Empty_chain
      else case check_action_chain 0 chain of
        Inl e \<Rightarrow> Inl e
      | Inr specs \<Rightarrow>
          let leaf = last specs; h = as_Health leaf;
              c = \<lparr>ca_Mode = as_Mode leaf, ca_Health = h, ca_CrossAttribution = as_CrossAttribution leaf,
                   ca_BanExpiryState = as_BanExpiryState leaf, ca_rules = [], ca_escalation = [],
                   ca_counters = replicate outcomeCount [], ca_escalationWindows = [],
                   ca_observations = replicate outcomeCount (Fin 0, False), ca_failureResetAfter = 0,
                   ca_health =
                     \<lparr>ht_endpointLowScore = h_EndpointLowScore h, ht_endpointLowMinSamples = h_EndpointLowMinSamples h,
                      ht_endpointLowCooldown = Std (h_EndpointLowCooldown h), ht_quarantineScore = h_QuarantineScore h,
                      ht_quarantineMinSamples = h_QuarantineMinSamples h,
                      ht_quarantineDuration = Std (h_QuarantineDuration h)\<rparr>\<rparr> in
          Inr (compileObservations (h_Observations h) (compileEscalation specs (compileRules specs c))))"

definition CounterRequests :: "CompiledAction option \<Rightarrow> outcome \<Rightarrow> CounterRequest list" where
  "CounterRequests c out =
     (let idx = outcomeIndex out in
      case c of None \<Rightarrow> [] | Some c \<Rightarrow> if idx < 0 then [] else ca_counters c ! nat idx)"

definition EscalationWindows :: "CompiledAction option \<Rightarrow> int list" where
  "EscalationWindows c = (case c of None \<Rightarrow> [] | Some c \<Rightarrow> ca_escalationWindows c)"

definition FailureResetAfter :: "CompiledAction option \<Rightarrow> int" where
  "FailureResetAfter c = (case c of None \<Rightarrow> DefaultFailureResetAfter | Some c \<Rightarrow> ca_failureResetAfter c)"

definition Shadow :: "CompiledAction option \<Rightarrow> bool" where
  "Shadow c = (case c of None \<Rightarrow> False | Some c \<Rightarrow> ca_Mode c = ModeShadow)"

section \<open>Observations\<close>

definition effectiveBlame :: "outcome \<Rightarrow> blame \<Rightarrow> blame" where
  "effectiveBlame out b = (if b = '''' then DefaultBlame out else b)"

definition Observation :: "CompiledAction option \<Rightarrow> outcome \<Rightarrow> blame \<Rightarrow> f64 \<times> bool" where
  "Observation c out b =
     (let idx = outcomeIndex out in
      case c of
        None \<Rightarrow> (Fin 0, False)
      | Some c \<Rightarrow>
          if idx < 0 \<or> \<not> snd (ca_observations c ! nat idx) then (Fin 0, False)
          else if out = OutcomeSuccess then (fst (ca_observations c ! nat idx), True)
          else (fst (ca_observations c ! nat idx), blame_Identity (effectiveBlame out b)))"

definition ProxyObservation :: "outcome \<Rightarrow> blame \<Rightarrow> f64 \<times> bool" where
  "ProxyObservation out b =
     (let b = effectiveBlame out b in
      if out = OutcomeSuccess then (Fin 100, True)
      else if out = OutcomeProxyError then (Fin 0, blame_Proxy b)
      else if out = OutcomeNetworkError then (Fin 40, blame_Proxy b)
      else if out = OutcomeRateLimited then (Fin 30, blame_Proxy b)
      else (Fin 0, False))"

section \<open>Planning\<close>

definition stepLonger :: "escalationStep \<Rightarrow> escalationStep \<Rightarrow> bool" where
  "stepLonger a b =
     (if st_permanent a \<noteq> st_permanent b then st_permanent a else st_duration a > st_duration b)"

text \<open>One iteration of the search for the step with the highest threshold.\<close>

definition better_step :: "EvalInput \<Rightarrow> escalationStep option \<Rightarrow> escalationStep \<Rightarrow> escalationStep option" where
  "better_step inp best st =
     (if wrap64 (ei_BanCounts inp (st_window st) + 1) < st_gte st then best
      else case best of
        None \<Rightarrow> Some st
      | Some b \<Rightarrow>
          if st_gte st > st_gte b \<or> st_gte st = st_gte b \<and> stepLonger st b then Some st else best)"

definition escalate :: "CompiledAction \<Rightarrow> EvalInput \<Rightarrow> PlannedAction \<Rightarrow> PlannedAction" where
  "escalate c inp pa =
     (case foldl (better_step inp) None (ca_escalation c) of
        None \<Rightarrow> pa
      | Some st \<Rightarrow>
          if st_permanent st then pa\<lparr>pa_Permanent := True, pa_Duration := 0, pa_Source := SourceEscalation\<rparr>
          else if st_duration st > pa_Duration pa
          then pa\<lparr>pa_Duration := st_duration st, pa_Source := SourceEscalation\<rparr>
          else pa)"

definition streakFor :: "actionScope \<Rightarrow> EvalInput \<Rightarrow> int" where
  "streakFor scope inp =
     (if scope = ScopeIdentityEndpoint then ei_EndpointStreak inp
      else if scope = ScopeProxySite \<or> scope = ScopeProxy then ei_ProxyStreak inp
      else ei_SiteStreak inp)"

text \<open>\<^verbatim>\<open>jitterFactor\<close> for the value of the next call, \<open>None\<close> without a source.\<close>

definition jitterFactor :: "f64 option \<Rightarrow> f64" where
  "jitterFactor fn =
     (case fn of
        None \<Rightarrow> Fin 1
      | Some j \<Rightarrow>
          let j = (if j = NaN \<or> f_lt j (Fin 0) then Fin 0 else if f_lt (Fin 1) j then Fin 1 else j) in
          f_add f_0_8 (f_mul (to_f64 (4 / 10)) j))"

text \<open>The scope an action is planned at, or \<open>None\<close> when the blame or the subject rules it out.\<close>

definition plan_scope :: "actionMatcher \<Rightarrow> EvalInput \<Rightarrow> actionScope option" where
  "plan_scope m inp =
     (let scope = am_scope m in
      if Subject scope = SubjectIdentity then (if blame_Identity (ei_Blame inp) then Some scope else None)
      else if Subject scope = SubjectAccount then
        (if \<not> blame_Identity (ei_Blame inp) then None
         else if \<not> ei_HasAccount inp then
           Some (if am_action m = ActionCooldown then ScopeIdentitySite else ScopeIdentity)
         else Some scope)
      else if Subject scope = SubjectProxy then
        (if \<not> blame_Proxy (ei_Blame inp) \<or> \<not> ei_HasProxy inp then None else Some scope)
      else None)"

definition with_severity :: "PlannedAction \<Rightarrow> PlannedAction" where
  "with_severity pa = pa\<lparr>pa_Severity := Severity pa\<rparr>"

text \<open>\<open>k\<close> counts the calls of the random source; a planned cooldown makes one.\<close>

definition planRule :: "CompiledAction \<Rightarrow> actionMatcher \<Rightarrow> EvalInput \<Rightarrow> nat \<Rightarrow> PlannedAction option \<times> nat" where
  "planRule c m inp k =
     (case plan_scope m inp of
        None \<Rightarrow> (None, k)
      | Some scope \<Rightarrow>
          let pa = \<lparr>pa_Action = am_action m, pa_Scope = scope, pa_Duration = 0, pa_Permanent = False,
                    pa_Severity = 0, pa_RuleIndex = am_index m, pa_RuleName = am_name m, pa_Source = SourceRule\<rparr> in
          if am_action m = ActionCooldown then
            (Some (with_severity (pa\<lparr>pa_Duration :=
               CooldownDuration (am_base m) (am_maxDur m) (am_multiplier m) (am_maxExponent m) (streakFor scope inp)
                 (jitterFactor (map_option (\<lambda>f. f k) (ei_Jitter inp)))\<rparr>)), Suc k)
          else if am_action m = ActionBan then
            (Some (with_severity
               (if am_permanent m then pa\<lparr>pa_Permanent := True\<rparr>
                else let pa = pa\<lparr>pa_Duration := am_duration m\<rparr> in
                     if Subject scope \<noteq> SubjectProxy then escalate c inp pa else pa)), k)
          else if am_action m = ActionQuarantine then
            (Some (with_severity (pa\<lparr>pa_Duration := am_duration m\<rparr>)), k)
          else (Some (with_severity pa), k))"

definition counter_key :: "actionMatcher \<Rightarrow> EvalInput \<Rightarrow> CounterRequest" where
  "counter_key m inp =
     \<lparr>cr_Subject = am_subject m, cr_Outcome = ei_Outcome inp, cr_Window = am_countWindow m\<rparr>"

definition rule_applies :: "actionMatcher \<Rightarrow> EvalInput \<Rightarrow> bool" where
  "rule_applies m inp \<longleftrightarrow>
     \<not> (am_outcomes m AND push_bit (nat (outcomeIndex (ei_Outcome inp))) 1 = 0) \<and>
     \<not> (am_hasCount m \<and> ei_Counts inp (counter_key m inp) < am_countGte m)"

fun plan_rules :: "CompiledAction \<Rightarrow> EvalInput \<Rightarrow> nat \<Rightarrow> actionMatcher list \<Rightarrow> PlannedAction list" where
  "plan_rules c inp k [] = []"
| "plan_rules c inp k (m # ms) =
     (if \<not> rule_applies m inp then plan_rules c inp k ms
      else case planRule c m inp k of
        (None, k') \<Rightarrow> plan_rules c inp k' ms
      | (Some pa, k') \<Rightarrow> pa # plan_rules c inp k' ms)"

definition plan_endpoint_low :: "healthThresholds \<Rightarrow> PlannedAction" where
  "plan_endpoint_low h = with_severity
     \<lparr>pa_Action = ActionCooldown, pa_Scope = ScopeIdentityEndpoint, pa_Duration = ht_endpointLowCooldown h,
      pa_Permanent = False, pa_Severity = 0, pa_RuleIndex = -1, pa_RuleName = RuleNameEndpointLow, pa_Source = SourceHealth\<rparr>"

definition plan_quarantine :: "healthThresholds \<Rightarrow> PlannedAction" where
  "plan_quarantine h = with_severity
     \<lparr>pa_Action = ActionQuarantine, pa_Scope = ScopeIdentity, pa_Duration = ht_quarantineDuration h,
      pa_Permanent = False, pa_Severity = 0, pa_RuleIndex = -1, pa_RuleName = RuleNameQuarantine, pa_Source = SourceHealth\<rparr>"

text \<open>\<^verbatim>\<open>appendHealth\<close>: the actions it appends.\<close>

definition appendHealth :: "CompiledAction \<Rightarrow> EvalInput \<Rightarrow> PlannedAction list" where
  "appendHealth c inp =
     (if \<not> blame_Identity (ei_Blame inp) \<and> \<not> IsFailureOutcome (ei_Outcome inp) then []
      else let h = ca_health c in
        (if ei_EndpointSamples inp \<ge> ht_endpointLowMinSamples h \<and> f_lt (ei_EndpointScore inp) (ht_endpointLowScore h) \<and>
            ei_EndpointCooldownRemaining inp < ht_endpointLowCooldown h
         then [plan_endpoint_low h] else []) @
        (if ei_GlobalSamples inp \<ge> ht_quarantineMinSamples h \<and> f_lt (ei_GlobalScore inp) (ht_quarantineScore h)
         then [plan_quarantine h] else []))"

definition plan_activate :: PlannedAction where
  "plan_activate =
     \<lparr>pa_Action = ActionActivate, pa_Scope = ScopeIdentity, pa_Duration = 0, pa_Permanent = False, pa_Severity = 0,
      pa_RuleIndex = -1, pa_RuleName = RuleNameActivate, pa_Source = SourceLifecycle\<rparr>"

text \<open>The actions collected before the reduction, for an input whose blame is already effective.\<close>

definition planned_actions :: "CompiledAction \<Rightarrow> EvalInput \<Rightarrow> PlannedAction list" where
  "planned_actions c inp =
     (if ei_IdentityState inp = identityStatePending \<and> ei_Outcome inp = OutcomeSuccess then [plan_activate] else []) @
     (if outcomeIndex (ei_Outcome inp) \<ge> 0 then plan_rules c inp 0 (ca_rules c) else []) @
     appendHealth c inp"

definition Evaluate :: "CompiledAction option \<Rightarrow> EvalInput \<Rightarrow> PlannedAction list" where
  "Evaluate c inp =
     (case c of
        None \<Rightarrow> []
      | Some c \<Rightarrow>
          let inp = inp\<lparr>ei_Blame := effectiveBlame (ei_Outcome inp) (ei_Blame inp)\<rparr> in
          MostSevere (planned_actions c inp))"

end
