(* ===== verification/Policy_Severity_Laws.thy ===== *)
theory Policy_Severity_Laws
  imports Policy_Severity
begin

text \<open>
  The reduction to one action per subject selects the winners of the severity order, which meets the
  contract of a strict weak order; and the floating-point cooldown stays in range, between its base
  and its cap, for every multiplier, exponent and jitter.
\<close>

section \<open>The order on actions\<close>

interpretation severity: strict_weak moreSevere
  by unfold_locales (auto simp: moreSevere_def split: if_splits)

definition action_index :: "PlannedAction list \<Rightarrow> nat \<Rightarrow> nat \<Rightarrow> bool" where
  "action_index actions g i \<longleftrightarrow>
     i < length actions \<and> subject_group (actions ! i) = g \<and>
     (\<forall>j < length actions. subject_group (actions ! j) = g \<longrightarrow> \<not> moreSevere (actions ! j) (actions ! i)) \<and>
     (\<forall>j < i. subject_group (actions ! j) = g \<longrightarrow> moreSevere (actions ! i) (actions ! j))"

lemma subject_group_less: "subject_group a < 4"
  by (simp add: subject_group_def)

lemma length_best [simp]: "length (foldl (best_step actions) best is) = length best"
  by (induction "is" arbitrary: best) (auto simp: best_step_def Let_def split: option.splits)

text \<open>
  After the first \<open>k\<close> actions the entry of a subject is the first of its actions among them that
  none of them outranks.
\<close>

definition best_of :: "PlannedAction list \<Rightarrow> nat \<Rightarrow> nat option list \<Rightarrow> nat \<Rightarrow> bool" where
  "best_of actions k best g \<longleftrightarrow>
     (case best ! g of
        None \<Rightarrow> \<forall>j < k. subject_group (actions ! j) \<noteq> g
      | Some i \<Rightarrow> i < k \<and> subject_group (actions ! i) = g \<and>
          (\<forall>j < k. subject_group (actions ! j) = g \<longrightarrow> \<not> moreSevere (actions ! j) (actions ! i)) \<and>
          (\<forall>j < i. subject_group (actions ! j) = g \<longrightarrow> moreSevere (actions ! i) (actions ! j)))"

lemma best_step_of:
  assumes "length best = 4" and "g < 4" and IH: "best_of actions k best g"
  shows "best_of actions (Suc k) (best_step actions best k) g"
proof (cases "subject_group (actions ! k) = g")
  case False
  then have "best_step actions best k ! g = best ! g"
    by (auto simp: best_step_def Let_def split: option.splits)
  then show ?thesis
    using IH False by (auto simp: best_of_def less_Suc_eq split: option.splits)
next
  case g: True
  show ?thesis
  proof (cases "best ! g")
    case None
    with IH have "\<forall>j < k. subject_group (actions ! j) \<noteq> g" by (simp add: best_of_def)
    with None g assms(1,2) show ?thesis
      by (auto simp: best_of_def best_step_def less_Suc_eq severity.irrefl)
  next
    case (Some b)
    with IH have b: "b < k" "subject_group (actions ! b) = g"
      "\<forall>j < k. subject_group (actions ! j) = g \<longrightarrow> \<not> moreSevere (actions ! j) (actions ! b)"
      "\<forall>j < b. subject_group (actions ! j) = g \<longrightarrow> moreSevere (actions ! b) (actions ! j)"
      by (simp_all add: best_of_def)
    show ?thesis
    proof (cases "moreSevere (actions ! k) (actions ! b)")
      case True
      have "moreSevere (actions ! k) (actions ! j)" if "j < k" "subject_group (actions ! j) = g" for j
        using severity.negtrans True b(3) that by blast
      with True Some g assms(1,2) severity.asym severity.irrefl show ?thesis
        by (auto simp: best_of_def best_step_def less_Suc_eq)
    next
      case False
      with b Some g show ?thesis by (auto simp: best_of_def best_step_def less_Suc_eq)
    qed
  qed
qed

lemma best_fold_of:
  "g < 4 \<Longrightarrow> best_of actions k (foldl (best_step actions) [None, None, None, None] [0..<k]) g"
proof (induction k)
  case 0
  have "[None, None, None, None] ! g = (None :: nat option)" using 0 by (auto simp: less_Suc_eq numeral_eq_Suc)
  then show ?case by (simp add: best_of_def)
next
  case (Suc k)
  then show ?case using best_step_of [OF _ Suc.prems Suc.IH [OF Suc.prems]] by simp
qed

text \<open>The winner of a subject, if it has actions.\<close>

lemma winner_unique: "action_index actions g i \<Longrightarrow> action_index actions g j \<Longrightarrow> i = j"
  unfolding action_index_def by (metis nat_neq_iff)

definition winner :: "PlannedAction list \<Rightarrow> nat \<Rightarrow> nat option" where
  "winner actions g = find (action_index actions g) [0..<length actions]"

lemma best_winner:
  assumes "g < 4"
  shows "foldl (best_step actions) [None, None, None, None] [0..<length actions] ! g = winner actions g"
    (is "?best ! g = _")
proof (cases "?best ! g")
  case None
  with best_fold_of [OF assms, of actions "length actions"]
  have "\<forall>j < length actions. subject_group (actions ! j) \<noteq> g" by (simp add: best_of_def)
  then have "winner actions g = None" by (auto simp: winner_def find_None_iff action_index_def)
  with None show ?thesis by simp
next
  case (Some i)
  with best_fold_of [OF assms, of actions "length actions"]
  have i: "action_index actions g i" by (simp add: best_of_def action_index_def)
  then have "winner actions g \<noteq> None" by (auto simp: winner_def find_None_iff action_index_def)
  then obtain j where "winner actions g = Some j" by blast
  then have "action_index actions g j" by (auto simp: winner_def find_Some_iff)
  with i Some \<open>winner actions g = Some j\<close> winner_unique show ?thesis by metis
qed

definition reported :: "PlannedAction \<Rightarrow> PlannedAction" where
  "reported a = a\<lparr>pa_Severity := Severity a\<rparr>"

lemma MostSevere_eq:
  "MostSevere actions =
   concat (map (\<lambda>g. case winner actions g of None \<Rightarrow> [] | Some i \<Rightarrow> [reported (actions ! i)]) [0, 1, 2, 3])"
proof (cases "actions = []")
  case True
  then show ?thesis by (simp add: MostSevere_def winner_def)
next
  case False
  let ?best = "foldl (best_step actions) [None, None, None, None] [0..<length actions]"
  have "?best = map ((!) ?best) [0..<length ?best]" by (rule map_nth [symmetric])
  also have "[0..<length ?best] = [0, 1, 2, 3]" by (simp add: upt_rec)
  also have "map ((!) ?best) [0, 1, 2, 3] =
      [winner actions 0, winner actions 1, winner actions 2, winner actions 3]"
    by (simp add: best_winner del: upt_Suc)
  finally have best: "?best = [winner actions 0, winner actions 1, winner actions 2, winner actions 3]" .
  show ?thesis
    unfolding MostSevere_def Let_def best
    using False by (simp add: reported_def split: option.splits)
qed


declare representable_1 [simp]

section \<open>Powers of numbers of at least one\<close>

lemma pow2_neg: "pow2 (- n) * pow2 n = 1"
  by (simp flip: pow2_add)

lemma unit_square:
  assumes "1 / 2 \<le> q" "q \<le> 1"
  shows "to_f64 (q * q) = Fin (round_rat (q * q))" and "1 / 4 \<le> round_rat (q * q)" and "round_rat (q * q) \<le> 1"
proof -
  have "q * q \<le> 1 * 1" using assms by (intro mult_mono) auto
  moreover have "1 / 2 * (1 / 2) \<le> q * q" using assms by (intro mult_mono) auto
  ultimately show "to_f64 (q * q) = Fin (round_rat (q * q))" "1 / 4 \<le> round_rat (q * q)" "round_rat (q * q) \<le> 1"
    using to_f64_le [of 1 "q * q"] ieee.ge [OF representable_half(2), of "q * q"] by auto
qed

lemma unit_double:
  assumes "1 / 4 \<le> q" "q \<le> 1 / 2"
  shows "to_f64 (q + q) = Fin (round_rat (q + q))" and "1 / 2 \<le> round_rat (q + q)" and "round_rat (q + q) \<le> 1"
  using assms to_f64_le [of 1 "q + q"] ieee.ge [OF representable_half(1), of "q + q"] by auto

lemma unit_product:
  assumes "1 / 2 \<le> q" "q \<le> 1" and "pow2 (- n) \<le> a" "a \<le> 1" and "n \<le> 1000"
  shows "to_f64 (a * q) = Fin (round_rat (a * q))" and "pow2 (- n - 1) \<le> round_rat (a * q)" and "round_rat (a * q) \<le> 1"
proof -
  have "pow2 (- n - 1) = pow2 (- n) * (1 / 2)"
    by (metis (no_types) pow2_add diff_conv_add_uminus power_int_minus power_int_1_right inverse_eq_divide)
  moreover have a: "0 < a" using assms(3) pow2_pos by (rule order.strict_trans2 [rotated])
  moreover have "pow2 (- n) * (1 / 2) \<le> a * q" using a assms by (intro mult_mono) auto
  moreover have "a * q \<le> 1 * 1" using a assms by (intro mult_mono) auto
  ultimately show "to_f64 (a * q) = Fin (round_rat (a * q))" "pow2 (- n - 1) \<le> round_rat (a * q)" "round_rat (a * q) \<le> 1"
    using to_f64_le [of 1 "a * q"] ieee.ge [OF representable_pow2, of "- n - 1" "a * q"] assms
    by auto
qed

definition scaled_up :: "f64 \<times> int \<Rightarrow> bool" where
  "scaled_up p \<longleftrightarrow> (\<exists>a n. fst p = Fin a \<and> pow2 (- n) \<le> a \<and> a \<le> 1 \<and> n \<le> snd p)"

lemma pow_loop_scaled:
  assumes "i < 2 ^ j" and "n + int j \<le> 1000" and "1 / 2 \<le> q" "q \<le> 1" and "1 \<le> xe"
    and "pow2 (- n) \<le> a" "a \<le> 1" and "n \<le> ae"
  shows "scaled_up (pow_loop i (Fin q) xe (Fin a) ae)"
  using assms
proof (induction j arbitrary: i n q xe a ae)
  case 0
  then show ?case by (subst pow_loop.simps) (auto simp: scaled_up_def)
next
  case (Suc j)
  note prems = Suc.prems
  show ?case
  proof (cases "i \<le> 0 \<or> 4096 < xe")
    case True
    then show ?thesis
      using prems by (subst pow_loop.simps) (auto simp: scaled_up_def intro!: exI [of _ n])
  next
    case False
    obtain a' n' ae' where a': "(if odd i then (f_mul (Fin a) (Fin q), ae + xe) else (Fin a, ae)) = (Fin a', ae')"
        "pow2 (- n') \<le> a'" "a' \<le> 1" "n' \<le> ae'" "n' \<le> n + 1"
    proof (cases "odd i")
      case True
      show thesis
        by (rule that [of "round_rat (a * q)" "ae + xe" "n + 1"])
           (use True prems unit_product [OF prems(3,4,6,7)] in auto)
    next
      case False
      show thesis by (rule that [of a ae n]) (use False prems in auto)
    qed
    have j: "i div 2 < 2 ^ j" "n' + int j \<le> 1000" using prems(1,2) a'(5) by auto
    note sq = unit_square [OF prems(3,4)]
    let ?y = "round_rat (q * q)"
    show ?thesis
    proof (cases "?y < 1 / 2")
      case True
      have "scaled_up (pow_loop (i div 2) (Fin (round_rat (?y + ?y))) (2 * xe - 1) (Fin a') ae')"
        by (rule Suc.IH [OF j]) (use True sq prems a' unit_double [of ?y] in auto)
      moreover have "f_add (Fin ?y) (Fin ?y) = Fin (round_rat (?y + ?y))"
        using unit_double [of ?y] True sq by simp
      ultimately show ?thesis
        using False True sq(1) prems(5) a'(1) by (subst pow_loop.simps) (simp add: Let_def)
    next
      case y: False
      have "scaled_up (pow_loop (i div 2) (Fin ?y) (2 * xe) (Fin a') ae')"
        by (rule Suc.IH [OF j]) (use y sq prems a' in auto)
      then show ?thesis
        using False y sq(1) prems(5) a'(1) by (subst pow_loop.simps) (simp add: Let_def)
    qed
  qed
qed

lemma scale_ge_1: "scaled_up p \<Longrightarrow> f_le (Fin 1) (scale p)"
proof -
  assume "scaled_up p"
  then obtain a n where a: "fst p = Fin a" "pow2 (- n) \<le> a" "n \<le> snd p" by (auto simp: scaled_up_def)
  have "0 \<le> a" using a(2) less_imp_le [OF pow2_pos] by (rule order_trans [rotated])
  then have "pow2 (- n) * pow2 n \<le> a * pow2 (snd p)" using a by (intro mult_mono) auto
  then show ?thesis using a by (simp add: pow2_neg scale_def to_f64_ge)
qed

lemma math_Pow_ge_1:
  assumes "f_le (Fin 1) x" and "0 \<le> n"
  shows "f_le (Fin 1) (math_Pow x (Fin n))"
  using assms(1)
proof (cases rule: f_le_cases)
  case (fin q)
  have e: "pow2 (elog q) \<le> q" "q < pow2 (elog q + 1)" using elog_bounds [of q] fin by auto
  then have "pow2 0 < pow2 (elog q + 1)" using fin by simp
  then have "0 \<le> elog q" unfolding pow2_less_iff by simp
  moreover have "1 / 2 \<le> q / pow2 (elog q + 1)" "q / pow2 (elog q + 1) \<le> 1"
    using e by (auto simp: pow2_add field_simps)
  moreover have "\<lfloor>n\<rfloor> < 2 ^ 63" if "n < 2 ^ 63" using that by (simp add: floor_less_iff)
  ultimately have "f_le (Fin 1) (scale (pow_loop \<lfloor>n\<rfloor> (Fin (q / pow2 (elog q + 1))) (elog q + 1) (Fin 1) 0))"
    if "n < 2 ^ 63"
    using that by (intro scale_ge_1 pow_loop_scaled [where j = 63 and n = 0]) auto
  with fin show ?thesis by (auto simp: math_Pow_def)
next
  case inf
  then show ?thesis by (auto simp: math_Pow_def)
qed


section \<open>The cooldown before rounding to milliseconds\<close>

lemma of_int64_nonneg:
  assumes "0 \<le> n" "n \<le> MaxInt64"
  shows "\<exists>q. of_int64 n = Fin q \<and> 0 \<le> q" and "1 \<le> n \<Longrightarrow> f_le (Fin 1) (of_int64 n)"
proof -
  have "(of_int n :: rat) \<le> of_int (2 ^ 63)"
    using assms(2) by (subst of_int_le_iff) (simp add: MaxInt64_def)
  then have "(of_int n :: rat) \<le> pow2 63" by simp
  with assms(1) show "\<exists>q. of_int64 n = Fin q \<and> 0 \<le> q"
    using to_f64_le [OF representable_pow2 [of 63], of "of_int n"] by (simp add: of_int64_def)
  show "f_le (Fin 1) (of_int64 n)" if "1 \<le> n"
    using that unfolding of_int64_def by (intro to_f64_ge) auto
qed

definition exponent_of :: "int \<Rightarrow> int \<Rightarrow> int" where
  "exponent_of maxExponent streak = min (max 1 streak - 1) (max 0 maxExponent)"

lemma cooldown_float_alt:
  "cooldown_float base maxDur m e s =
     (let d = f_mul (of_int64 base) (math_Pow (if f_le (Fin 1) m then m else Fin 1) (of_int64 (exponent_of e s))) in
      if 0 < maxDur \<and> f_lt (of_int64 maxDur) d then of_int64 maxDur else d)"
proof -
  have "(if (if s < 1 then 1 else s) - 1 > (if e < 0 then 0 else e) then (if e < 0 then 0 else e)
         else (if s < 1 then 1 else s) - 1) = exponent_of e s"
    by (auto simp: exponent_of_def)
  then show ?thesis by (auto simp: cooldown_float_def Let_def)
qed

lemma raw_cooldown_ge:
  assumes b: "f_le (Fin v) (of_int64 base)" "0 < v" "representable v" and s: "s \<le> MaxInt64"
  shows "f_le (Fin v) (f_mul (of_int64 base) (math_Pow (if f_le (Fin 1) m then m else Fin 1) (of_int64 (exponent_of e s))))"
proof -
  obtain n where n: "of_int64 (exponent_of e s) = Fin n" "0 \<le> n"
  proof -
    have "0 \<le> exponent_of e s" "exponent_of e s \<le> MaxInt64"
      using s by (auto simp: exponent_of_def MaxInt64_def min_def max_def)
    from of_int64_nonneg(1) [OF this] show thesis using that by blast
  qed
  have "f_le (Fin 1) (math_Pow (if f_le (Fin 1) m then m else Fin 1) (Fin n))"
    by (rule math_Pow_ge_1) (use n(2) in auto)
  from f_mul_ge [OF b(1) this] b(2,3) n(1) show ?thesis by simp
qed

lemma cooldown_float_ge:
  assumes "f_le (Fin v) (of_int64 base)" "0 < v" "representable v" "s \<le> MaxInt64"
    and "0 < maxDur \<Longrightarrow> f_le (Fin v) (of_int64 maxDur)"
  shows "f_le (Fin v) (cooldown_float base maxDur m e s)"
  using raw_cooldown_ge [OF assms(1-4), of m e] assms(5) by (simp add: cooldown_float_alt Let_def)

lemma f_not_less: "f_le (Fin v) d \<Longrightarrow> \<not> f_lt (Fin w) d \<Longrightarrow> f_le d (Fin w)"
  by (cases d) auto

lemma cooldown_float_le:
  assumes "f_le (Fin v) (of_int64 base)" "0 < v" "representable v" "s \<le> MaxInt64"
    and "0 < maxDur" and "of_int64 maxDur = Fin w"
  shows "f_le (cooldown_float base maxDur m e s) (Fin w)"
  using f_not_less [OF raw_cooldown_ge [OF assms(1-4), of m e], of w] assms(5,6)
  by (simp add: cooldown_float_alt Let_def)

lemma f_0_8_value: "f_0_8 = Fin (3602879701896397 / 4503599627370496)"
proof -
  have "elog (8 / 10) = -1" by (rule elog_unique) (simp_all add: power_int_minus)
  then have "quantum (8 / 10) = -53" by (simp add: quantum_def)
  moreover have "\<lfloor>36028797018963968 / 5 :: rat\<rfloor> = 7205759403792793" by (simp add: floor_eq_iff)
  then have "round_int (8 / 10 * 9007199254740992) = 7205759403792794" by (simp add: round_int_def Let_def)
  ultimately have "round_rat (8 / 10) = 3602879701896397 / 4503599627370496"
    by (simp add: round_rat_def power_int_minus)
  then show ?thesis by (simp add: f_0_8_def to_f64_def)
qed

lemma f_1_2_value: "f_1_2 = Fin (5404319552844595 / 4503599627370496)"
proof -
  have "elog (12 / 10) = 0" by (rule elog_unique) simp_all
  then have "quantum (12 / 10) = -52" by (simp add: quantum_def)
  moreover have "\<lfloor>27021597764222976 / 5 :: rat\<rfloor> = 5404319552844595" by (simp add: floor_eq_iff)
  then have "round_int (12 / 10 * 4503599627370496) = 5404319552844595" by (simp add: round_int_def Let_def)
  ultimately have "round_rat (12 / 10) = 5404319552844595 / 4503599627370496"
    by (simp add: round_rat_def power_int_minus)
  then show ?thesis by (simp add: f_1_2_def to_f64_def)
qed

lemma clamp_jitter_bounds:
  "\<exists>q. clamp_jitter j = Fin q \<and> 4 / 5 \<le> q \<and> q \<le> 6 / 5"
proof -
  have v: "4 / 5 \<le> (3602879701896397 / 4503599627370496 :: rat)" "(5404319552844595 / 4503599627370496 :: rat) \<le> 6 / 5"
    by simp_all
  consider "j = NaN" | "j \<noteq> NaN" "f_lt j f_0_8" | "\<not> f_lt j f_0_8" "f_lt f_1_2 j"
    | q where "j = Fin q" "\<not> f_lt j f_0_8" "\<not> f_lt f_1_2 j"
    by (cases j) (auto simp: f_0_8_value f_1_2_value)
  then show ?thesis
  proof cases
    case 1
    then show ?thesis by (intro exI [of _ 1]) (simp add: clamp_jitter_def)
  next
    case 2
    then have "clamp_jitter j = Fin (3602879701896397 / 4503599627370496)"
      unfolding clamp_jitter_def f_0_8_value [symmetric] by simp
    with v show ?thesis by (intro exI [of _ "3602879701896397 / 4503599627370496"]) simp
  next
    case 3
    then have "clamp_jitter j = Fin (5404319552844595 / 4503599627370496)"
      unfolding clamp_jitter_def f_1_2_value [symmetric] by auto
    with v show ?thesis by (intro exI [of _ "5404319552844595 / 4503599627370496"]) simp
  next
    case 4
    then show ?thesis by (intro exI [of _ q]) (simp add: clamp_jitter_def f_0_8_value f_1_2_value)
  qed
qed

lemma clamp_jitter_1: "clamp_jitter (Fin 1) = Fin 1"
  by (simp add: clamp_jitter_def f_0_8_value f_1_2_value)

section \<open>Whole milliseconds\<close>

lemma representable_million: "representable 1000000"
  using representable_int [of 1000000] by simp

text \<open>A finite value below the saturation bound becomes a whole number of milliseconds.\<close>

definition millis_of :: "rat \<Rightarrow> int" where
  "millis_of q = max 1 \<lfloor>round_rat (q / 1000000) + 1 / 2\<rfloor>"

lemma quotient_rounds:
  assumes "0 \<le> q" "q < 2 ^ 63"
  shows "f_round (f_div (Fin q) (Fin 1000000)) = Fin (of_int \<lfloor>round_rat (q / 1000000) + 1 / 2\<rfloor>)"
    and "0 \<le> round_rat (q / 1000000)"
proof -
  have "q / 1000000 \<le> pow2 63" using assms by (simp add: field_simps)
  with to_f64_le [OF representable_pow2 [of 63], of "q / 1000000"] assms(1)
  show "f_round (f_div (Fin q) (Fin 1000000)) = Fin (of_int \<lfloor>round_rat (q / 1000000) + 1 / 2\<rfloor>)"
    "0 \<le> round_rat (q / 1000000)" by simp_all
qed

lemma whole_millis_finite:
  assumes "0 \<le> q" "q < 2 ^ 63"
  shows "whole_millis (Fin q) =
    (if 2 ^ 63 \<le> round_rat (of_int (millis_of q) * 1000000) then MaxInt64 else millis_of q * Millisecond)"
proof -
  let ?k = "\<lfloor>round_rat (q / 1000000) + 1 / 2\<rfloor>"
  have ms: "(if f_lt (Fin (of_int ?k)) (Fin 1) then Fin 1 else Fin (of_int ?k)) = Fin (of_int (millis_of q))"
    by (auto simp: millis_of_def max_def)
  have mul: "f_le maxFloat (f_mul (Fin (of_int (millis_of q))) (Fin 1000000)) \<longleftrightarrow>
             2 ^ 63 \<le> round_rat (of_int (millis_of q) * 1000000)"
    by (auto simp: maxFloat_def to_f64_nonneg millis_of_def)
  have small: "millis_of q * Millisecond \<le> MaxInt64" if "\<not> 2 ^ 63 \<le> round_rat (of_int (millis_of q) * 1000000)"
  proof -
    have "of_int (millis_of q * 1000000) < (of_int (2 ^ 63) :: rat)"
      using ieee.less_imp [OF representable_pow2 [of 63], of "of_int (millis_of q) * 1000000"] that by simp
    then show ?thesis unfolding of_int_less_iff by (simp add: MaxInt64_def)
  qed
  have "1 \<le> millis_of q" by (simp add: millis_of_def)
  with small have conv: "wrap64 (to_int64 (Fin (of_int (millis_of q))) * Millisecond) = millis_of q * Millisecond"
    if "\<not> 2 ^ 63 \<le> round_rat (of_int (millis_of q) * 1000000)"
    using that by (simp add: in64_def MinInt64_def MaxInt64_def)
  have big: "(f_le maxFloat (Fin q) \<or> Fin q = Inf True) = False" using assms by (simp add: maxFloat_def)
  show ?thesis
    unfolding whole_millis_def Let_def of_int_numeral quotient_rounds(1) [OF assms] ms mul big if_False
    using conv by (cases "2 ^ 63 \<le> round_rat (of_int (millis_of q) * 1000000)") (simp_all only: if_True if_False simp_thms)
qed


lemma whole_millis_range:
  assumes "f_le (Fin 0) d"
  shows "Millisecond \<le> whole_millis d" and "whole_millis d \<le> MaxInt64"
    and "whole_millis d = MaxInt64 \<or> Millisecond dvd whole_millis d"
proof -
  have "Millisecond \<le> whole_millis d \<and> whole_millis d \<le> MaxInt64 \<and> (whole_millis d = MaxInt64 \<or> Millisecond dvd whole_millis d)"
  proof (cases "f_le maxFloat d \<or> d = Inf True")
    case True
    then have "whole_millis d = MaxInt64" by (simp add: whole_millis_def)
    then show ?thesis by (simp add: MaxInt64_def)
  next
    case False
    then obtain q where q: "d = Fin q" "0 \<le> q" "q < 2 ^ 63"
      using assms by (cases d) (auto simp: maxFloat_def)
    have "of_int (millis_of q * 1000000) < (of_int (2 ^ 63) :: rat)"
      if "\<not> 2 ^ 63 \<le> round_rat (of_int (millis_of q) * 1000000)"
      using ieee.less_imp [OF representable_pow2 [of 63], of "of_int (millis_of q) * 1000000"] that by simp
    then have "millis_of q * Millisecond \<le> MaxInt64"
      if "\<not> 2 ^ 63 \<le> round_rat (of_int (millis_of q) * 1000000)"
      using that unfolding of_int_less_iff by (simp add: MaxInt64_def)
    moreover have "1 \<le> millis_of q" by (simp add: millis_of_def)
    ultimately show ?thesis
      using whole_millis_finite [OF q(2,3)] q(1)
      by (cases "2 ^ 63 \<le> round_rat (of_int (millis_of q) * 1000000)") (auto simp: MaxInt64_def)
  qed
  then show "Millisecond \<le> whole_millis d" "whole_millis d \<le> MaxInt64"
    "whole_millis d = MaxInt64 \<or> Millisecond dvd whole_millis d" by simp_all
qed

lemma whole_millis_ge:
  assumes "f_le (Fin q) d" and "0 \<le> q" and "of_int n \<le> q / 1000000" and "0 \<le> n" and "n * Millisecond \<le> 2 ^ 53"
  shows "n * Millisecond \<le> whole_millis d"
proof (cases "f_le maxFloat d \<or> d = Inf True")
  case True
  then show ?thesis using assms(5) by (simp add: whole_millis_def MaxInt64_def)
next
  case False
  then obtain r where r: "d = Fin r" "q \<le> r" "r < 2 ^ 63"
    using assms(1) by (cases d) (auto simp: maxFloat_def)
  have "of_int n \<le> round_rat (r / 1000000)"
    using assms(3-5) r(2) by (intro ieee.ge representable_int) (auto simp: field_simps)
  then have "n \<le> millis_of r"
    by (auto simp: millis_of_def le_floor_iff le_max_iff_disj)
  then show ?thesis
    using whole_millis_finite [of r] r assms(2,5) by (auto simp: MaxInt64_def)
qed

lemma whole_millis_le:
  assumes "0 \<le> q" and "q / 1000000 \<le> of_int n" and "1 \<le> n" and "n * Millisecond \<le> 2 ^ 53"
  shows "whole_millis (Fin q) \<le> n * Millisecond"
proof -
  have "round_rat (q / 1000000) \<le> of_int n"
    using assms(2-4) by (intro ieee.le representable_int) auto
  then have "\<lfloor>round_rat (q / 1000000) + 1 / 2\<rfloor> \<le> n"
    by (simp add: floor_le_iff)
  then have k: "1 \<le> millis_of q" "millis_of q \<le> n" using assms(3) by (auto simp: millis_of_def)
  have "of_int (millis_of q * 1000000) \<le> (of_int (2 ^ 53) :: rat)"
    using k assms(4) unfolding of_int_le_iff by auto
  then have "of_int (millis_of q) * 1000000 \<le> pow2 53" by simp
  from ieee.le [OF representable_pow2 this] have "round_rat (of_int (millis_of q) * 1000000) \<le> 2 ^ 53" by simp
  moreover have "q \<le> of_int (2 ^ 53)"
    using assms(2,4) by (simp add: field_simps)
  ultimately show ?thesis
    using whole_millis_finite [OF assms(1)] k by auto
qed

lemma cooldown_range:
  assumes "0 < base" and "base \<le> MaxInt64" and "maxDur \<le> MaxInt64" and "streak \<le> MaxInt64"
  shows "Millisecond \<le> CooldownDuration base maxDur m e streak j \<and>
         CooldownDuration base maxDur m e streak j \<le> MaxInt64 \<and>
         (CooldownDuration base maxDur m e streak j = MaxInt64 \<or>
          Millisecond dvd CooldownDuration base maxDur m e streak j)"
proof -
  have "f_le (Fin 1) (cooldown_float base maxDur m e streak)"
    using assms of_int64_nonneg(2) by (intro cooldown_float_ge) auto
  moreover obtain q where q: "clamp_jitter j = Fin q" "4 / 5 \<le> q" using clamp_jitter_bounds by blast
  then have "f_le (Fin (1 / 2)) (clamp_jitter j)" by simp
  ultimately have "f_le (Fin (1 * (1 / 2))) (f_mul (cooldown_float base maxDur m e streak) (clamp_jitter j))"
    by (rule f_mul_ge) (simp_all add: representable_half)
  then have "f_le (Fin 0) (f_mul (cooldown_float base maxDur m e streak) (clamp_jitter j))"
    by (cases "f_mul (cooldown_float base maxDur m e streak) (clamp_jitter j)") auto
  from whole_millis_range [OF this] assms(1) show ?thesis by (simp add: CooldownDuration_def)
qed

text \<open>
  A cooldown with a positive base lasts at least one millisecond, never overflows the 64-bit
  duration, and is a whole number of milliseconds unless it is saturated; this holds for every
  multiplier, exponent, streak and jitter, NaN and infinities included.
\<close>

theorem CooldownDuration_range:
  assumes "0 < base" and "base \<le> MaxInt64" and "maxDur \<le> MaxInt64" and "streak \<le> MaxInt64"
  shows "Millisecond \<le> CooldownDuration base maxDur m e streak j \<and>
         CooldownDuration base maxDur m e streak j \<le> MaxInt64 \<and>
         (CooldownDuration base maxDur m e streak j = MaxInt64 \<or>
          Millisecond dvd CooldownDuration base maxDur m e streak j)"
  by (rule cooldown_range [OF assms])

lemma cooldown_float_between:
  assumes k: "1 \<le> kb" "kb \<le> km" "km * Millisecond \<le> 2 ^ 52" and s: "streak \<le> MaxInt64"
  obtains d where "cooldown_float (kb * Millisecond) (km * Millisecond) m e streak = Fin d"
    and "of_int (kb * Millisecond) \<le> d" and "d \<le> of_int (km * Millisecond)"
proof -
  have ex: "of_int64 (n * Millisecond) = Fin (of_int (n * Millisecond))" if "1 \<le> n" "n \<le> km" for n
    using that k by (intro of_int64_exact) auto
  let ?d = "cooldown_float (kb * Millisecond) (km * Millisecond) m e streak"
  have rep: "representable (of_int (kb * Millisecond))" using k by (intro representable_int) auto
  have "f_le (Fin (of_int (kb * Millisecond))) ?d"
    using k s by (intro cooldown_float_ge rep) (auto simp: ex)
  moreover have "f_le ?d (Fin (of_int (km * Millisecond)))"
    using k s by (intro cooldown_float_le [where v = "of_int (kb * Millisecond)"] rep) (auto simp: ex)
  ultimately show thesis using that by (cases ?d) auto
qed

lemma jittered_between:
  assumes d: "of_int (kb * Millisecond) \<le> d" "d \<le> of_int (km * Millisecond)" "1 \<le> kb" "km * Millisecond \<le> 2 ^ 52"
    and q: "lo \<le> q" "q \<le> hi" "0 < lo" "hi \<le> 2"
    and a: "of_int a \<le> of_int kb * lo" "0 \<le> a" and b: "of_int km * hi \<le> of_int b" "b * Millisecond \<le> 2 ^ 53"
  shows "a * Millisecond \<le> whole_millis (f_mul (Fin d) (Fin q))"
    and "whole_millis (f_mul (Fin d) (Fin q)) \<le> b * Millisecond"
proof -
  have d0: "0 < d" using d(1,3) by (simp add: order.strict_trans2)
  have kbm: "kb \<le> km" using order_trans [OF d(1,2)] by simp
  have lo: "of_int (a * Millisecond) \<le> d * q"
  proof -
    have "of_int a * 1000000 \<le> of_int kb * lo * 1000000" using a(1) by (intro mult_right_mono) auto
    also have "\<dots> = of_int (kb * Millisecond) * lo" by simp
    also have "\<dots> \<le> d * q" using d(1) d0 q by (intro mult_mono) auto
    finally show ?thesis by simp
  qed
  have hi: "d * q \<le> of_int (b * Millisecond)"
  proof -
    have "d * q \<le> of_int (km * Millisecond) * hi" using d(2) d0 q kbm d(3) by (intro mult_mono) auto
    also have "\<dots> = of_int km * hi * 1000000" by simp
    also have "\<dots> \<le> of_int b * 1000000" using b(1) by (intro mult_right_mono) auto
    finally show ?thesis by simp
  qed
  have dq: "0 \<le> d * q" using d0 q by auto
  have ab: "a * Millisecond \<le> b * Millisecond" using order_trans [OF lo hi] by (simp only: of_int_le_iff)
  have b0: "0 \<le> b" using ab a(2) by simp
  have repb: "representable (of_int (b * Millisecond))" using b(2) b0 by (intro representable_int) auto
  have repa: "representable (of_int (a * Millisecond))" using ab a(2) b(2) by (intro representable_int) auto
  have "(of_int (b * Millisecond) :: rat) \<le> of_int (2 ^ 53)" using b(2) by (simp only: of_int_le_iff)
  then have "(of_int (b * Millisecond) :: rat) < 2 ^ 1024" by (rule order.strict_trans1) simp
  note r = to_f64_le [OF repb dq hi this]
  have m: "f_mul (Fin d) (Fin q) = Fin (round_rat (d * q))" using r(1) by simp
  have ra: "of_int (a * Millisecond) \<le> round_rat (d * q)" by (rule ieee.ge [OF repa lo])
  show "a * Millisecond \<le> whole_millis (f_mul (Fin d) (Fin q))"
    unfolding m by (rule whole_millis_ge [of "of_int (a * Millisecond)"]) (use ra a(2) ab b(2) in auto)
  have "1 \<le> b"
  proof -
    have "0 < d * q" using d0 q by auto
    from this hi have "(0 :: rat) < of_int (b * Millisecond)" by (rule order.strict_trans2)
    then have "0 < b * Millisecond" by (simp only: of_int_0_less_iff)
    then show ?thesis by simp
  qed
  then show "whole_millis (f_mul (Fin d) (Fin q)) \<le> b * Millisecond"
    unfolding m using r(2,3) b(2) by (intro whole_millis_le) auto
qed


theorem CooldownDuration_range_witness:
  "Millisecond \<le> CooldownDuration Second 0 NaN 3 5 NaN"
  using CooldownDuration_range [of Second 0 5 NaN 3 NaN] by (simp add: MaxInt64_def)


end
