(* ===== verification/Policy_Specs.thy ===== *)
theory Policy_Specs
  imports Policy_Action
begin

text \<open>
  Rotation and breaker policies (\<^verbatim>\<open>internal/policy/rotation.go\<close>, \<^verbatim>\<open>breaker.go\<close>): the
  specifications with their defaults and their validation.
\<close>

section \<open>Rotation policies\<close>

record QuotaSpec =
  q_Limit :: int
  q_Window :: int

record StickySpec =
  sk_Enabled :: bool
  sk_TTL :: int

record WarmupSpec =
  wu_Duration :: int
  wu_QuotaFactor :: f64

record ProbeSpec =
  pb_WeightFactor :: f64
  pb_MaxLeases :: int

record RotationParams =
  rp_Strategy :: string
  rp_CandidateSample :: int
  rp_LeaseTTL :: int
  rp_MaxLeaseLifetime :: int
  rp_MaxConcurrentLeases :: int
  rp_ReuseInterval :: int
  rp_ReuseAnchor :: string
  rp_ReuseScope :: string
  rp_Quota :: "QuotaSpec list"
  rp_Sticky :: StickySpec
  rp_Warmup :: WarmupSpec
  rp_Probe :: ProbeSpec

record ProxySpec =
  px_Mode :: string
  px_Kinds :: "string list option"
  px_Tags :: "string list option"
  px_Providers :: "string list option"
  px_Regions :: "string list option"
  px_RegionMatch :: bool
  px_RebindTolerance :: int
  px_MaxRebindsPerDay :: int

record RotationSpec =
  rs_Name :: string
  rs_Description :: string
  rs_Bind :: "Binding option"
  rs_IdentityTypes :: "string list option"
  rs_Rotation :: RotationParams
  rs_Proxy :: ProxySpec

definition DefaultProbeWeightFactor :: f64 where "DefaultProbeWeightFactor = to_f64 (1 / 10)"

definition params_defaults :: "RotationParams \<Rightarrow> RotationParams" where
  "params_defaults r =
     r\<lparr>rp_Strategy := setString (rp_Strategy r) ''weighted_random'',
       rp_CandidateSample := setInt (rp_CandidateSample r) 32,
       rp_LeaseTTL := setDuration (rp_LeaseTTL r) (120 * Second),
       rp_MaxLeaseLifetime := setDuration (rp_MaxLeaseLifetime r) (30 * Minute),
       rp_MaxConcurrentLeases := setInt (rp_MaxConcurrentLeases r) 1,
       rp_ReuseAnchor := setString (rp_ReuseAnchor r) ''released'',
       rp_ReuseScope := setString (rp_ReuseScope r) ''endpoint_group'',
       rp_Sticky := (rp_Sticky r)\<lparr>sk_TTL := setDuration (sk_TTL (rp_Sticky r)) (10 * Minute)\<rparr>,
       rp_Warmup := (rp_Warmup r)\<lparr>wu_QuotaFactor :=
         (if f_eq (wu_QuotaFactor (rp_Warmup r)) (Fin 0) then Fin 1 else wu_QuotaFactor (rp_Warmup r))\<rparr>,
       rp_Probe := \<lparr>pb_WeightFactor =
           (if f_eq (pb_WeightFactor (rp_Probe r)) (Fin 0) then DefaultProbeWeightFactor else pb_WeightFactor (rp_Probe r)),
         pb_MaxLeases = setInt (pb_MaxLeases (rp_Probe r)) 2\<rparr>\<rparr>"

definition proxy_defaults :: "ProxySpec \<Rightarrow> ProxySpec" where
  "proxy_defaults p =
     p\<lparr>px_Mode := setString (px_Mode p) ''none'', px_Kinds := nilIfEmpty (px_Kinds p), px_Tags := nilIfEmpty (px_Tags p),
       px_Providers := nilIfEmpty (px_Providers p), px_Regions := nilIfEmpty (px_Regions p)\<rparr>"

definition RotationSpec_ApplyDefaults :: "RotationSpec \<Rightarrow> RotationSpec" where
  "RotationSpec_ApplyDefaults s =
     s\<lparr>rs_IdentityTypes := nilIfEmpty (rs_IdentityTypes s), rs_Rotation := params_defaults (rs_Rotation s),
       rs_Proxy := proxy_defaults (rs_Proxy s)\<rparr>"

definition newRotationBase :: RotationSpec where
  "newRotationBase =
     RotationSpec_ApplyDefaults
       \<lparr>rs_Name = '''', rs_Description = '''', rs_Bind = None, rs_IdentityTypes = None,
        rs_Rotation = \<lparr>rp_Strategy = '''', rp_CandidateSample = 0, rp_LeaseTTL = 0, rp_MaxLeaseLifetime = 0,
          rp_MaxConcurrentLeases = 0, rp_ReuseInterval = 0, rp_ReuseAnchor = '''', rp_ReuseScope = '''', rp_Quota = [],
          rp_Sticky = \<lparr>sk_Enabled = False, sk_TTL = 0\<rparr>, rp_Warmup = \<lparr>wu_Duration = 0, wu_QuotaFactor = Fin 0\<rparr>,
          rp_Probe = \<lparr>pb_WeightFactor = Fin 0, pb_MaxLeases = 0\<rparr>\<rparr>,
        rs_Proxy = \<lparr>px_Mode = '''', px_Kinds = None, px_Tags = None, px_Providers = None, px_Regions = None,
          px_RegionMatch = False, px_RebindTolerance = 5 * Minute, px_MaxRebindsPerDay = 3\<rparr>\<rparr>"

fun quotas_validate :: "string \<Rightarrow> nat \<Rightarrow> (int \<times> nat) list \<Rightarrow> QuotaSpec list \<Rightarrow> problem list" where
  "quotas_validate path i windows [] = []"
| "quotas_validate path i windows (q # qs) =
     (let qp = item (field path ''quota'') i in
      v_minInt (field qp ''limit'') (q_Limit q) 1 @
      v_duration (field qp ''window'') (q_Window q) Second 0 @
      (case map_of windows (q_Window q) of
         Some prev \<Rightarrow>
           Problem (field qp ''window'') ''duplicates the window of quota[%d] (%s)'' [A_int (int prev), A_dur (q_Window q)] #
           quotas_validate path (Suc i) windows qs
       | None \<Rightarrow> quotas_validate path (Suc i) ((q_Window q, i) # windows) qs))"

definition RotationParams_validate :: "RotationParams \<Rightarrow> string \<Rightarrow> problem list" where
  "RotationParams_validate r path =
     v_enum (field path ''strategy'') (rp_Strategy r)
       [''weighted_random'', ''least_recently_used'', ''round_robin'', ''best_health''] @
     v_intRange (field path ''candidate_sample'') (rp_CandidateSample r) 1 256 @
     v_duration (field path ''lease_ttl'') (rp_LeaseTTL r) (5 * Second) (30 * Minute) @
     v_duration (field path ''max_lease_lifetime'') (rp_MaxLeaseLifetime r) 0 (24 * Hour) @
     (if \<not> IsPermanent (rp_MaxLeaseLifetime r) \<and> \<not> IsPermanent (rp_LeaseTTL r) \<and> rp_MaxLeaseLifetime r < rp_LeaseTTL r
      then [Problem (field path ''max_lease_lifetime'') ''must be at least lease_ttl (%s)'' [A_dur (rp_LeaseTTL r)]]
      else []) @
     v_intRange (field path ''max_concurrent_leases'') (rp_MaxConcurrentLeases r) 1 10000 @
     v_duration (field path ''reuse_interval'') (rp_ReuseInterval r) 0 0 @
     v_enum (field path ''reuse_anchor'') (rp_ReuseAnchor r) [''acquired'', ''released''] @
     v_enum (field path ''reuse_scope'') (rp_ReuseScope r) [''endpoint_group'', ''site''] @
     quotas_validate path 0 [] (rp_Quota r) @
     v_duration (field path ''sticky.ttl'') (sk_TTL (rp_Sticky r)) Second 0 @
     v_duration (field path ''warmup.duration'') (wu_Duration (rp_Warmup r)) 0 0 @
     v_ratio (field path ''warmup.quota_factor'') (wu_QuotaFactor (rp_Warmup r)) True @
     v_ratio (field path ''probe.weight_factor'') (pb_WeightFactor (rp_Probe r)) True @
     v_minInt (field path ''probe.max_leases'') (pb_MaxLeases (rp_Probe r)) 1"

definition ProxySpec_validate :: "ProxySpec \<Rightarrow> string \<Rightarrow> problem list" where
  "ProxySpec_validate p path =
     v_enum (field path ''mode'') (px_Mode p) [''none'', ''pool'', ''bind_identity'', ''region_match''] @
     v_stringList (field path ''kinds'') (px_Kinds p)
       (\<lambda>ip k. v_enum ip k [''datacenter'', ''residential'', ''mobile'', ''tunnel'']) @
     v_stringList (field path ''tags'') (px_Tags p) no_check @
     v_stringList (field path ''providers'') (px_Providers p) no_check @
     v_stringList (field path ''regions'') (px_Regions p) no_check @
     v_duration (field path ''rebind_tolerance'') (px_RebindTolerance p) 0 0 @
     v_minInt (field path ''max_rebinds_per_day'') (px_MaxRebindsPerDay p) 0"

definition identity_type_check :: "string \<Rightarrow> string \<Rightarrow> problem list" where
  "identity_type_check path t =
     (if length t > 64 then [Problem path ''must be at most %d characters'' [A_int 64]] else [])"

definition RotationSpec_Validate :: "RotationSpec option \<Rightarrow> ValidationError option" where
  "RotationSpec_Validate spec =
     (case spec of
        None \<Rightarrow> Some \<lparr>ve_Kind = KindRotation, ve_Name = '''', ve_Problems = [Problem '''' ''spec is nil'' []]\<rparr>
      | Some s \<Rightarrow>
          v_result
            (validateCommon (rs_Name s) (rs_Description s) (rs_Bind s) @
             v_stringList ''identity_types'' (rs_IdentityTypes s) identity_type_check @
             RotationParams_validate (rs_Rotation s) ''rotation'' @
             ProxySpec_validate (rs_Proxy s) ''proxy'')
            KindRotation (rs_Name s))"

section \<open>Breaker policies\<close>

record TripSpec =
  tr_RiskRatioGte :: f64
  tr_DistinctCaptchaIdentitiesGte :: int
  tr_SuccessRatioLte :: f64

record HalfOpenSpec =
  ho_ProbeLeasesPer10s :: int
  ho_CloseMinSamples :: int
  ho_CloseSuccessRatioGte :: f64

record BreakerSpec =
  bs_Name :: string
  bs_Description :: string
  bs_Bind :: "Binding option"
  bs_Enabled :: bool
  bs_Window :: int
  bs_Buckets :: int
  bs_MinRequests :: int
  bs_Trip :: TripSpec
  bs_OpenDuration :: int
  bs_MaxOpenDuration :: int
  bs_ResetOpenCountAfter :: int
  bs_HalfOpen :: HalfOpenSpec
  bs_RevertRecentCooldowns :: string

definition ValidRevertMode :: "string \<Rightarrow> bool" where
  "ValidRevertMode m \<longleftrightarrow> m \<in> {''none'', ''endpoint'', ''all''}"

definition DefaultCloseSuccessRatioGte :: f64 where "DefaultCloseSuccessRatioGte = to_f64 (8 / 10)"

definition half_open_defaults :: "HalfOpenSpec \<Rightarrow> HalfOpenSpec" where
  "half_open_defaults h =
     \<lparr>ho_ProbeLeasesPer10s = setInt (ho_ProbeLeasesPer10s h) 5, ho_CloseMinSamples = setInt (ho_CloseMinSamples h) 5,
      ho_CloseSuccessRatioGte =
        (if f_eq (ho_CloseSuccessRatioGte h) (Fin 0) then DefaultCloseSuccessRatioGte else ho_CloseSuccessRatioGte h)\<rparr>"

definition BreakerSpec_ApplyDefaults :: "BreakerSpec \<Rightarrow> BreakerSpec" where
  "BreakerSpec_ApplyDefaults s =
     s\<lparr>bs_Window := setDuration (bs_Window s) (60 * Second), bs_Buckets := setInt (bs_Buckets s) 12,
       bs_MinRequests := setInt (bs_MinRequests s) 50, bs_OpenDuration := setDuration (bs_OpenDuration s) (2 * Minute),
       bs_MaxOpenDuration := setDuration (bs_MaxOpenDuration s) Hour,
       bs_ResetOpenCountAfter := setDuration (bs_ResetOpenCountAfter s) (30 * Minute),
       bs_HalfOpen := half_open_defaults (bs_HalfOpen s),
       bs_RevertRecentCooldowns := setString (bs_RevertRecentCooldowns s) ''endpoint''\<rparr>"

definition newBreakerBase :: BreakerSpec where
  "newBreakerBase =
     BreakerSpec_ApplyDefaults
       \<lparr>bs_Name = '''', bs_Description = '''', bs_Bind = None, bs_Enabled = True, bs_Window = 0, bs_Buckets = 0,
        bs_MinRequests = 0,
        bs_Trip = \<lparr>tr_RiskRatioGte = to_f64 (4 / 10), tr_DistinctCaptchaIdentitiesGte = 10, tr_SuccessRatioLte = to_f64 (2 / 10)\<rparr>,
        bs_OpenDuration = 0, bs_MaxOpenDuration = 0, bs_ResetOpenCountAfter = 0,
        bs_HalfOpen = \<lparr>ho_ProbeLeasesPer10s = 0, ho_CloseMinSamples = 0, ho_CloseSuccessRatioGte = Fin 0\<rparr>,
        bs_RevertRecentCooldowns = ''''\<rparr>"

text \<open>Integer division truncates toward zero; both operands are positive when it is reached.\<close>

definition BucketDuration :: "BreakerSpec option \<Rightarrow> int" where
  "BucketDuration spec =
     (case spec of
        None \<Rightarrow> 0
      | Some s \<Rightarrow>
          if bs_Buckets s \<le> 0 then 0
          else sgn (Std (bs_Window s)) * (\<bar>Std (bs_Window s)\<bar> div bs_Buckets s))"

definition buckets_validate :: "BreakerSpec \<Rightarrow> problem list" where
  "buckets_validate s =
     (if \<not> IsPermanent (bs_Window s) \<and> Std (bs_Window s) \<ge> Second \<and> bs_Buckets s \<ge> 1 \<and> bs_Buckets s \<le> 60 then
        let windowMs = Milliseconds (bs_Window s) in
        if windowMs mod bs_Buckets s \<noteq> 0
        then [Problem ''buckets'' ''must divide window (%s) into whole milliseconds'' [A_dur (bs_Window s)]]
        else if windowMs div bs_Buckets s < 1000
        then [Problem ''buckets'' ''must divide window (%s) into buckets of at least 1s'' [A_dur (bs_Window s)]]
        else []
      else [])"

definition BreakerSpec_Validate :: "BreakerSpec option \<Rightarrow> ValidationError option" where
  "BreakerSpec_Validate spec =
     (case spec of
        None \<Rightarrow> Some \<lparr>ve_Kind = KindBreaker, ve_Name = '''', ve_Problems = [Problem '''' ''spec is nil'' []]\<rparr>
      | Some s \<Rightarrow>
          let t = bs_Trip s; h = bs_HalfOpen s in
          v_result
            (validateCommon (bs_Name s) (bs_Description s) (bs_Bind s) @
             v_duration ''window'' (bs_Window s) Second 0 @
             v_intRange ''buckets'' (bs_Buckets s) 1 60 @
             buckets_validate s @
             v_minInt ''min_requests'' (bs_MinRequests s) 1 @
             v_ratio ''trip.risk_ratio_gte'' (tr_RiskRatioGte t) False @
             v_minInt ''trip.distinct_captcha_identities_gte'' (tr_DistinctCaptchaIdentitiesGte t) 0 @
             v_ratio ''trip.success_ratio_lte'' (tr_SuccessRatioLte t) False @
             (if bs_Enabled s \<and> f_eq (tr_RiskRatioGte t) (Fin 0) \<and> tr_DistinctCaptchaIdentitiesGte t = 0 \<and>
                 f_eq (tr_SuccessRatioLte t) (Fin 0)
              then [Problem ''trip'' ''at least one condition must be non-zero while the breaker is enabled'' []] else []) @
             v_duration ''open_duration'' (bs_OpenDuration s) Second 0 @
             v_duration ''max_open_duration'' (bs_MaxOpenDuration s) Second 0 @
             (if \<not> IsPermanent (bs_OpenDuration s) \<and> \<not> IsPermanent (bs_MaxOpenDuration s) \<and>
                 bs_MaxOpenDuration s < bs_OpenDuration s
              then [Problem ''max_open_duration'' ''must be at least open_duration (%s)'' [A_dur (bs_OpenDuration s)]]
              else []) @
             v_duration ''reset_open_count_after'' (bs_ResetOpenCountAfter s) Second 0 @
             v_minInt ''half_open.probe_leases_per_10s'' (ho_ProbeLeasesPer10s h) 1 @
             v_minInt ''half_open.close_min_samples'' (ho_CloseMinSamples h) 1 @
             v_ratio ''half_open.close_success_ratio_gte'' (ho_CloseSuccessRatioGte h) True @
             (if \<not> ValidRevertMode (bs_RevertRecentCooldowns s)
              then [Problem ''revert_recent_cooldowns'' ''must be one of none|endpoint|all or a boolean (got %q)''
                      [A_str (bs_RevertRecentCooldowns s)]]
              else []))
            KindBreaker (bs_Name s))"

end
