(* ===== verification/Policy_Resolve.thy ===== *)
theory Policy_Resolve
  imports Policy_Specs
begin

text \<open>
  The operations over any kind of policy: \<^verbatim>\<open>internal/policy/kind.go\<close>, the resolution of bindings
  and of \<^verbatim>\<open>extends\<close> chains (\<^verbatim>\<open>resolve.go\<close>), the built-in policies (\<^verbatim>\<open>defaults.go\<close>) and the
  last step of the parsers (\<^verbatim>\<open>codec.go\<close>).  The interface \<^verbatim>\<open>Spec\<close> is a datatype over the four
  pointer types and the nil interface.
\<close>

section \<open>Specifications of any kind\<close>

datatype spec =
    Rotation_spec "RotationSpec option"
  | Signal_spec "SignalSpec option"
  | Action_spec "ActionSpec option"
  | Breaker_spec "BreakerSpec option"
  | Nil_spec

fun spec_Kind :: "spec \<Rightarrow> string" where
  "spec_Kind (Rotation_spec _) = KindRotation"
| "spec_Kind (Signal_spec _) = KindSignal"
| "spec_Kind (Action_spec _) = KindAction"
| "spec_Kind (Breaker_spec _) = KindBreaker"
| "spec_Kind Nil_spec = ''''"

fun PolicyName :: "spec \<Rightarrow> string" where
  "PolicyName (Rotation_spec (Some s)) = rs_Name s"
| "PolicyName (Signal_spec (Some s)) = ss_Name s"
| "PolicyName (Action_spec (Some s)) = as_Name s"
| "PolicyName (Breaker_spec (Some s)) = bs_Name s"
| "PolicyName _ = ''''"

fun PolicyBinding :: "spec \<Rightarrow> Binding option" where
  "PolicyBinding (Rotation_spec (Some s)) = rs_Bind s"
| "PolicyBinding (Signal_spec (Some s)) = ss_Bind s"
| "PolicyBinding (Action_spec (Some s)) = as_Bind s"
| "PolicyBinding (Breaker_spec (Some s)) = bs_Bind s"
| "PolicyBinding _ = None"

fun spec_Validate :: "regexps \<Rightarrow> spec \<Rightarrow> ValidationError option" where
  "spec_Validate re (Rotation_spec s) = RotationSpec_Validate s"
| "spec_Validate re (Signal_spec s) = SignalSpec_Validate re s"
| "spec_Validate re (Action_spec s) = ActionSpec_Validate s"
| "spec_Validate re (Breaker_spec s) = BreakerSpec_Validate s"
| "spec_Validate re Nil_spec = None"

text \<open>A signal policy has no default but an empty rule list, which is the empty list already.\<close>

fun ApplyDefaults :: "spec \<Rightarrow> spec" where
  "ApplyDefaults (Rotation_spec s) = Rotation_spec (map_option RotationSpec_ApplyDefaults s)"
| "ApplyDefaults (Signal_spec s) = Signal_spec s"
| "ApplyDefaults (Action_spec s) = Action_spec (map_option ActionSpec_ApplyDefaults s)"
| "ApplyDefaults (Breaker_spec s) = Breaker_spec (map_option BreakerSpec_ApplyDefaults s)"
| "ApplyDefaults Nil_spec = Nil_spec"

fun isNilSpec :: "spec \<Rightarrow> bool" where
  "isNilSpec Nil_spec = True"
| "isNilSpec (Rotation_spec s) = (s = None)"
| "isNilSpec (Signal_spec s) = (s = None)"
| "isNilSpec (Action_spec s) = (s = None)"
| "isNilSpec (Breaker_spec s) = (s = None)"

fun ParentName :: "spec \<Rightarrow> string" where
  "ParentName (Signal_spec (Some s)) = ss_Extends s"
| "ParentName (Action_spec (Some s)) = as_Extends s"
| "ParentName _ = ''''"

text \<open>The error of a chain element is its index.\<close>

fun signal_chain_from :: "nat \<Rightarrow> spec list \<Rightarrow> nat + SignalSpec list" where
  "signal_chain_from i [] = Inr []"
| "signal_chain_from i (s # ss) =
     (case s of
        Signal_spec (Some sig) \<Rightarrow>
          (case signal_chain_from (Suc i) ss of Inl e \<Rightarrow> Inl e | Inr l \<Rightarrow> Inr (sig # l))
      | _ \<Rightarrow> Inl i)"

definition SignalChain :: "spec list \<Rightarrow> nat + SignalSpec list" where
  "SignalChain specs = signal_chain_from 0 specs"

fun action_chain_from :: "nat \<Rightarrow> spec list \<Rightarrow> nat + ActionSpec list" where
  "action_chain_from i [] = Inr []"
| "action_chain_from i (s # ss) =
     (case s of
        Action_spec (Some act) \<Rightarrow>
          (case action_chain_from (Suc i) ss of Inl e \<Rightarrow> Inl e | Inr l \<Rightarrow> Inr (act # l))
      | _ \<Rightarrow> Inl i)"

definition ActionChain :: "spec list \<Rightarrow> nat + ActionSpec list" where
  "ActionChain specs = action_chain_from 0 specs"

definition newSignalBase :: SignalSpec where
  "newSignalBase = \<lparr>ss_Name = '''', ss_Description = '''', ss_Bind = None, ss_Extends = '''',
     ss_TrustOutcomeHint = False, ss_Rules = []\<rparr>"

definition newBase :: "string \<Rightarrow> spec option" where
  "newBase kind =
     (if kind = KindRotation then Some (Rotation_spec (Some newRotationBase))
      else if kind = KindSignal then Some (Signal_spec (Some newSignalBase))
      else if kind = KindAction then Some (Action_spec (Some newActionBase))
      else if kind = KindBreaker then Some (Breaker_spec (Some newBreakerBase))
      else None)"

definition finish :: "regexps \<Rightarrow> spec \<Rightarrow> ValidationError + spec" where
  "finish re s =
     (let s = ApplyDefaults s in
      case spec_Validate re s of Some err \<Rightarrow> Inl err | None \<Rightarrow> Inr s)"

section \<open>Built-in policies\<close>

definition when_any :: SignalWhen where
  "when_any = \<lparr>sw_HTTPStatus = None, sw_BusinessCode = None, sw_ErrorKind = None, sw_Markers = None,
     sw_URI = None, sw_Method = None, sw_LatencyMs = None, sw_ResponseBytes = None\<rparr>"

definition statuses :: "int list \<Rightarrow> IntMatcher option" where
  "statuses codes = Some \<lparr>im_Values = codes, im_Range = None\<rparr>"

definition signal_rule :: "string \<Rightarrow> SignalWhen \<Rightarrow> outcome \<Rightarrow> SignalRule" where
  "signal_rule name w out = \<lparr>sr_Name = name, sr_When = w, sr_Outcome = out, sr_Blame = ''''\<rparr>"

definition defaultSignalRules :: "SignalRule list" where
  "defaultSignalRules =
     [signal_rule ''proxy-error'' (when_any\<lparr>sw_ErrorKind := Some [''proxy_auth'', ''conn_refused'']\<rparr>) OutcomeProxyError,
      signal_rule ''network-error'' (when_any\<lparr>sw_ErrorKind := Some [''timeout'', ''conn_reset'', ''tls'', ''dns'']\<rparr>) OutcomeNetworkError,
      signal_rule ''captcha'' (when_any\<lparr>sw_Markers := Some [''captcha_page'']\<rparr>) OutcomeCaptcha,
      signal_rule ''login-redirect'' (when_any\<lparr>sw_Markers := Some [''login_redirect'']\<rparr>) OutcomeAuthInvalid,
      signal_rule ''rate-limited'' (when_any\<lparr>sw_HTTPStatus := statuses [429]\<rparr>) OutcomeRateLimited,
      signal_rule ''target-error''
        (when_any\<lparr>sw_HTTPStatus := Some \<lparr>im_Values = [],
           im_Range = Some \<lparr>Gte = Some 500, Gt = None, Lte = None, Lt = None\<rparr>\<rparr>\<rparr>) OutcomeTargetError,
      signal_rule ''empty-list'' (when_any\<lparr>sw_HTTPStatus := statuses [200], sw_Markers := Some [''empty_list'']\<rparr>) OutcomeEmpty,
      signal_rule ''client-error'' (when_any\<lparr>sw_HTTPStatus := statuses [400]\<rparr>) OutcomeClientError,
      signal_rule ''auth-invalid'' (when_any\<lparr>sw_HTTPStatus := statuses [401]\<rparr>) OutcomeAuthInvalid,
      signal_rule ''forbidden'' (when_any\<lparr>sw_HTTPStatus := statuses [403]\<rparr>) OutcomeForbidden,
      signal_rule ''success''
        (when_any\<lparr>sw_HTTPStatus := Some \<lparr>im_Values = [],
           im_Range = Some \<lparr>Gte = Some 200, Gt = None, Lte = None, Lt = Some 300\<rparr>\<rparr>\<rparr>) OutcomeSuccess]"

definition action_rule :: "string \<Rightarrow> outcome list \<Rightarrow> actionKind \<Rightarrow> actionScope \<Rightarrow> ActionRule" where
  "action_rule name outs act scope =
     \<lparr>ar_Name = name, ar_Outcome = outs, ar_Count = None, ar_Action = act, ar_Scope = scope, ar_Base = 0,
      ar_Multiplier = Fin 0, ar_Max = 0, ar_MaxExponent = 0, ar_Duration = 0, ar_FailureResetAfter = 0\<rparr>"

definition days :: "int \<Rightarrow> int" where
  "days n = wrap64 (wrap64 (n * 24) * Hour)"

definition defaultActionRules :: "ActionRule list" where
  "defaultActionRules =
     [(action_rule ''rate-limited-cooldown'' [OutcomeRateLimited] ActionCooldown ScopeIdentityEndpoint)
        \<lparr>ar_Base := Minute, ar_Multiplier := Fin 2, ar_Max := 30 * Minute\<rparr>,
      (action_rule ''empty-cooldown'' [OutcomeEmpty] ActionCooldown ScopeIdentityEndpoint)
        \<lparr>ar_Count := Some \<lparr>cc_Gte = 3, cc_Within = 10 * Minute\<rparr>, ar_Base := 5 * Minute\<rparr>,
      (action_rule ''captcha-cooldown'' [OutcomeCaptcha] ActionCooldown ScopeIdentitySite)
        \<lparr>ar_Base := 30 * Minute, ar_Multiplier := Fin 2, ar_Max := 6 * Hour\<rparr>,
      (action_rule ''captcha-ban'' [OutcomeCaptcha] ActionBan ScopeIdentity)
        \<lparr>ar_Count := Some \<lparr>cc_Gte = 3, cc_Within = 24 * Hour\<rparr>, ar_Duration := 12 * Hour\<rparr>,
      action_rule ''auth-invalid-expire'' [OutcomeAuthInvalid] ActionExpire ScopeIdentity,
      (action_rule ''banned-account'' [OutcomeBanned] ActionBan ScopeAccount)\<lparr>ar_Duration := Permanent\<rparr>,
      (action_rule ''proxy-error-cooldown'' [OutcomeProxyError] ActionCooldown ScopeProxySite)
        \<lparr>ar_Base := 2 * Minute, ar_Max := 30 * Minute\<rparr>]"

definition Default :: "string \<Rightarrow> spec" where
  "Default kind =
     (if kind = KindRotation then
        Rotation_spec (Some (newRotationBase\<lparr>rs_Name := DefaultPolicyName kind,
          rs_Description := ''Built-in default rotation policy.''\<rparr>))
      else if kind = KindSignal then
        Signal_spec (Some (newSignalBase\<lparr>ss_Name := DefaultPolicyName kind,
          ss_Description := ''Built-in default signal policy.'', ss_Rules := defaultSignalRules\<rparr>))
      else if kind = KindAction then
        Action_spec (Some (ActionSpec_ApplyDefaults (newActionBase\<lparr>as_Name := DefaultPolicyName kind,
          as_Description := ''Built-in default action policy.'', as_Rules := defaultActionRules,
          as_Escalation :=
            [\<lparr>es_Bans = \<lparr>cc_Gte = 2, cc_Within = days 7\<rparr>, es_Duration = 72 * Hour\<rparr>,
             \<lparr>es_Bans = \<lparr>cc_Gte = 3, cc_Within = days 30\<rparr>, es_Duration = Permanent\<rparr>]\<rparr>)))
      else if kind = KindBreaker then
        Breaker_spec (Some (newBreakerBase\<lparr>bs_Name := DefaultPolicyName kind,
          bs_Description := ''Built-in default breaker policy.''\<rparr>))
      else Nil_spec)"

section \<open>Resolution of bindings\<close>

record BindingRow =
  br_PolicyID :: string
  br_Kind :: string
  br_SiteID :: string
  br_Client :: string
  br_EndpointGroupID :: string

abbreviation LevelEndpointGroup :: string where "LevelEndpointGroup \<equiv> ''endpoint_group''"
abbreviation LevelClient :: string where "LevelClient \<equiv> ''client''"
abbreviation LevelSite :: string where "LevelSite \<equiv> ''site''"
abbreviation LevelNamespace :: string where "LevelNamespace \<equiv> ''namespace''"
abbreviation LevelBuiltin :: string where "LevelBuiltin \<equiv> ''builtin''"

definition bindingRank :: "BindingRow \<Rightarrow> string \<Rightarrow> string \<Rightarrow> string \<Rightarrow> nat" where
  "bindingRank b siteID client endpointGroupID =
     (if br_SiteID b = '''' then (if br_Client b = '''' \<and> br_EndpointGroupID b = '''' then 1 else 0)
      else if br_SiteID b \<noteq> siteID then 0
      else if br_EndpointGroupID b \<noteq> '''' then
        (if endpointGroupID \<noteq> '''' \<and> br_EndpointGroupID b = endpointGroupID \<and> (br_Client b = '''' \<or> br_Client b = client)
         then 4 else 0)
      else if br_Client b \<noteq> '''' then (if client \<noteq> '''' \<and> br_Client b = client then 3 else 0)
      else 2)"

definition resolve_step ::
    "string \<Rightarrow> string \<Rightarrow> string \<Rightarrow> string \<Rightarrow> BindingRow option \<times> nat \<Rightarrow> BindingRow \<Rightarrow> BindingRow option \<times> nat" where
  "resolve_step kind siteID client endpointGroupID best b =
     (if br_Kind b \<noteq> kind then best
      else let rank = bindingRank b siteID client endpointGroupID in
           if rank > snd best then (Some b, rank) else best)"

definition level_of :: "nat \<Rightarrow> string" where
  "level_of rank =
     (if rank = 4 then LevelEndpointGroup else if rank = 3 then LevelClient else if rank = 2 then LevelSite
      else if rank = 1 then LevelNamespace else LevelBuiltin)"

definition Resolve :: "string \<Rightarrow> BindingRow list \<Rightarrow> string \<Rightarrow> string \<Rightarrow> string \<Rightarrow> string \<times> string" where
  "Resolve kind bindings siteID client endpointGroupID =
     (case foldl (resolve_step kind siteID client endpointGroupID) (None, 0) bindings of
        (Some b, rank) \<Rightarrow> if rank \<in> {1, 2, 3, 4} then (br_PolicyID b, level_of rank) else ('''', LevelBuiltin)
      | (None, _) \<Rightarrow> ('''', LevelBuiltin))"

section \<open>Resolution of extends\<close>

datatype resolve_error =
    Leaf_nil
  | Leaf_kind string string string
  | Cycle "string list" string
  | Too_deep "string list" string
  | No_lookup string string
  | Unknown_parent string string string
  | Parent_kind string string string string
  | Wrong_name string string

text \<open>
  The loop of \<^verbatim>\<open>ResolveExtends\<close>; the chain is in the order it is collected, leaf first.  A nil
  lookup function is \<open>None\<close>, a name it does not find is \<open>None\<close> as its result.
\<close>

function extends_loop ::
    "string \<Rightarrow> (string \<Rightarrow> spec option) option \<Rightarrow> spec list \<Rightarrow> string list \<Rightarrow> spec \<Rightarrow> resolve_error + spec list" where
  "extends_loop kind lookup chain names cur =
     (let parent = ParentName cur in
      if parent = '''' then Inr chain
      else if parent \<in> set names then Inl (Cycle names parent)
      else if length chain \<ge> MaxExtendsDepth then Inl (Too_deep names parent)
      else case lookup of
        None \<Rightarrow> Inl (No_lookup (PolicyName cur) parent)
      | Some find_policy \<Rightarrow>
          (case find_policy parent of
             None \<Rightarrow> Inl (Unknown_parent (PolicyName cur) kind parent)
           | Some next_spec \<Rightarrow>
               if isNilSpec next_spec then Inl (Unknown_parent (PolicyName cur) kind parent)
               else if spec_Kind next_spec \<noteq> kind then Inl (Parent_kind (PolicyName cur) parent (spec_Kind next_spec) kind)
               else if PolicyName next_spec \<noteq> parent then Inl (Wrong_name parent (PolicyName next_spec))
               else extends_loop kind lookup (chain @ [next_spec]) (names @ [parent]) next_spec))"
  by pat_completeness auto
termination
  by (relation "measure (\<lambda>(kind, lookup, chain, names, cur). MaxExtendsDepth - length chain)") auto

declare extends_loop.simps [simp del]

definition ResolveExtends :: "string \<Rightarrow> spec \<Rightarrow> (string \<Rightarrow> spec option) option \<Rightarrow> resolve_error + spec list" where
  "ResolveExtends kind leaf lookup =
     (if isNilSpec leaf then Inl Leaf_nil
      else if spec_Kind leaf \<noteq> kind then Inl (Leaf_kind (PolicyName leaf) (spec_Kind leaf) kind)
      else if kind \<noteq> KindSignal \<and> kind \<noteq> KindAction then Inr [leaf]
      else case extends_loop kind lookup [leaf] [PolicyName leaf] leaf of Inl e \<Rightarrow> Inl e | Inr chain \<Rightarrow> Inr (rev chain))"

end
