(* ===== verification/Policy_Resolve_Laws.thy ===== *)
theory Policy_Resolve_Laws
  imports Policy_Resolve
begin

text \<open>
  Resolution of bindings picks the most specific one, resolution of \<^verbatim>\<open>extends\<close> returns exactly the
  chains there are, accepted policies are fixed points of the parser's last step, and the built-in
  policies are valid.
\<close>

section \<open>Bindings\<close>

definition applicable :: "string \<Rightarrow> string \<Rightarrow> string \<Rightarrow> string \<Rightarrow> BindingRow list \<Rightarrow> BindingRow list" where
  "applicable kind site client eg bindings =
     filter (\<lambda>b. br_Kind b = kind \<and> 0 < bindingRank b site client eg) bindings"

lemma bindingRank_le: "bindingRank b site client eg \<le> 4"
  by (simp add: bindingRank_def)

definition best_row :: "string \<Rightarrow> string \<Rightarrow> string \<Rightarrow> BindingRow list \<Rightarrow> BindingRow option \<times> nat" where
  "best_row site client eg cands =
     (if cands = [] then (None, 0)
      else let r = Max ((\<lambda>b. bindingRank b site client eg) ` set cands) in
           (find (\<lambda>b. bindingRank b site client eg = r) cands, r))"

lemma find_hd_filter: "find P xs = Some x \<Longrightarrow> hd (filter P xs) = x"
  by (induction xs) (auto split: if_splits)

lemma find_append: "find P (xs @ ys) = (case find P xs of None \<Rightarrow> find P ys | Some x \<Rightarrow> Some x)"
  by (induction xs) auto

lemma best_row_snoc:
  assumes "0 < bindingRank b site client eg"
  shows "best_row site client eg (cands @ [b]) =
    (if snd (best_row site client eg cands) < bindingRank b site client eg then (Some b, bindingRank b site client eg)
     else best_row site client eg cands)"
proof (cases "cands = []")
  case True
  with assms show ?thesis by (simp add: best_row_def)
next
  case False
  let ?rk = "\<lambda>b. bindingRank b site client eg"
  let ?m = "Max (?rk ` set cands)"
  have m: "Max (?rk ` set (cands @ [b])) = max (?rk b) ?m" using False by simp
  have le: "?rk x \<le> ?m" if "x \<in> set cands" for x using that by simp
  show ?thesis
  proof (cases "?m < ?rk b")
    case True
    then have "find (\<lambda>x. ?rk x = ?rk b) cands = None" unfolding find_None_iff using le by (metis not_less)
    moreover have "Max (?rk ` set (cands @ [b])) = ?rk b" using m max_absorb1 [OF less_imp_le [OF True]] by (rule trans)
    ultimately show ?thesis using True False by (simp add: best_row_def Let_def find_append del: Max_insert)
  next
    case f: False
    have "?m \<in> ?rk ` set cands" using False by (intro Max_in) auto
    then have "find (\<lambda>x. ?rk x = ?m) cands \<noteq> None" by (auto simp: find_None_iff)
    then obtain y where "find (\<lambda>x. ?rk x = ?m) cands = Some y" by auto
    moreover have "Max (?rk ` set (cands @ [b])) = ?m" using m max_absorb2 [OF leI [OF f]] by (rule trans)
    ultimately show ?thesis using f False by (simp add: best_row_def Let_def find_append del: Max_insert Max_less_iff)
  qed
qed

lemma resolve_fold:
  "foldl (resolve_step kind site client eg) (None, 0) bindings =
   best_row site client eg (applicable kind site client eg bindings)"
proof (induction bindings rule: rev_induct)
  case Nil
  then show ?case by (simp add: applicable_def best_row_def)
next
  case (snoc b bindings)
  then show ?case
    by (auto simp: resolve_step_def applicable_def best_row_snoc Let_def)
qed


section \<open>Extends\<close>

definition parent_of :: "string \<Rightarrow> (string \<Rightarrow> spec option) option \<Rightarrow> spec \<Rightarrow> spec \<Rightarrow> bool" where
  "parent_of kind lookup child p \<longleftrightarrow>
     ParentName child \<noteq> '''' \<and> (\<exists>f. lookup = Some f \<and> f (ParentName child) = Some p) \<and>
     \<not> isNilSpec p \<and> spec_Kind p = kind \<and> PolicyName p = ParentName child"

definition linked :: "string \<Rightarrow> (string \<Rightarrow> spec option) option \<Rightarrow> spec list \<Rightarrow> bool" where
  "linked kind lookup chain \<longleftrightarrow>
     chain \<noteq> [] \<and> successively (parent_of kind lookup) chain \<and> distinct (map PolicyName chain) \<and>
     length chain \<le> MaxExtendsDepth"

lemma linked_snoc:
  "xs \<noteq> [] \<Longrightarrow> linked kind lookup (xs @ [z]) \<longleftrightarrow>
     linked kind lookup xs \<and> parent_of kind lookup (last xs) z \<and> PolicyName z \<notin> set (map PolicyName xs) \<and>
     length xs < MaxExtendsDepth"
  by (auto simp: linked_def successively_append_iff)

lemma linked_prefix: "linked kind lookup (xs @ zs) \<Longrightarrow> xs \<noteq> [] \<Longrightarrow> linked kind lookup xs"
  by (auto simp: linked_def successively_append_iff)

lemma extends_loop_step:
  assumes "xs \<noteq> []"
  shows "extends_loop kind lookup xs (map PolicyName xs) (last xs) = Inr ys \<longleftrightarrow>
    (if ParentName (last xs) = '''' then ys = xs
     else \<exists>z. parent_of kind lookup (last xs) z \<and> PolicyName z \<notin> set (map PolicyName xs) \<and>
              length xs < MaxExtendsDepth \<and>
              extends_loop kind lookup (xs @ [z]) (map PolicyName (xs @ [z])) (last (xs @ [z])) = Inr ys)"
  using assms
  by (subst extends_loop.simps)
     (auto simp: Let_def parent_of_def split: option.splits)

lemma extends_loop_iff:
  assumes "linked kind lookup xs"
  shows "extends_loop kind lookup xs (map PolicyName xs) (last xs) = Inr ys \<longleftrightarrow>
    (\<exists>zs. ys = xs @ zs \<and> linked kind lookup ys \<and> ParentName (last ys) = '''')"
  using assms
proof (induction "MaxExtendsDepth - length xs" arbitrary: xs rule: less_induct)
  case less
  have ne: "xs \<noteq> []" using less.prems by (simp add: linked_def)
  show ?case
  proof (cases "ParentName (last xs) = ''''")
    case True
    have "zs = []" if "linked kind lookup (xs @ zs)" for zs
      using that True ne by (cases zs) (auto simp: linked_def successively_append_iff parent_of_def)
    then show ?thesis unfolding extends_loop_step [OF ne] using True less.prems by auto
  next
    case False
    have IH: "extends_loop kind lookup (xs @ [z]) (map PolicyName (xs @ [z])) (last (xs @ [z])) = Inr ys \<longleftrightarrow>
        (\<exists>zs. ys = (xs @ [z]) @ zs \<and> linked kind lookup ys \<and> ParentName (last ys) = '''')"
      if "linked kind lookup (xs @ [z])" for z
      by (rule less.hyps [OF _ that]) (use that in \<open>auto simp: linked_snoc [OF ne]\<close>)
    have "(\<exists>zs. ys = xs @ zs \<and> linked kind lookup ys \<and> ParentName (last ys) = '''') \<longleftrightarrow>
          (\<exists>z. linked kind lookup (xs @ [z]) \<and>
               (\<exists>zs. ys = (xs @ [z]) @ zs \<and> linked kind lookup ys \<and> ParentName (last ys) = ''''))"
      (is "?l \<longleftrightarrow> ?r")
    proof
      assume ?l
      then obtain zs where zs: "ys = xs @ zs" "linked kind lookup ys" "ParentName (last ys) = ''''" by blast
      with False obtain z zs' where "zs = z # zs'" by (cases zs) auto
      with zs linked_prefix [of kind lookup "xs @ [z]" zs'] show ?r by auto
    qed auto
    also have "\<dots> \<longleftrightarrow> (\<exists>z. linked kind lookup (xs @ [z]) \<and>
        extends_loop kind lookup (xs @ [z]) (map PolicyName (xs @ [z])) (last (xs @ [z])) = Inr ys)"
      using IH by blast
    finally show ?thesis
      unfolding extends_loop_step [OF ne] linked_snoc [OF ne] using False less.prems by simp
  qed
qed

definition extends_chain :: "string \<Rightarrow> (string \<Rightarrow> spec option) option \<Rightarrow> spec \<Rightarrow> spec list \<Rightarrow> bool" where
  "extends_chain kind lookup leaf chain \<longleftrightarrow>
     linked kind lookup (rev chain) \<and> last chain = leaf \<and> ParentName (hd chain) = '''' \<and>
     \<not> isNilSpec leaf \<and> spec_Kind leaf = kind"

lemma rotation_no_parent: "ParentName s \<noteq> '''' \<Longrightarrow> spec_Kind s = KindSignal \<or> spec_Kind s = KindAction"
  by (cases s rule: ParentName.cases) auto

text \<open>
  C30. Resolution of \<^verbatim>\<open>extends\<close> always returns, and it returns a chain exactly when there is one: at
  most five policies of the kind with distinct names, from a policy without a parent down to the
  leaf, each the one the lookup finds under the name its child extends.  Cycles, missing parents,
  kind mismatches, wrong names and longer chains are errors, whatever the lookup does.
\<close>

theorem ResolveExtends_iff:
  "ResolveExtends kind leaf lookup = Inr chain \<longleftrightarrow> extends_chain kind lookup leaf chain"
proof (cases "isNilSpec leaf \<or> spec_Kind leaf \<noteq> kind")
  case True
  then show ?thesis by (auto simp: ResolveExtends_def extends_chain_def)
next
  case ok: False
  then have l: "linked kind lookup [leaf]" by (simp add: linked_def)
  have c: "(\<exists>zs. rev chain = [leaf] @ zs \<and> linked kind lookup (rev chain) \<and> ParentName (last (rev chain)) = '''') \<longleftrightarrow>
           extends_chain kind lookup leaf chain"
  proof -
    have "(\<exists>zs. rev chain = [leaf] @ zs) \<longleftrightarrow> chain \<noteq> [] \<and> last chain = leaf"
      by (cases chain rule: rev_cases) auto
    then show ?thesis using ok by (auto simp: extends_chain_def last_rev linked_def)
  qed
  show ?thesis
  proof (cases "kind = KindSignal \<or> kind = KindAction")
    case True
    have "ResolveExtends kind leaf lookup = Inr chain \<longleftrightarrow>
          extends_loop kind lookup [leaf] (map PolicyName [leaf]) (last [leaf]) = Inr (rev chain)"
      using ok True by (auto simp: ResolveExtends_def split: sum.splits)
    then show ?thesis unfolding extends_loop_iff [OF l] c .
  next
    case False
    then have "ParentName leaf = ''''" using rotation_no_parent [of leaf] ok by auto
    then have "extends_loop kind lookup [leaf] (map PolicyName [leaf]) (last [leaf]) = Inr (rev chain) \<longleftrightarrow> rev chain = [leaf]"
      unfolding extends_loop_step [OF not_Cons_self2 [of leaf "[]"]] by auto
    moreover have "ResolveExtends kind leaf lookup = Inr chain \<longleftrightarrow> chain = [leaf]"
      using ok False by (auto simp: ResolveExtends_def)
    ultimately show ?thesis using extends_loop_iff [OF l, of "rev chain"] c by simp
  qed
qed

section \<open>Defaults\<close>

lemma to_f64_ratio:
  assumes "1 / 1024 \<le> x" "x \<le> 1"
  shows "\<exists>q. to_f64 x = Fin q \<and> 0 < q \<and> q \<le> 1"
proof -
  have "(1 / 1024 :: rat) = pow2 (- 10)" by (simp add: power_int_minus)
  then have "1 / 1024 \<le> round_rat x" using ieee.ge [OF representable_pow2 [of "- 10"], of x] assms(1) by simp
  with to_f64_le [OF representable_1, of x] assms show ?thesis by auto
qed

lemma ratio_valid: "1 / 1024 \<le> x \<Longrightarrow> x \<le> 1 \<Longrightarrow> v_ratio p (to_f64 x) b = []"
  using to_f64_ratio [of x] by (auto simp: v_ratio_def)

lemma ratio_nonzero: "1 / 1024 \<le> x \<Longrightarrow> x \<le> 1 \<Longrightarrow> \<not> f_eq (to_f64 x) (Fin 0)"
  using to_f64_ratio [of x] by (auto simp: f_eq_def)

lemmas float_defaults = DefaultHealthAlpha_def DefaultProbeWeightFactor_def DefaultCloseSuccessRatioGte_def
  DefaultCooldownMultiplier_def

lemma setString_idem [simp]: "setString (setString v d) d = setString v d"
  by (simp add: setString_def)

lemma setInt_idem [simp]: "setInt (setInt v d) d = setInt v d"
  by (simp add: setInt_def)

lemma setDuration_idem [simp]: "setDuration (setDuration v d) d = setDuration v d"
  by (simp add: setDuration_def)

lemma nilIfEmpty_idem [simp]: "nilIfEmpty (nilIfEmpty l) = nilIfEmpty l"
  by (cases l rule: option.exhaust) (auto simp: nilIfEmpty_def split: list.splits)

lemma rule_defaults_idem: "rule_defaults (rule_defaults r) = rule_defaults r"
  by (simp add: rule_defaults_def)

lemma ApplyDefaults_idem: "ApplyDefaults (ApplyDefaults s) = ApplyDefaults s"
proof (cases s)
  case (Rotation_spec s')
  then show ?thesis
    by (cases s') (auto simp: RotationSpec_ApplyDefaults_def params_defaults_def proxy_defaults_def)
next
  case (Action_spec s')
  then show ?thesis
    by (cases s') (auto simp: ActionSpec_ApplyDefaults_def health_defaults_def cross_defaults_def rule_defaults_idem)
next
  case (Breaker_spec s')
  then show ?thesis
    by (cases s') (auto simp: BreakerSpec_ApplyDefaults_def half_open_defaults_def)
qed simp_all


section \<open>The built-in policies are valid\<close>

lemma default_names:
  "validateCommon (DefaultPolicyName KindRotation) ''Built-in default rotation policy.'' None = []"
  "validateCommon (DefaultPolicyName KindSignal) ''Built-in default signal policy.'' None = []"
  "validateCommon (DefaultPolicyName KindAction) ''Built-in default action policy.'' None = []"
  "validateCommon (DefaultPolicyName KindBreaker) ''Built-in default breaker policy.'' None = []"
  by code_simp+

lemma default_signal_rules: "signal_rules_validate re 0 [] defaultSignalRules = []"
  by code_simp

lemma default_action_rules: "action_rules_validate 0 [] (map rule_defaults defaultActionRules) = []"
  by code_simp

lemma default_rotation: "spec_Validate re (Default KindRotation) = None"
proof -
  have "RotationParams_validate (rs_Rotation newRotationBase) ''rotation'' = []"
    by (simp add: newRotationBase_def RotationSpec_ApplyDefaults_def params_defaults_def RotationParams_validate_def
        setString_def setInt_def setDuration_def v_enum_def v_intRange_def v_duration_def v_minInt_def IsPermanent_def
        Std_def f_eq_def DefaultProbeWeightFactor_def ratio_valid) (simp add: v_ratio_def)
  moreover have "ProxySpec_validate (rs_Proxy newRotationBase) ''proxy'' = []"
    by (simp add: newRotationBase_def RotationSpec_ApplyDefaults_def proxy_defaults_def ProxySpec_validate_def
        setString_def nilIfEmpty_def v_enum_def v_stringList_def v_duration_def v_minInt_def IsPermanent_def Std_def)
  ultimately show ?thesis
    using default_names(1)
    by (simp add: Default_def RotationSpec_Validate_def v_result_def v_stringList_def)
       (simp add: newRotationBase_def RotationSpec_ApplyDefaults_def nilIfEmpty_def)
qed

lemma default_signal: "spec_Validate re (Default KindSignal) = None"
  using default_names(2) default_signal_rules [of re]
  by (simp add: Default_def SignalSpec_Validate_def v_result_def newSignalBase_def validateExtends_def)

lemma default_action: "spec_Validate re (Default KindAction) = None"
proof -
  have h: "HealthSpec_validate (health_defaults (health_defaults
      \<lparr>h_Alpha = Fin 0, h_Baseline = Fin 70, h_Tau = 0, h_Observations = [], h_EndpointLowScore = Fin 15,
       h_EndpointLowMinSamples = 0, h_EndpointLowCooldown = 0, h_QuarantineScore = Fin 20, h_QuarantineMinSamples = 0,
       h_QuarantineDuration = 0\<rparr>)) ''health'' = []"
    by (simp add: health_defaults_def HealthSpec_validate_def setInt_def setDuration_def v_score_def v_duration_def
        v_minInt_def IsPermanent_def Std_def f_eq_def [of "Fin 0"] DefaultHealthAlpha_def ratio_nonzero ratio_valid)
  have e: "validateEscalation
      [\<lparr>es_Bans = \<lparr>cc_Gte = 2, cc_Within = days 7\<rparr>, es_Duration = 72 * Hour\<rparr>,
       \<lparr>es_Bans = \<lparr>cc_Gte = 3, cc_Within = days 30\<rparr>, es_Duration = Permanent\<rparr>] = []"
    by code_simp
  show ?thesis
    using default_names(3) default_action_rules h e
    by (simp add: Default_def ActionSpec_Validate_def v_result_def newActionBase_def ActionSpec_ApplyDefaults_def
        validateExtends_def Let_def setString_def cross_defaults_def setInt_def setDuration_def v_enum_def v_duration_def
        v_minInt_def IsPermanent_def Std_def)
qed

lemma default_breaker: "spec_Validate re (Default KindBreaker) = None"
  using default_names(4)
  by (simp add: Default_def BreakerSpec_Validate_def v_result_def newBreakerBase_def BreakerSpec_ApplyDefaults_def
      half_open_defaults_def Let_def setString_def setInt_def setDuration_def v_intRange_def v_duration_def v_minInt_def
      IsPermanent_def Std_def f_eq_def [of "Fin 0"] DefaultCloseSuccessRatioGte_def ratio_valid buckets_validate_def
      Milliseconds_def ValidRevertMode_def)

lemma default_breaker_fixed: "ApplyDefaults (Default KindBreaker) = Default KindBreaker"
  by (auto simp: Default_def newBreakerBase_def BreakerSpec_ApplyDefaults_def half_open_defaults_def)

text \<open>
  The built-in policy of each kind validates, carries the name of the kind, and is unchanged by
  the defaults.
\<close>

theorem Default_valid:
  assumes "ValidKind kind"
  shows "spec_Validate re (Default kind) = None \<and> ApplyDefaults (Default kind) = Default kind \<and>
         PolicyName (Default kind) = DefaultPolicyName kind \<and> spec_Kind (Default kind) = kind"
proof -
  consider "kind = KindRotation" | "kind = KindSignal" | "kind = KindAction" | "kind = KindBreaker"
    using assms by (auto simp: ValidKind_def)
  then show ?thesis
  proof cases
    case 1
    have "RotationSpec_ApplyDefaults (newRotationBase\<lparr>rs_Name := n, rs_Description := d\<rparr>) =
          newRotationBase\<lparr>rs_Name := n, rs_Description := d\<rparr>" for n d
      by (auto simp: newRotationBase_def RotationSpec_ApplyDefaults_def params_defaults_def proxy_defaults_def)
    with 1 default_rotation [of re] show ?thesis by (simp add: Default_def)
  next
    case 2
    with default_signal [of re] show ?thesis by (simp add: Default_def)
  next
    case 3
    have "ActionSpec_ApplyDefaults (ActionSpec_ApplyDefaults s) = ActionSpec_ApplyDefaults s" for s
      using ApplyDefaults_idem [of "Action_spec (Some s)"] by simp
    with 3 default_action [of re] show ?thesis by (simp add: Default_def ActionSpec_ApplyDefaults_def [of "newActionBase\<lparr>as_Name := _\<rparr>"])
        (simp add: ActionSpec_ApplyDefaults_def)
  next
    case 4
    with default_breaker [of re] default_breaker_fixed show ?thesis by (simp add: Default_def)
  qed
qed

theorem Default_valid_witness:
  "ValidKind KindAction \<and> spec_Validate (\<lambda>s. Inl s) (Default KindAction) = None"
  using Default_valid [of KindAction "\<lambda>s. Inl s"] by (simp add: ValidKind_def)


end
