(* ===== verification/Policy_Evaluate_Laws.thy ===== *)
theory Policy_Evaluate_Laws
  imports Policy_Evaluate Policy_Severity_Laws Policy_Resolve_Laws
begin

text \<open>
  The plan of actions for a report: which counters it reads, whom it can hit, how bans escalate, and
  that every planned action is well formed.
\<close>

unbundle bit_operations_syntax

section \<open>Outcome masks\<close>

lemma bit_add_outcome:
  assumes "ValidOutcome out"
  shows "bit (add_outcome w o') (nat (outcomeIndex out)) \<longleftrightarrow> bit w (nat (outcomeIndex out)) \<or> o' = out"
proof -
  have "0 \<le> outcomeIndex out" "outcomeIndex out < 12"
    using assms outcomeIndex_valid(1) by (auto simp: ValidOutcome_def)
  then show ?thesis
    using outcomeIndex_inj [of out o']
    by (auto simp: add_outcome_def Let_def bit_or_iff bit_exp_iff eq_nat_nat_iff)
qed

lemma outcome_mask:
  "ValidOutcome out \<Longrightarrow>
   bit (foldl add_outcome w outs) (nat (outcomeIndex out)) \<longleftrightarrow> bit w (nat (outcomeIndex out)) \<or> out \<in> set outs"
  by (induction outs arbitrary: w) (auto simp: bit_add_outcome)

lemma am_outcomes_iff:
  "ValidOutcome out \<Longrightarrow>
   \<not> (am_outcomes (compile_rule k p i r) AND push_bit (nat (outcomeIndex out)) 1 = 0) \<longleftrightarrow> out \<in> set (ar_Outcome r)"
  by (simp add: compile_rule_def and_exp_eq_0_iff_not_bit outcome_mask)

section \<open>The compiled chain\<close>

text \<open>The rules of a chain in order, each with its policy and its index there.\<close>

definition action_rules :: "ActionSpec list \<Rightarrow> (string \<times> nat \<times> ActionRule) list" where
  "action_rules specs = concat (map (\<lambda>s. map (\<lambda>(i, r). (as_Name s, i, r)) (enumerate 0 (as_Rules s))) specs)"

definition compiled_from :: "nat \<Rightarrow> (string \<times> nat \<times> ActionRule) list \<Rightarrow> actionMatcher list" where
  "compiled_from k rules = map (\<lambda>(k, p, i, r). compile_rule k p i r) (enumerate k rules)"

lemma compiled_from_append:
  "compiled_from k (xs @ ys) = compiled_from k xs @ compiled_from (k + length xs) ys"
  by (simp add: compiled_from_def enumerate_append_eq)

lemma fst_compile_policy_rules:
  "fst (compile_policy_rules p i rs (ms, reset, saw)) =
   ms @ compiled_from (length ms) (map (\<lambda>(i, r). (p, i, r)) (enumerate i rs))"
  by (induction rs arbitrary: i ms reset saw) (auto simp: Let_def compiled_from_def)

lemma fst_compile_policies:
  "fst (foldl (\<lambda>st s. compile_policy_rules (as_Name s) 0 (as_Rules s) st) (ms, reset, saw) specs) =
   ms @ compiled_from (length ms) (action_rules specs)"
proof (induction specs arbitrary: ms reset saw)
  case Nil
  then show ?case by (simp add: action_rules_def compiled_from_def)
next
  case (Cons s specs)
  obtain ms' reset' saw' where st: "compile_policy_rules (as_Name s) 0 (as_Rules s) (ms, reset, saw) = (ms', reset', saw')"
    by (cases "compile_policy_rules (as_Name s) 0 (as_Rules s) (ms, reset, saw)") auto
  then have ms': "ms' = ms @ compiled_from (length ms) (map (\<lambda>(i, r). (as_Name s, i, r)) (enumerate 0 (as_Rules s)))"
    using fst_compile_policy_rules [of "as_Name s" 0 "as_Rules s" ms reset saw] by simp
  then show ?case
    using Cons.IH [of ms' reset' saw'] st
    by (simp add: action_rules_def compiled_from_append) (simp add: compiled_from_def)
qed

lemma check_action_chain_Inr:
  "check_action_chain i chain = Inr specs \<Longrightarrow>
   chain = map Some specs \<and> (\<forall>s \<in> set specs. ActionSpec_Validate (Some s) = None)"
  by (induction i chain arbitrary: specs rule: check_action_chain.induct) (auto split: option.splits sum.splits)

lemma CompileAction_parts:
  assumes "CompileAction (map Some specs) = Inr c"
  shows "specs \<noteq> []" and "s \<in> set specs \<Longrightarrow> ActionSpec_Validate (Some s) = None"
    and "ca_rules c = compiled_from 0 (action_rules specs)"
    and "ca_counters c = map (\<lambda>idx. foldl (add_counter idx) [] (ca_rules c)) [0..<12]"
    and "ca_escalation c = map compile_step (escalation_source (rev specs))"
    and "ca_escalationWindows c = foldl add_window [] (ca_escalation c)"
    and "ht_endpointLowCooldown (ca_health c) = h_EndpointLowCooldown (as_Health (last specs))"
    and "ht_quarantineDuration (ca_health c) = h_QuarantineDuration (as_Health (last specs))"
proof -
  obtain specs' where s': "check_action_chain 0 (map Some specs) = Inr specs'"
    using assms by (auto simp: CompileAction_def split: if_splits sum.splits)
  with check_action_chain_Inr [OF this] have eq: "specs' = specs" by (metis list.inj_map_strong option.inject)
  with check_action_chain_Inr [OF s'] show "s \<in> set specs \<Longrightarrow> ActionSpec_Validate (Some s) = None" by simp
  show "specs \<noteq> []" using assms by (auto simp: CompileAction_def)
  note c = assms s' eq
  show "ca_rules c = compiled_from 0 (action_rules specs)"
    using c fst_compile_policies [of "[]" DefaultFailureResetAfter False specs]
    by (auto simp: CompileAction_def Let_def compileObservations_def compileEscalation_def compileRules_def
        case_prod_beta split: if_splits)
  show "ca_counters c = map (\<lambda>idx. foldl (add_counter idx) [] (ca_rules c)) [0..<12]"
    "ca_escalation c = map compile_step (escalation_source (rev specs))"
    "ca_escalationWindows c = foldl add_window [] (ca_escalation c)"
    "ht_endpointLowCooldown (ca_health c) = h_EndpointLowCooldown (as_Health (last specs))"
    "ht_quarantineDuration (ca_health c) = h_QuarantineDuration (as_Health (last specs))"
    using c
    by (auto simp: CompileAction_def Let_def compileObservations_def compileEscalation_def compileRules_def
        case_prod_beta Std_def split: if_splits)
qed

section \<open>The counters that are asked for\<close>

lemma set_add_counter: "set reqs \<subseteq> set (add_counter idx reqs m)"
  by (auto simp: add_counter_def Let_def)

lemma set_counters: "set reqs \<subseteq> set (foldl (add_counter idx) reqs ms)"
proof (induction ms arbitrary: reqs)
  case (Cons m ms)
  then show ?case using set_add_counter [of reqs idx m] by fastforce
qed simp

lemma counter_requested:
  assumes "m \<in> set ms" and "am_hasCount m" and "am_outcomes m AND push_bit idx 1 \<noteq> 0"
  shows "\<lparr>cr_Subject = am_subject m, cr_Outcome = Outcomes ! idx, cr_Window = am_countWindow m\<rparr> \<in>
         set (foldl (add_counter idx) reqs ms)"
  using assms(1)
proof (induction ms arbitrary: reqs)
  case (Cons x ms)
  show ?case
  proof (cases "x = m")
    case True
    have "\<lparr>cr_Subject = am_subject m, cr_Outcome = Outcomes ! idx, cr_Window = am_countWindow m\<rparr> \<in>
          set (add_counter idx reqs m)"
      using assms(2,3) by (auto simp: add_counter_def Let_def)
    then show ?thesis using True set_counters by fastforce
  next
    case False
    with Cons show ?thesis by simp
  qed
qed simp

lemma window_requested: "set ws \<union> st_window ` set sts \<subseteq> set (foldl add_window ws sts)"
proof (induction sts arbitrary: ws)
  case (Cons st sts)
  have "set ws \<union> {st_window st} \<subseteq> set (add_window ws st)" by (auto simp: add_window_def)
  with Cons.IH [of "add_window ws st"] show ?case by auto
qed simp


section \<open>The plan reads only the requested counters\<close>

lemma rule_applies_cong:
  assumes "am_hasCount m \<Longrightarrow> am_outcomes m AND push_bit (nat (outcomeIndex (ei_Outcome inp))) 1 \<noteq> 0 \<Longrightarrow>
           ei_Counts inp' (counter_key m inp) = ei_Counts inp (counter_key m inp)"
    and "ei_Outcome inp' = ei_Outcome inp"
  shows "rule_applies m inp' = rule_applies m inp"
  using assms by (auto simp: rule_applies_def counter_key_def)

lemma better_step_cong:
  assumes "\<forall>st \<in> set sts. ei_BanCounts inp' (st_window st) = ei_BanCounts inp (st_window st)"
  shows "foldl (better_step inp') best sts = foldl (better_step inp) best sts"
  using assms by (induction sts arbitrary: best) (auto simp: better_step_def)

lemma planRule_cong:
  assumes "\<forall>st \<in> set (ca_escalation c). bans (st_window st) = ei_BanCounts inp (st_window st)"
  shows "planRule c m (inp\<lparr>ei_Counts := cnt, ei_BanCounts := bans\<rparr>) k = planRule c m inp k"
proof -
  have "escalate c (inp\<lparr>ei_Counts := cnt, ei_BanCounts := bans\<rparr>) pa = escalate c inp pa" for pa
    using better_step_cong [of "ca_escalation c" "inp\<lparr>ei_Counts := cnt, ei_BanCounts := bans\<rparr>" inp None] assms
    by (simp add: escalate_def)
  then show ?thesis
    by (simp add: planRule_def plan_scope_def streakFor_def Let_def cong: option.case_cong if_cong)
qed

lemma plan_rules_cong:
  assumes "\<forall>st \<in> set (ca_escalation c). bans (st_window st) = ei_BanCounts inp (st_window st)"
    and "\<forall>m \<in> set ms. am_hasCount m \<longrightarrow> am_outcomes m AND push_bit (nat (outcomeIndex (ei_Outcome inp))) 1 \<noteq> 0 \<longrightarrow>
           cnt (counter_key m inp) = ei_Counts inp (counter_key m inp)"
  shows "plan_rules c (inp\<lparr>ei_Counts := cnt, ei_BanCounts := bans\<rparr>) k ms = plan_rules c inp k ms"
  using assms(2)
proof (induction ms arbitrary: k)
  case (Cons m ms)
  have "rule_applies m (inp\<lparr>ei_Counts := cnt, ei_BanCounts := bans\<rparr>) = rule_applies m inp"
    using Cons.prems by (intro rule_applies_cong) auto
  with Cons show ?case
    by (simp add: planRule_cong [OF assms(1)] split: option.splits prod.splits)
qed simp

lemma planned_actions_cong:
  assumes c: "CompileAction (map Some specs) = Inr c"
    and cnt: "\<forall>r \<in> set (CounterRequests (Some c) (ei_Outcome inp)). cnt r = ei_Counts inp r"
    and bans: "\<forall>w \<in> set (EscalationWindows (Some c)). bans w = ei_BanCounts inp w"
  shows "planned_actions c (inp\<lparr>ei_Counts := cnt, ei_BanCounts := bans\<rparr>) = planned_actions c inp"
proof -
  note p = CompileAction_parts [OF c]
  have b: "\<forall>st \<in> set (ca_escalation c). bans (st_window st) = ei_BanCounts inp (st_window st)"
    using bans window_requested [of "[]" "ca_escalation c"] p(6) by (auto simp: EscalationWindows_def)
  have "plan_rules c (inp\<lparr>ei_Counts := cnt, ei_BanCounts := bans\<rparr>) 0 (ca_rules c) = plan_rules c inp 0 (ca_rules c)"
    if v: "0 \<le> outcomeIndex (ei_Outcome inp)"
  proof (rule plan_rules_cong [OF b], intro ballI impI)
    fix m
    assume m: "m \<in> set (ca_rules c)" "am_hasCount m"
      "am_outcomes m AND push_bit (nat (outcomeIndex (ei_Outcome inp))) 1 \<noteq> 0"
    have "counter_key m inp \<in> set (ca_counters c ! nat (outcomeIndex (ei_Outcome inp)))"
      using counter_requested [OF m, of "[]"] outcomeIndex_valid [OF v] v
      by (simp add: p(4) counter_key_def nat_less_iff)
    with cnt v show "cnt (counter_key m inp) = ei_Counts inp (counter_key m inp)"
      by (simp add: CounterRequests_def)
  qed
  then show ?thesis by (simp add: planned_actions_def appendHealth_def)
qed

text \<open>
  C23. The plan depends on the counters only through those \<^verbatim>\<open>CounterRequests\<close> names for the
  outcome, and on the ban history only through the windows \<^verbatim>\<open>EscalationWindows\<close> names: a caller
  that reads exactly these gets the same plan as one that knows every counter.
\<close>

theorem Evaluate_counters:
  assumes "CompileAction (map Some specs) = Inr c"
    and "\<forall>r \<in> set (CounterRequests (Some c) (ei_Outcome inp)). cnt r = ei_Counts inp r"
    and "\<forall>w \<in> set (EscalationWindows (Some c)). bans w = ei_BanCounts inp w"
  shows "Evaluate (Some c) (inp\<lparr>ei_Counts := cnt, ei_BanCounts := bans\<rparr>) = Evaluate (Some c) inp"
proof -
  let ?b = "effectiveBlame (ei_Outcome inp) (ei_Blame inp)"
  have *: "inp\<lparr>ei_Counts := cnt, ei_BanCounts := bans, ei_Blame := ?b\<rparr> = inp\<lparr>ei_Blame := ?b, ei_Counts := cnt, ei_BanCounts := bans\<rparr>"
    by simp
  have "planned_actions c (inp\<lparr>ei_Counts := cnt, ei_BanCounts := bans, ei_Blame := ?b\<rparr>) = planned_actions c (inp\<lparr>ei_Blame := ?b\<rparr>)"
    unfolding * using planned_actions_cong [OF assms(1), of "inp\<lparr>ei_Blame := ?b\<rparr>" cnt bans] assms(2,3) by simp
  then show ?thesis by (simp add: Evaluate_def Let_def)
qed

section \<open>Who can be acted on\<close>

lemma escalate_fields [simp]:
  "pa_Action (escalate c inp pa) = pa_Action pa" "pa_Scope (escalate c inp pa) = pa_Scope pa"
  "pa_RuleIndex (escalate c inp pa) = pa_RuleIndex pa"
  by (auto simp: escalate_def split: option.splits)

lemma escalate_source: "pa_Source (escalate c inp pa) \<in> {pa_Source pa, SourceEscalation}"
  by (auto simp: escalate_def split: option.splits)

lemma with_severity_fields [simp]:
  "pa_Action (with_severity pa) = pa_Action pa" "pa_Scope (with_severity pa) = pa_Scope pa"
  "pa_Duration (with_severity pa) = pa_Duration pa" "pa_Permanent (with_severity pa) = pa_Permanent pa"
  "pa_RuleIndex (with_severity pa) = pa_RuleIndex pa" "pa_Source (with_severity pa) = pa_Source pa"
  by (simp_all add: with_severity_def)

lemma planRule_scope:
  assumes "planRule c m inp k = (Some pa, k')"
  shows "plan_scope m inp = Some (pa_Scope pa)" and "pa_Action pa = am_action m"
    and "pa_Source pa \<in> {SourceRule, SourceEscalation}"
proof -
  obtain scope where sc: "plan_scope m inp = Some scope"
    using assms by (auto simp: planRule_def split: option.splits)
  show "plan_scope m inp = Some (pa_Scope pa)" "pa_Action pa = am_action m"
    using assms sc by (auto simp: planRule_def Let_def split: if_splits)
  show "pa_Source pa \<in> {SourceRule, SourceEscalation}"
  proof (cases "am_action m = ActionBan \<and> \<not> am_permanent m \<and> Subject scope \<noteq> SubjectProxy")
    case True
    then obtain pa' where "pa = with_severity (escalate c inp pa')" "pa_Source pa' = SourceRule"
      using assms sc by (auto simp: planRule_def Let_def)
    then show ?thesis using escalate_source [of c inp pa'] by simp
  next
    case False
    then have "pa_Source pa = SourceRule"
      using assms sc unfolding planRule_def Let_def by (auto split: if_splits)
    then show ?thesis by simp
  qed
qed

definition scope_permitted :: "EvalInput \<Rightarrow> actionScope \<Rightarrow> bool" where
  "scope_permitted inp scope \<longleftrightarrow>
     Subject scope = SubjectIdentity \<and> blame_Identity (ei_Blame inp) \<or>
     Subject scope = SubjectAccount \<and> blame_Identity (ei_Blame inp) \<and> ei_HasAccount inp \<or>
     Subject scope = SubjectProxy \<and> blame_Proxy (ei_Blame inp) \<and> ei_HasProxy inp"

lemma Subject_scopes:
  "Subject ScopeIdentity = SubjectIdentity" "Subject ScopeIdentitySite = SubjectIdentity"
  "Subject ScopeIdentityEndpoint = SubjectIdentity"
  by (simp_all add: Subject_def)

lemma plan_scope_permitted:
  assumes "plan_scope m inp = Some scope"
  shows "scope_permitted inp scope"
proof -
  consider (identity) "Subject (am_scope m) = SubjectIdentity" | (account) "Subject (am_scope m) = SubjectAccount"
    | (proxy) "Subject (am_scope m) = SubjectProxy"
    using assms by (auto simp: plan_scope_def Let_def split: if_splits)
  then show ?thesis
  proof cases
    case identity
    then show ?thesis using assms by (auto simp: plan_scope_def scope_permitted_def split: if_splits)
  next
    case account
    then show ?thesis
      using assms Subject_scopes(1,2)
      by (cases "ei_HasAccount inp"; cases "am_action m = ActionCooldown")
         (auto simp: plan_scope_def scope_permitted_def split: if_splits)
  next
    case proxy
    then show ?thesis using assms by (auto simp: plan_scope_def scope_permitted_def split: if_splits)
  qed
qed

lemma plan_rules_source:
  "pa \<in> set (plan_rules c inp k ms) \<Longrightarrow>
   scope_permitted inp (pa_Scope pa) \<and> pa_Source pa \<in> {SourceRule, SourceEscalation}"
proof (induction c inp k ms rule: plan_rules.induct)
  case (2 c inp k m ms)
  show ?case
  proof (cases "rule_applies m inp")
    case False
    with 2 show ?thesis by simp
  next
    case True
    obtain p k' where p: "planRule c m inp k = (p, k')" by force
    show ?thesis
    proof (cases p)
      case None
      with 2 True p show ?thesis by simp
    next
      case (Some pa')
      then have "scope_permitted inp (pa_Scope pa') \<and> pa_Source pa' \<in> {SourceRule, SourceEscalation}"
        using planRule_scope [of c m inp k pa' k'] plan_scope_permitted p by blast
      with 2 True p Some show ?thesis by auto
    qed
  qed
qed simp

lemma winner_index: "winner actions g = Some i \<Longrightarrow> action_index actions g i"
  by (auto simp: winner_def find_Some_iff)

lemma set_MostSevere: "pa \<in> set (MostSevere actions) \<Longrightarrow> \<exists>a \<in> set actions. pa = reported a"
  unfolding MostSevere_eq
  by (auto dest!: sym [of "Some _"] winner_index simp: action_index_def split: option.splits)

lemma group_winner: "winner actions g = Some i \<Longrightarrow> subject_group (reported (actions ! i)) = g"
  by (auto dest!: winner_index simp: action_index_def reported_def subject_group_def)

lemma MostSevere_groups: "sorted_wrt (<) (map subject_group (MostSevere actions))"
  unfolding MostSevere_eq
  by (auto simp: group_winner split: option.splits)

text \<open>
  C8. Blame decides who can be acted on.  An action of a rule hits an identity or account only when
  the effective blame includes the identity (and an account only when there is one), a proxy only
  when it includes the proxy and one was used; a health action needs blame on the identity or a
  failure outcome; an activation needs a pending identity and a success.  Each subject gets at most
  one action, ordered identity, account, proxy.
\<close>

theorem Evaluate_confined:
  assumes "pa \<in> set (Evaluate (Some c) inp)" and "b = effectiveBlame (ei_Outcome inp) (ei_Blame inp)"
  shows "(pa_Source pa \<in> {SourceRule, SourceEscalation} \<and> scope_permitted (inp\<lparr>ei_Blame := b\<rparr>) (pa_Scope pa) \<or>
          pa_Source pa = SourceHealth \<and> Subject (pa_Scope pa) = SubjectIdentity \<and>
            (blame_Identity b \<or> IsFailureOutcome (ei_Outcome inp)) \<or>
          pa_Source pa = SourceLifecycle \<and> pa_Scope pa = ScopeIdentity \<and>
            ei_IdentityState inp = identityStatePending \<and> ei_Outcome inp = OutcomeSuccess) \<and>
         sorted_wrt (<) (map subject_group (Evaluate (Some c) inp))"
proof -
  let ?inp = "inp\<lparr>ei_Blame := b\<rparr>"
  obtain a where a: "a \<in> set (planned_actions c ?inp)" "pa = reported a"
    using assms set_MostSevere by (fastforce simp: Evaluate_def Let_def)
  consider (activate) "a = plan_activate" "ei_IdentityState inp = identityStatePending" "ei_Outcome inp = OutcomeSuccess"
    | (rule) "a \<in> set (plan_rules c ?inp 0 (ca_rules c))"
    | (health) "a \<in> set (appendHealth c ?inp)"
    using a(1) by (auto simp: planned_actions_def split: if_splits)
  then have "pa_Source a \<in> {SourceRule, SourceEscalation} \<and> scope_permitted ?inp (pa_Scope a) \<or>
          pa_Source a = SourceHealth \<and> Subject (pa_Scope a) = SubjectIdentity \<and>
            (blame_Identity b \<or> IsFailureOutcome (ei_Outcome inp)) \<or>
          pa_Source a = SourceLifecycle \<and> pa_Scope a = ScopeIdentity \<and>
            ei_IdentityState inp = identityStatePending \<and> ei_Outcome inp = OutcomeSuccess"
  proof cases
    case activate
    then show ?thesis by (simp add: plan_activate_def)
  next
    case rule
    then show ?thesis using plan_rules_source by blast
  next
    case health
    then have "a \<in> {plan_endpoint_low (ca_health c), plan_quarantine (ca_health c)}"
      and *: "blame_Identity b \<or> IsFailureOutcome (ei_Outcome inp)"
      by (auto simp: appendHealth_def Let_def split: if_splits)
    then have "pa_Source a = SourceHealth \<and> Subject (pa_Scope a) = SubjectIdentity"
      by (auto simp: plan_endpoint_low_def plan_quarantine_def Subject_scopes)
    with * show ?thesis by blast
  qed
  moreover have "sorted_wrt (<) (map subject_group (Evaluate (Some c) inp))"
    by (simp add: Evaluate_def Let_def MostSevere_groups)
  ultimately show ?thesis unfolding a(2) by (simp add: reported_def)
qed

section \<open>The escalation ladder\<close>

definition reached :: "EvalInput \<Rightarrow> escalationStep \<Rightarrow> bool" where
  "reached inp st \<longleftrightarrow> st_gte st \<le> wrap64 (ei_BanCounts inp (st_window st) + 1)"

definition below :: "escalationStep \<Rightarrow> escalationStep \<Rightarrow> bool" where
  "below a b \<longleftrightarrow>
     st_gte a < st_gte b \<and> (st_permanent a \<longrightarrow> st_permanent b) \<and>
     (\<not> st_permanent b \<longrightarrow> st_duration a \<le> st_duration b)"

lemma below_trans: "below a b \<Longrightarrow> below b c \<Longrightarrow> below a c"
  by (auto simp: below_def)

lemma later_steps_sorted:
  "later_steps_validate i prev sts = [] \<Longrightarrow> sorted_wrt below (map compile_step (prev # sts))"
proof (induction sts arbitrary: i prev)
  case (Cons st sts)
  then have s: "sorted_wrt below (map compile_step (st # sts))" by auto
  have "below (compile_step prev) (compile_step st)"
    using Cons.prems
    by (auto simp: step_order_validate_def below_def compile_step_def Let_def Std_def split: if_splits)
  with s below_trans show ?case by (fastforce simp: image_iff)
qed simp

lemma validateEscalation_sorted: "validateEscalation sts = [] \<Longrightarrow> sorted_wrt below (map compile_step sts)"
  using later_steps_sorted by (cases sts) (auto simp: validateEscalation_def)

lemma escalation_source_in: "escalation_source ss = [] \<or> (\<exists>s \<in> set ss. escalation_source ss = as_Escalation s)"
  by (induction ss) auto

lemma ActionSpec_Validate_parts:
  assumes "ActionSpec_Validate (Some s) = None"
  shows "action_rules_validate 0 [] (as_Rules s) = []" and "validateEscalation (as_Escalation s) = []"
    and "HealthSpec_validate (as_Health s) ''health'' = []"
  using assms by (simp_all add: ActionSpec_Validate_def Let_def v_result_def split: if_splits)

lemma compiled_ladder:
  assumes "CompileAction (map Some specs) = Inr c"
  shows "sorted_wrt below (ca_escalation c)"
  using escalation_source_in [of "rev specs"] CompileAction_parts(2,5) [OF assms]
    ActionSpec_Validate_parts(2) validateEscalation_sorted
  by fastforce

lemma best_step_last:
  assumes "sorted_wrt below sts"
  shows "foldl (better_step inp) None sts =
    (let r = filter (reached inp) sts in if r = [] then None else Some (last r))"
  using assms
proof (induction sts rule: rev_induct)
  case (snoc st sts)
  have g: "st_gte b < st_gte st" if "b \<in> set sts" for b
    using snoc.prems that by (auto simp: sorted_wrt_append below_def)
  have b: "better_step inp best st =
      (if \<not> reached inp st then best
       else case best of None \<Rightarrow> Some st
         | Some b \<Rightarrow> if st_gte st > st_gte b \<or> st_gte st = st_gte b \<and> stepLonger st b then Some st else best)" for best
    by (auto simp: better_step_def reached_def)
  have l: "last (filter (reached inp) sts) \<in> set sts" if "filter (reached inp) sts \<noteq> []"
    using that by (metis filter_is_subset last_in_set subsetD)
  have "foldl (better_step inp) None sts =
      (if filter (reached inp) sts = [] then None else Some (last (filter (reached inp) sts)))"
    using snoc by (simp add: sorted_wrt_append Let_def)
  with l g show ?case by (auto simp: b Let_def)
qed simp

lemma last_longest:
  assumes "sorted_wrt below r" and "r \<noteq> []" and "a \<in> set r"
  shows "a = last r \<or> below a (last r)"
  using assms by (induction r) (auto split: if_splits)

text \<open>
  C3. A temporary ban is escalated by the strongest step that is reached: it becomes permanent
  exactly when a reached step is permanent, and otherwise lasts as long as the longest reached step
  or as planned, whichever is longer.  An escalation never shortens a ban.
\<close>

theorem escalate_strongest:
  assumes "CompileAction (map Some specs) = Inr c" and "\<not> pa_Permanent pa"
    and "r = filter (reached inp) (ca_escalation c)"
  shows "pa_Permanent (escalate c inp pa) = list_ex st_permanent r \<and>
         (pa_Permanent (escalate c inp pa) \<or>
          pa_Duration (escalate c inp pa) = Max (set (pa_Duration pa # map st_duration r)))"
proof (cases "r = []")
  case True
  with assms(2,3) best_step_last [OF compiled_ladder [OF assms(1)], of inp] show ?thesis
    by (simp add: escalate_def)
next
  case False
  have e: "foldl (better_step inp) None (ca_escalation c) = Some (last r)"
    using best_step_last [OF compiled_ladder [OF assms(1)], of inp] False assms(3) by (simp add: Let_def)
  have s: "sorted_wrt below r" using compiled_ladder [OF assms(1)] assms(3) by (simp add: sorted_wrt_filter)
  note l = last_longest [OF s False]
  show ?thesis
  proof (cases "st_permanent (last r)")
    case True
    with e False show ?thesis by (auto simp: escalate_def list_ex_iff intro: last_in_set)
  next
    case np: False
    then have "\<not> list_ex st_permanent r" using l by (auto simp: list_ex_iff below_def)
    moreover have "Max (set (pa_Duration pa # map st_duration r)) = max (pa_Duration pa) (st_duration (last r))"
    proof (rule Max_eqI)
      fix y
      assume "y \<in> set (pa_Duration pa # map st_duration r)"
      with l np show "y \<le> max (pa_Duration pa) (st_duration (last r))" by (fastforce simp: below_def)
    next
      show "max (pa_Duration pa) (st_duration (last r)) \<in> set (pa_Duration pa # map st_duration r)"
        using False by (auto simp: max_def)
    qed simp
    ultimately show ?thesis using e np assms(2) by (auto simp: escalate_def max_def)
  qed
qed

section \<open>Well-formed plans\<close>

definition action_typed :: "ActionSpec \<Rightarrow> bool" where
  "action_typed s \<longleftrightarrow> list_all (\<lambda>r. ar_Base r \<le> MaxInt64 \<and> ar_Max r \<le> MaxInt64) (as_Rules s)"

definition input_typed :: "EvalInput \<Rightarrow> bool" where
  "input_typed inp \<longleftrightarrow>
     ei_EndpointStreak inp \<le> MaxInt64 \<and> ei_SiteStreak inp \<le> MaxInt64 \<and> ei_ProxyStreak inp \<le> MaxInt64"

definition planned_ok :: "PlannedAction \<Rightarrow> bool" where
  "planned_ok pa \<longleftrightarrow>
     (if pa_Action pa = ActionActivate then pa_Scope pa = ScopeIdentity \<and> pa_Duration pa = 0 \<and> \<not> pa_Permanent pa
      else ScopeAllowed (pa_Action pa) (pa_Scope pa) \<and>
        (if pa_Action pa = ActionCooldown then Millisecond \<le> pa_Duration pa \<and> \<not> pa_Permanent pa
         else if pa_Action pa = ActionQuarantine then Second \<le> pa_Duration pa \<and> \<not> pa_Permanent pa
         else if pa_Action pa = ActionExpire then pa_Duration pa = 0 \<and> \<not> pa_Permanent pa
         else if pa_Permanent pa then pa_Duration pa = 0 else Second \<le> pa_Duration pa))"

lemma v_duration_Nil:
  "v_duration p d lo hi = [] \<longleftrightarrow> \<not> IsPermanent d \<and> lo \<le> d \<and> (0 < hi \<longrightarrow> d \<le> hi)"
  by (auto simp: v_duration_def Std_def)

definition rule_ok :: "ActionRule \<Rightarrow> bool" where
  "rule_ok r \<longleftrightarrow>
     ScopeAllowed (ar_Action r) (ar_Scope r) \<and>
     (ar_Action r = ActionCooldown \<and> Millisecond \<le> ar_Base r \<or>
      ar_Action r = ActionBan \<and> (IsPermanent (ar_Duration r) \<or> Second \<le> ar_Duration r) \<or>
      ar_Action r = ActionQuarantine \<and> Second \<le> ar_Duration r \<or>
      ar_Action r = ActionExpire)"

lemma ActionRule_validate_ok:
  assumes "ActionRule_validate r path = []"
  shows "rule_ok r"
proof -
  from assms obtain ps where ps: "action_validate r path = Some ps" "ps = []" and sv: "Subject (ar_Scope r) \<noteq> ''''"
    by (auto simp: ActionRule_validate_def Let_def split: option.splits if_splits)
  have "ScopeAllowed (ar_Action r) (ar_Scope r)"
    using assms ps(1) sv by (simp add: ActionRule_validate_def Let_def split: if_splits)
  moreover consider "ar_Action r = ActionCooldown" | "ar_Action r = ActionBan" | "ar_Action r = ActionQuarantine"
    | "ar_Action r = ActionExpire"
    using ps(1) by (auto simp: action_validate_def split: if_splits)
  then have "ar_Action r = ActionCooldown \<and> Millisecond \<le> ar_Base r \<or>
      ar_Action r = ActionBan \<and> (IsPermanent (ar_Duration r) \<or> Second \<le> ar_Duration r) \<or>
      ar_Action r = ActionQuarantine \<and> Second \<le> ar_Duration r \<or> ar_Action r = ActionExpire"
  proof cases
    case 1
    with ps have "validateCooldown r path = []" by (simp add: action_validate_def)
    then have "Millisecond \<le> ar_Base r" by (simp add: validateCooldown_def v_duration_Nil split: if_splits)
    with 1 show ?thesis by simp
  next
    case 2
    with ps show ?thesis by (auto simp: action_validate_def v_duration_Nil split: if_splits)
  next
    case 3
    with ps show ?thesis by (auto simp: action_validate_def v_duration_Nil split: if_splits)
  qed simp
  ultimately show ?thesis by (simp add: rule_ok_def)
qed

lemma action_rules_validate_ok: "action_rules_validate i names rs = [] \<Longrightarrow> r \<in> set rs \<Longrightarrow> rule_ok r"
proof (induction rs arbitrary: i names)
  case (Cons x xs)
  from Cons.prems(1) have "ActionRule_validate x (item ''rules'' i) = []"
    "action_rules_validate (Suc i) (snd (validateRuleName (item ''rules'' i) (ar_Name x) i names)) xs = []"
    by (simp_all add: Let_def case_prod_beta)
  with Cons.prems(2) Cons.IH ActionRule_validate_ok show ?case by auto
qed simp

lemma compiled_rule:
  assumes "CompileAction (map Some specs) = Inr c" and "list_all action_typed specs" and "m \<in> set (ca_rules c)"
  shows "\<exists>k p i r. m = compile_rule k p i r \<and> rule_ok r \<and> ar_Base r \<le> MaxInt64 \<and> ar_Max r \<le> MaxInt64"
proof -
  note p = CompileAction_parts [OF assms(1)]
  obtain k n i r where m: "m = compile_rule k n i r" "(k, n, i, r) \<in> set (enumerate 0 (action_rules specs))"
    using assms(3) p(3) by (auto simp: compiled_from_def)
  then have "k < length (action_rules specs)" "action_rules specs ! k = (n, i, r)" by (simp_all add: in_set_enumerate_eq)
  then have "(n, i, r) \<in> set (action_rules specs)" by (metis nth_mem)
  then obtain s where s: "s \<in> set specs" "r \<in> set (as_Rules s)"
    by (auto simp: action_rules_def in_set_enumerate_eq)
  have "rule_ok r" using action_rules_validate_ok ActionSpec_Validate_parts(1) p(2) s by blast
  moreover have "ar_Base r \<le> MaxInt64 \<and> ar_Max r \<le> MaxInt64"
    using s assms(2) by (auto simp: action_typed_def list_all_iff)
  ultimately show ?thesis using m(1) by blast
qed


lemma ScopeAllowed_degraded:
  "ScopeAllowed ActionCooldown ScopeIdentitySite" "ScopeAllowed ActionBan ScopeIdentity"
  by (simp_all add: ScopeAllowed_def Subject_def)

lemma Subject_account: "Subject s = SubjectAccount \<longleftrightarrow> s = ScopeAccount"
  by (simp add: Subject_def)

lemma account_actions: "ScopeAllowed a ScopeAccount \<Longrightarrow> a = ActionCooldown \<or> a = ActionBan"
  by (simp add: ScopeAllowed_def split: if_splits)

text \<open>The scope a rule is planned at is allowed for its action.\<close>

lemma plan_scope_allowed:
  assumes "rule_ok r" and "plan_scope (compile_rule k p i r) inp = Some scope"
  shows "ScopeAllowed (ar_Action r) scope"
proof -
  let ?m = "compile_rule k p i r"
  have a: "am_action ?m = ar_Action r" by (simp add: compile_rule_def)
  have m: "ScopeAllowed (ar_Action r) (am_scope ?m)"
    using assms(1) ScopeAllowed_degraded(1) by (auto simp: compile_rule_def rule_ok_def)
  show ?thesis
  proof (cases "scope = am_scope ?m")
    case False
    then have acc: "Subject (am_scope ?m) = SubjectAccount"
      and sc: "scope = (if ar_Action r = ActionCooldown then ScopeIdentitySite else ScopeIdentity)"
      using assms(2) a by (auto simp: plan_scope_def Let_def split: if_splits)
    with m have "ScopeAllowed (ar_Action r) ScopeAccount" by (simp add: Subject_account)
    from account_actions [OF this] sc ScopeAllowed_degraded show ?thesis by auto
  qed (use m in simp)
qed

lemma escalate_cases:
  "escalate c inp pa = pa \<or>
   pa_Permanent (escalate c inp pa) \<and> pa_Duration (escalate c inp pa) = 0 \<or>
   pa_Permanent (escalate c inp pa) = pa_Permanent pa \<and> pa_Duration pa \<le> pa_Duration (escalate c inp pa)"
  by (auto simp: escalate_def split: option.splits)

lemma planRule_ok:
  assumes r: "rule_ok r" "ar_Base r \<le> MaxInt64" "ar_Max r \<le> MaxInt64" and t: "input_typed inp"
    and pa: "planRule c (compile_rule k p i r) inp n = (Some pa, n')"
  shows "planned_ok pa"
proof -
  let ?m = "compile_rule k p i r"
  note sc = planRule_scope [OF pa]
  obtain scope where scope: "plan_scope ?m inp = Some scope" using sc(1) by blast
  have al: "ScopeAllowed (ar_Action r) (pa_Scope pa)" by (rule plan_scope_allowed [OF r(1) sc(1)])
  have act: "pa_Action pa = ar_Action r" using sc(2) by (simp add: compile_rule_def)
  consider (cooldown) "ar_Action r = ActionCooldown" "Millisecond \<le> ar_Base r"
    | (ban) "ar_Action r = ActionBan" "IsPermanent (ar_Duration r) \<or> Second \<le> ar_Duration r"
    | (quarantine) "ar_Action r = ActionQuarantine" "Second \<le> ar_Duration r"
    | (expire) "ar_Action r = ActionExpire"
    using r(1) by (auto simp: rule_ok_def)
  then show ?thesis
  proof cases
    case cooldown
    have "streakFor scope inp \<le> MaxInt64" using t by (simp add: streakFor_def input_typed_def)
    moreover have "0 < ar_Base r" using cooldown(2) by simp
    ultimately have "Millisecond \<le> CooldownDuration (ar_Base r) (ar_Max r) x e (streakFor scope inp) j" for x e j
      using cooldown_range r(2,3) by blast
    then have "Millisecond \<le> pa_Duration pa \<and> \<not> pa_Permanent pa"
      using pa scope cooldown(1) by (auto simp: planRule_def Let_def compile_rule_def Std_def)
    with al act cooldown(1) show ?thesis by (simp add: planned_ok_def)
  next
    case ban
    have "if pa_Permanent pa then pa_Duration pa = 0 else Second \<le> pa_Duration pa"
    proof (cases "IsPermanent (ar_Duration r)")
      case True
      with pa scope ban(1) show ?thesis by (auto simp: planRule_def Let_def compile_rule_def)
    next
      case False
      define pa' where "pa' = \<lparr>pa_Action = ActionBan, pa_Scope = scope, pa_Duration = ar_Duration r,
        pa_Permanent = False, pa_Severity = 0, pa_RuleIndex = int k, pa_RuleName = ruleLabel p i (ar_Name r),
        pa_Source = SourceRule\<rparr>"
      have "pa = with_severity (if Subject scope \<noteq> SubjectProxy then escalate c inp pa' else pa')"
        using pa scope ban(1) False by (auto simp: planRule_def Let_def compile_rule_def Std_def pa'_def split: if_splits)
      moreover have "Second \<le> pa_Duration pa'" "\<not> pa_Permanent pa'" using ban(2) False by (simp_all add: pa'_def)
      ultimately show ?thesis using escalate_cases [of c inp pa'] by auto
    qed
    with al act ban(1) show ?thesis by (simp add: planned_ok_def)
  next
    case quarantine
    then have "\<not> IsPermanent (ar_Duration r)" by (auto simp: IsPermanent_def)
    with quarantine have "Second \<le> pa_Duration pa \<and> \<not> pa_Permanent pa"
      using pa scope by (auto simp: planRule_def Let_def compile_rule_def Std_def)
    with al act quarantine(1) show ?thesis by (simp add: planned_ok_def)
  next
    case expire
    then have "pa_Duration pa = 0 \<and> \<not> pa_Permanent pa"
      using pa scope by (auto simp: planRule_def Let_def compile_rule_def)
    with al act expire show ?thesis by (simp add: planned_ok_def)
  qed
qed

lemma plan_rules_ok:
  assumes "\<forall>m \<in> set ms. \<exists>k p i r. m = compile_rule k p i r \<and> rule_ok r \<and> ar_Base r \<le> MaxInt64 \<and> ar_Max r \<le> MaxInt64"
    and "input_typed inp" and "pa \<in> set (plan_rules c inp n ms)"
  shows "planned_ok pa"
  using assms(1,3)
proof (induction ms arbitrary: n)
  case (Cons m ms)
  obtain q n' where q: "planRule c m inp n = (q, n')" by force
  show ?case
  proof (cases "rule_applies m inp \<and> q = Some pa")
    case True
    then show ?thesis using planRule_ok [OF _ _ _ assms(2)] Cons.prems(1) q by fastforce
  next
    case False
    then have "\<exists>n. pa \<in> set (plan_rules c inp n ms)"
      using Cons.prems(2) q by (auto split: if_splits option.splits)
    with Cons show ?thesis by auto
  qed
qed simp

lemma planned_ok_reported: "planned_ok (reported a) = planned_ok a"
  by (simp add: planned_ok_def reported_def)

lemma Severity_reported [simp]: "Severity (reported a) = Severity a"
  by (simp add: Severity_def reported_def)

text \<open>
  C9. Every action a compiled chain plans is well formed: its scope is allowed for the action (after
  the normalisation of identity cooldowns and the degradation of account rules), a cooldown lasts at
  least a millisecond, a quarantine and a temporary ban at least a second, a permanent ban, an expiry
  and an activation have no duration, and the severity is that of the action.
\<close>

theorem Evaluate_well_formed:
  assumes "CompileAction (map Some specs) = Inr c" and "list_all action_typed specs" and "input_typed inp"
    and "pa \<in> set (Evaluate (Some c) inp)"
  shows "planned_ok pa \<and> pa_Severity pa = Severity pa"
proof -
  let ?inp = "inp\<lparr>ei_Blame := effectiveBlame (ei_Outcome inp) (ei_Blame inp)\<rparr>"
  obtain a where a: "a \<in> set (planned_actions c ?inp)" "pa = reported a"
    using assms(4) set_MostSevere by (fastforce simp: Evaluate_def Let_def)
  have t: "input_typed ?inp" using assms(3) by (simp add: input_typed_def)
  have "last specs \<in> set specs" using CompileAction_parts(1) [OF assms(1)] by simp
  from ActionSpec_Validate_parts(3) [OF CompileAction_parts(2) [OF assms(1) this]]
  have h: "Second \<le> ht_endpointLowCooldown (ca_health c)" "Second \<le> ht_quarantineDuration (ca_health c)"
    using CompileAction_parts(7,8) [OF assms(1)] by (simp_all add: HealthSpec_validate_def v_duration_Nil)
  have "a = plan_activate \<or> a \<in> set (plan_rules c ?inp 0 (ca_rules c)) \<or>
        a \<in> {plan_endpoint_low (ca_health c), plan_quarantine (ca_health c)}"
    using a(1) by (auto simp: planned_actions_def appendHealth_def Let_def split: if_splits)
  moreover have "planned_ok plan_activate" by (simp add: planned_ok_def plan_activate_def)
  moreover have "planned_ok (plan_endpoint_low (ca_health c))"
    using h by (simp add: planned_ok_def plan_endpoint_low_def ScopeAllowed_def Subject_def)
  moreover have "planned_ok (plan_quarantine (ca_health c))"
    using h by (simp add: planned_ok_def plan_quarantine_def ScopeAllowed_def)
  ultimately have "planned_ok a"
    using plan_rules_ok [OF _ t] compiled_rule [OF assms(1,2)] by blast
  then show ?thesis unfolding a(2) by (simp add: planned_ok_reported) (simp add: reported_def)
qed

section \<open>The built-in action policy\<close>

definition builtin_action :: ActionSpec where
  "builtin_action = (case Default KindAction of Action_spec (Some s) \<Rightarrow> s)"

lemma builtin_action_spec: "Default KindAction = Action_spec (Some builtin_action)"
  by (simp add: builtin_action_def Default_def)

lemma builtin_action_valid: "ActionSpec_Validate (Some builtin_action) = None"
  using default_action [of "\<lambda>s. Inl s"] by (simp add: builtin_action_spec)

lemma builtin_compiles: "\<exists>c. CompileAction (map Some [builtin_action]) = Inr c"
  by (simp add: CompileAction_def builtin_action_valid Let_def)

lemma builtin_rules:
  "as_Rules builtin_action = map rule_defaults defaultActionRules"
  "as_Escalation builtin_action =
     [\<lparr>es_Bans = \<lparr>cc_Gte = 2, cc_Within = days 7\<rparr>, es_Duration = 72 * Hour\<rparr>,
      \<lparr>es_Bans = \<lparr>cc_Gte = 3, cc_Within = days 30\<rparr>, es_Duration = Permanent\<rparr>]"
  by (simp_all add: builtin_action_def Default_def ActionSpec_ApplyDefaults_def newActionBase_def)

lemma builtin_typed: "action_typed builtin_action"
  unfolding action_typed_def builtin_rules by code_simp

definition first_success :: EvalInput where
  "first_success = \<lparr>ei_Outcome = OutcomeSuccess, ei_Blame = '''', ei_IdentityState = identityStatePending,
     ei_HasAccount = False, ei_HasProxy = False, ei_Counts = (\<lambda>_. 0), ei_BanCounts = (\<lambda>_. 2),
     ei_EndpointStreak = 0, ei_SiteStreak = 0, ei_ProxyStreak = 0, ei_EndpointScore = Fin 70, ei_EndpointSamples = 1,
     ei_GlobalScore = Fin 70, ei_GlobalSamples = 1, ei_EndpointCooldownRemaining = 0, ei_Jitter = None\<rparr>"

lemma no_rule_on_success: "list_all (\<lambda>r. OutcomeSuccess \<notin> set (ar_Outcome r)) (as_Rules builtin_action)"
  unfolding builtin_rules by code_simp

lemma action_rules_in: "(n, i, r) \<in> set (action_rules [s]) \<Longrightarrow> r \<in> set (as_Rules s)"
  by (auto simp: action_rules_def in_set_enumerate_eq)

lemma plan_rules_none: "\<forall>m \<in> set ms. \<not> rule_applies m inp \<Longrightarrow> plan_rules c inp k ms = []"
  by (induction ms) auto

lemma success_plan:
  assumes "CompileAction (map Some [builtin_action]) = Inr c"
  shows "Evaluate (Some c) first_success = [reported plan_activate]"
proof -
  let ?inp = "first_success\<lparr>ei_Blame := BlameNone\<rparr>"
  have v: "ValidOutcome OutcomeSuccess" by code_simp
  have "\<not> rule_applies m ?inp" if mem: "m \<in> set (ca_rules c)" for m
  proof -
    obtain k n i r where m: "m = compile_rule k n i r" "(k, n, i, r) \<in> set (enumerate 0 (action_rules [builtin_action]))"
      using mem CompileAction_parts(3) [OF assms] by (auto simp: compiled_from_def)
    then have "k < length (action_rules [builtin_action])" "action_rules [builtin_action] ! k = (n, i, r)"
      by (simp_all add: in_set_enumerate_eq)
    then have "r \<in> set (as_Rules builtin_action)" using action_rules_in nth_mem by metis
    with no_rule_on_success have "OutcomeSuccess \<notin> set (ar_Outcome r)" by (simp add: list_all_iff)
    with m(1) am_outcomes_iff [OF v, of k n i r] show ?thesis
      by (simp add: rule_applies_def first_success_def)
  qed
  then have "plan_rules c ?inp 0 (ca_rules c) = []" by (intro plan_rules_none) blast
  then have "planned_actions c ?inp = [plan_activate]"
    by (simp add: planned_actions_def appendHealth_def first_success_def blame_Identity_def IsFailureOutcome_def)
  moreover have "effectiveBlame (ei_Outcome first_success) (ei_Blame first_success) = BlameNone"
    by (simp add: effectiveBlame_def DefaultBlame_def first_success_def)
  moreover have "MostSevere [a] = [reported a]" for a
    using subject_group_less [of a]
    by (auto simp: MostSevere_def best_step_def reported_def less_Suc_eq numeral_eq_Suc)
  ultimately show ?thesis by (simp add: Evaluate_def Let_def)
qed

theorem Evaluate_counters_witness:
  "\<exists>c. CompileAction (map Some [builtin_action]) = Inr c \<and>
       Evaluate (Some c) (first_success\<lparr>ei_Counts := (\<lambda>r. if r \<in> set (CounterRequests (Some c) OutcomeSuccess) then 0 else 7),
         ei_BanCounts := (\<lambda>w. if w \<in> set (EscalationWindows (Some c)) then 2 else 9)\<rparr>) = [reported plan_activate]"
proof -
  obtain c where c: "CompileAction (map Some [builtin_action]) = Inr c" using builtin_compiles by blast
  have "Evaluate (Some c) (first_success\<lparr>ei_Counts := (\<lambda>r. if r \<in> set (CounterRequests (Some c) OutcomeSuccess) then 0 else 7),
      ei_BanCounts := (\<lambda>w. if w \<in> set (EscalationWindows (Some c)) then 2 else 9)\<rparr>) = Evaluate (Some c) first_success"
    by (rule Evaluate_counters [OF c]) (simp_all add: first_success_def)
  with c success_plan [OF c] show ?thesis by auto
qed

theorem Evaluate_confined_witness:
  "\<exists>c. CompileAction (map Some [builtin_action]) = Inr c \<and> reported plan_activate \<in> set (Evaluate (Some c) first_success) \<and>
       pa_Source (reported plan_activate) = SourceLifecycle \<and> ei_IdentityState first_success = identityStatePending"
proof -
  obtain c where c: "CompileAction (map Some [builtin_action]) = Inr c" using builtin_compiles by blast
  have "reported plan_activate \<in> set (Evaluate (Some c) first_success)" by (simp add: success_plan [OF c])
  with Evaluate_confined [OF this refl] c show ?thesis
    by (auto simp: reported_def plan_activate_def first_success_def)
qed

theorem escalate_strongest_witness:
  "\<exists>c. CompileAction (map Some [builtin_action]) = Inr c \<and>
       pa_Permanent (escalate c first_success (plan_quarantine (ca_health c)))"
proof -
  obtain c where c: "CompileAction (map Some [builtin_action]) = Inr c" using builtin_compiles by blast
  have r: "list_ex st_permanent (filter (reached first_success) (ca_escalation c))"
    unfolding CompileAction_parts(5) [OF c]
    by (simp add: builtin_rules compile_step_def IsPermanent_def reached_def first_success_def wrap64_def)
  have "\<not> pa_Permanent (plan_quarantine (ca_health c))" by (simp add: plan_quarantine_def)
  from escalate_strongest [OF c this refl, of first_success] r c show ?thesis by blast
qed

theorem Evaluate_well_formed_witness:
  "\<exists>c. CompileAction (map Some [builtin_action]) = Inr c \<and> Evaluate (Some c) first_success = [reported plan_activate] \<and>
       planned_ok (reported plan_activate)"
proof -
  obtain c where c: "CompileAction (map Some [builtin_action]) = Inr c" using builtin_compiles by blast
  have "input_typed first_success" by (simp add: input_typed_def first_success_def MaxInt64_def)
  with Evaluate_well_formed [OF c, of first_success "reported plan_activate"] success_plan [OF c] c builtin_typed
  show ?thesis by auto
qed

end
