(* ===== verification/Site_Path.thy ===== *)
theory Site_Path
  imports Apperr Strconv
begin

text \<open>
  \<^verbatim>\<open>internal/site/path.go\<close>: the normalisation of a request URI to a path and the validation of
  URI rule patterns.  The parser and the compiler of regular expressions are arguments; the size
  estimate runs over the parse tree, in 64-bit arithmetic.
\<close>

section \<open>Scanning\<close>

abbreviation (input) MaxPathLength :: nat where "MaxPathLength \<equiv> 2048"
abbreviation (input) MaxRegexLength :: nat where "MaxRegexLength \<equiv> 1024"
abbreviation (input) maxAuthorityLength :: nat where "maxAuthorityLength \<equiv> 1024"
abbreviation (input) maxRegexProgramSize :: int where "maxRegexProgramSize \<equiv> 2048"

definition uriInvalid :: "string \<Rightarrow> gerror" where
  "uriInvalid m = InvalidArgument ReasonURIInvalid (Msg ''%s'' [m])"

definition patternInvalid :: "message \<Rightarrow> gerror" where
  "patternInvalid m = InvalidArgument ReasonInvalidArgument m"

definition isBadASCII :: "char \<Rightarrow> bool" where
  "isBadASCII c \<longleftrightarrow> byte c \<le> 32 \<or> byte c = 127"

text \<open>\<^verbatim>\<open>checkRunes\<close> over the runes of the string: the predicate of an error message, empty when there is none.\<close>

fun check_runes :: "(nat \<times> nat) list \<Rightarrow> string" where
  "check_runes [] = ''''"
| "check_runes ((r, w) # rs) =
     (if r = RuneError \<and> w \<le> 1 then ''is not valid UTF-8''
      else if is_control r \<or> is_space r then ''contains a control or whitespace character''
      else check_runes rs)"

definition checkRunes :: "string \<Rightarrow> string" where
  "checkRunes s = check_runes (decode_all s)"

fun cut_scheme :: "string list \<Rightarrow> string \<Rightarrow> string option" where
  "cut_scheme [] s = None"
| "cut_scheme (scheme # schemes) s =
     (if length s \<ge> length scheme \<and> EqualFold (take (length scheme) s) scheme
      then Some (drop (length scheme) s) else cut_scheme schemes s)"

definition cutHTTPScheme :: "string \<Rightarrow> string option" where
  "cutHTTPScheme s = cut_scheme [''https://'', ''http://''] s"

text \<open>
  The scanning loops of \<^verbatim>\<open>scanAuthority\<close> and \<^verbatim>\<open>scanPath\<close>: the bytes before a stop byte and
  whether one of them is not ASCII, or the error at the first bad byte.
\<close>

fun scan_loop :: "char set \<Rightarrow> nat \<Rightarrow> string \<Rightarrow> nat \<Rightarrow> bool \<Rightarrow> string \<Rightarrow> gerror + nat \<times> bool" where
  "scan_loop stops limit toolong i nonASCII [] = Inr (i, nonASCII)"
| "scan_loop stops limit toolong i nonASCII (c # cs) =
     (if c \<in> stops then Inr (i, nonASCII)
      else if i = limit then Inl (uriInvalid toolong)
      else if byte c \<ge> 128 then scan_loop stops limit toolong (Suc i) True cs
      else if isBadASCII c then Inl (uriInvalid ''uri contains a control or whitespace character'')
      else scan_loop stops limit toolong (Suc i) nonASCII cs)"

definition scanAuthority :: "string \<Rightarrow> gerror + nat" where
  "scanAuthority s =
     (case scan_loop {CHR ''/'', CHR ''?'', CHR ''#''} maxAuthorityLength ''uri host is too long'' 0 False s of
        Inl e \<Rightarrow> Inl e
      | Inr (n, nonASCII) \<Rightarrow>
          if n = 0 then Inl (uriInvalid ''uri host is empty'')
          else if nonASCII \<and> checkRunes (take n s) \<noteq> '''' then Inl (uriInvalid (''uri '' @ checkRunes (take n s)))
          else Inr n)"

definition scanPath :: "string \<Rightarrow> gerror + nat" where
  "scanPath s =
     (case scan_loop {CHR ''?'', CHR ''#''} MaxPathLength ''uri path exceeds 2048 bytes'' 0 False s of
        Inl e \<Rightarrow> Inl e
      | Inr (n, nonASCII) \<Rightarrow>
          if nonASCII \<and> checkRunes (take n s) \<noteq> '''' then Inl (uriInvalid (''uri '' @ checkRunes (take n s)))
          else Inr n)"

definition path_prefix :: "string \<Rightarrow> gerror + string" where
  "path_prefix rest = (case scanPath rest of Inl e \<Rightarrow> Inl e | Inr n \<Rightarrow> Inr (take n rest))"

definition NormalizePath :: "string \<Rightarrow> gerror + string" where
  "NormalizePath uri =
     (if uri = '''' then Inl (uriInvalid ''uri is empty'')
      else if hd uri \<noteq> CHR ''/'' then
        (case cutHTTPScheme uri of
           None \<Rightarrow> Inl (uriInvalid ''uri must be a path starting with \"/\" or an absolute http(s) URL'')
         | Some afterScheme \<Rightarrow>
             (case scanAuthority afterScheme of
                Inl e \<Rightarrow> Inl e
              | Inr n \<Rightarrow>
                  (let rest = drop n afterScheme in
                   if rest = '''' \<or> hd rest \<noteq> CHR ''/'' then Inr ''/'' else path_prefix rest)))
      else path_prefix uri)"

section \<open>Patterns\<close>

definition validatePathPattern :: "string \<Rightarrow> gerror option" where
  "validatePathPattern pattern =
     (if pattern = '''' then Some (patternInvalid (msg ''pattern is empty''))
      else if hd pattern \<noteq> CHR ''/'' then Some (patternInvalid (msg ''pattern must start with \"/\"''))
      else if length pattern > MaxPathLength then Some (patternInvalid (Msg ''pattern exceeds %d bytes'' [''2048'']))
      else if CHR ''?'' \<in> set pattern \<or> CHR ''#'' \<in> set pattern then
        Some (patternInvalid (msg ''pattern must not contain \"?\" or \"#\": query and fragment are never matched''))
      else if checkRunes pattern \<noteq> '''' then Some (patternInvalid (Msg ''pattern %s'' [checkRunes pattern]))
      else None)"

datatype templateSegment = Literal string | Param

definition param_char :: "bool \<Rightarrow> char \<Rightarrow> bool" where
  "param_char first c \<longleftrightarrow>
     c = CHR ''_'' \<or> 97 \<le> byte c \<and> byte c \<le> 122 \<or> 65 \<le> byte c \<and> byte c \<le> 90 \<or>
     48 \<le> byte c \<and> byte c \<le> 57 \<and> \<not> first"

definition validParamName :: "string \<Rightarrow> bool" where
  "validParamName name = (if name = '''' then False else param_char True (hd name) \<and> list_all (param_char False) (tl name))"

definition param_segment :: "string \<Rightarrow> bool" where
  "param_segment part \<longleftrightarrow>
     \<not> (length part < 2 \<or> hd part \<noteq> CHR ''{'' \<or> last part \<noteq> CHR ''}'' \<or>
        count_list part (CHR ''{'') \<noteq> 1 \<or> count_list part (CHR ''}'') \<noteq> 1)"

fun template_parts :: "nat \<Rightarrow> string set \<Rightarrow> string list \<Rightarrow> gerror + templateSegment list" where
  "template_parts i names [] = Inr []"
| "template_parts i names (part # parts) =
     (if CHR ''{'' \<notin> set part \<and> CHR ''}'' \<notin> set part then
        (case template_parts (Suc i) names parts of Inl e \<Rightarrow> Inl e | Inr segs \<Rightarrow> Inr (Literal part # segs))
      else if \<not> param_segment part then
        Inl (patternInvalid (Msg ''template segment %d: a parameter must occupy a whole segment, like {name}'' [Itoa (int i + 1)]))
      else let name = butlast (tl part) in
        if \<not> validParamName name then
          Inl (patternInvalid (Msg ''template segment %d: parameter name must match ^[a-zA-Z_][a-zA-Z0-9_]*$'' [Itoa (int i + 1)]))
        else if name \<in> names then
          Inl (patternInvalid (Msg ''template segment %d: duplicate parameter name %q'' [Itoa (int i + 1), name]))
        else
          (case template_parts (Suc i) (insert name names) parts of Inl e \<Rightarrow> Inl e | Inr segs \<Rightarrow> Inr (Param # segs)))"

definition parseTemplate :: "string \<Rightarrow> gerror + templateSegment list" where
  "parseTemplate pattern =
     (case validatePathPattern pattern of
        Some e \<Rightarrow> Inl e
      | None \<Rightarrow> template_parts 0 {} (split_byte (CHR ''/'') (tl pattern)))"

section \<open>Regular expressions\<close>

text \<open>
  The nodes of \<^verbatim>\<open>syntax.Regexp\<close> that the size estimate distinguishes; \<open>R_other\<close> is any operator
  without a case of its own (character classes, anchors).
\<close>

datatype retree =
    R_literal nat
  | R_capture retree
  | R_star retree
  | R_plus retree
  | R_quest retree
  | R_concat "retree list"
  | R_alternate "retree list"
  | R_repeat int int retree
  | R_other

text \<open>
  What the sources use of \<^verbatim>\<open>regexp\<close> and \<^verbatim>\<open>regexp/syntax\<close>: the parser and the compiler, each
  returning the text of its error, and the \<^verbatim>\<open>MatchString\<close> of a compiled expression; and how the
  RPC library prints a code.
\<close>

record libs =
  re_parse :: "string \<Rightarrow> string + retree"
  re_compile :: "string \<Rightarrow> string + (string \<Rightarrow> bool)"
  code_string :: "code \<Rightarrow> string"

fun regexProgramSize :: "retree \<Rightarrow> int" where
  "regexProgramSize (R_literal n) = max 1 (int n)"
| "regexProgramSize (R_capture t) = max 1 (wrap64 (2 + regexProgramSize t))"
| "regexProgramSize (R_star t) = max 1 (wrap64 (2 + regexProgramSize t))"
| "regexProgramSize (R_plus t) = max 1 (wrap64 (1 + regexProgramSize t))"
| "regexProgramSize (R_quest t) = max 1 (wrap64 (1 + regexProgramSize t))"
| "regexProgramSize (R_concat ts) = max 1 (foldl (\<lambda>n sub. wrap64 (n + regexProgramSize sub)) 0 ts)"
| "regexProgramSize (R_alternate ts) =
     (let n = foldl (\<lambda>n sub. wrap64 (n + regexProgramSize sub)) 0 ts in
      max 1 (if length ts > 1 then wrap64 (n + (int (length ts) - 1)) else n))"
| "regexProgramSize (R_repeat lo hi t) =
     (let sub = regexProgramSize t in
      max 1 (if hi = -1 \<and> lo = 0 then wrap64 (2 + sub)
             else if hi = -1 then wrap64 (1 + wrap64 (lo * sub))
             else wrap64 (wrap64 (hi * sub) + wrap64 (hi - lo))))"
| "regexProgramSize R_other = max 1 0"

definition invalid_regex :: "string \<Rightarrow> gerror" where
  "invalid_regex err = WithCause (patternInvalid (Msg ''invalid regex: %v'' [err])) (Some (OtherError (msg err)))"

definition compileRegex :: "libs \<Rightarrow> string \<Rightarrow> gerror + (string \<Rightarrow> bool)" where
  "compileRegex lib pattern =
     (if pattern = '''' then Inl (patternInvalid (msg ''pattern is empty''))
      else if length pattern > MaxRegexLength then
        Inl (patternInvalid (Msg ''regex pattern exceeds %d bytes'' [''1024'']))
      else case re_parse lib pattern of
        Inl err \<Rightarrow> Inl (invalid_regex err)
      | Inr parsed \<Rightarrow>
          if regexProgramSize parsed > maxRegexProgramSize then
            Inl (patternInvalid (Msg ''regex is too complex: its compiled program exceeds %d instructions (reduce counted repetitions such as {n,m})'' [''2048'']))
          else case re_compile lib pattern of Inl err \<Rightarrow> Inl (invalid_regex err) | Inr re \<Rightarrow> Inr re)"

abbreviation RuleExact :: string where "RuleExact \<equiv> ''exact''"
abbreviation RuleTemplate :: string where "RuleTemplate \<equiv> ''template''"
abbreviation RulePrefix :: string where "RulePrefix \<equiv> ''prefix''"
abbreviation RuleRegex :: string where "RuleRegex \<equiv> ''regex''"

definition ValidatePattern :: "libs \<Rightarrow> string \<Rightarrow> string \<Rightarrow> gerror option" where
  "ValidatePattern lib kind pattern =
     (if kind = RuleExact \<or> kind = RulePrefix then validatePathPattern pattern
      else if kind = RuleTemplate then (case parseTemplate pattern of Inl e \<Rightarrow> Some e | Inr _ \<Rightarrow> None)
      else if kind = RuleRegex then (case compileRegex lib pattern of Inl e \<Rightarrow> Some e | Inr _ \<Rightarrow> None)
      else Some (patternInvalid (Msg ''unknown uri rule kind %q (want exact, template, prefix or regex)'' [kind])))"

end
