(* ===== verification/Site_Path_Laws.thy ===== *)
theory Site_Path_Laws
  imports Site_Path
begin

text \<open>
  What \<^verbatim>\<open>internal/site/path.go\<close> computes: which URIs are accepted and with which path, that the
  valid patterns are the paths normalisation leaves alone, and that the size estimate of a regular
  expression is the size of the program with its counted repetitions written out.
\<close>

section \<open>Clean paths\<close>

definition clean_runes :: "string \<Rightarrow> bool" where
  "clean_runes s \<longleftrightarrow> valid_string s \<and> list_all (\<lambda>(r, w). \<not> is_control r \<and> \<not> is_space r) (decode_all s)"

lemma checkRunes_iff: "checkRunes s = [] \<longleftrightarrow> clean_runes s"
proof -
  have "check_runes rs = [] \<longleftrightarrow>
      list_all (\<lambda>rw. \<not> bad_rune rw) rs \<and> list_all (\<lambda>(r, w). \<not> is_control r \<and> \<not> is_space r) rs" for rs
    by (induction rs rule: check_runes.induct) (auto simp: bad_rune_def)
  then show ?thesis by (simp add: checkRunes_def clean_runes_def valid_string_def)
qed

lemma clean_runes_step:
  "s \<noteq> [] \<Longrightarrow> clean_runes s \<longleftrightarrow> \<not> bad_rune (decode_rune s) \<and>
     \<not> is_control (fst (decode_rune s)) \<and> \<not> is_space (fst (decode_rune s)) \<and> clean_runes (drop (rune_width s) s)"
  by (auto simp: clean_runes_def valid_string_step decode_all_nonempty split: prod.splits)

lemma clean_runes_Nil [simp]: "clean_runes []"
  by (simp add: clean_runes_def)

lemma isBadASCII_iff: "byte c < 128 \<Longrightarrow> isBadASCII c \<longleftrightarrow> is_control (byte c) \<or> is_space (byte c)"
  by (auto simp: isBadASCII_def is_control_def is_space_def)

lemma decode_rune_ascii: "byte c < 128 \<Longrightarrow> decode_rune (c # s) = (byte c, 1)"
  by (simp add: decode_rune_def)

lemma clean_runes_ascii:
  "byte c < 128 \<Longrightarrow> clean_runes (c # s) \<longleftrightarrow> \<not> isBadASCII c \<and> clean_runes s"
  by (auto simp: clean_runes_step decode_rune_ascii rune_width_ascii isBadASCII_iff bad_rune_def RuneError_def)

lemma clean_runes_good: "clean_runes s \<Longrightarrow> c \<in> set s \<Longrightarrow> byte c < 128 \<Longrightarrow> \<not> isBadASCII c"
proof (induction s rule: decode_all.induct)
  case (1 s)
  show ?case
  proof (cases "\<exists>a t. s = a # t \<and> byte a < 128")
    case True
    with 1 show ?thesis by (auto simp: clean_runes_ascii rune_width_ascii)
  next
    case False
    with 1(3) have s: "s \<noteq> []" by auto
    with 1(2) have ok: "\<not> bad_rune (decode_rune s)" "clean_runes (drop (rune_width s) s)"
      by (simp_all add: clean_runes_step)
    show ?thesis
    proof (cases "rune_width s = 1")
      case True
      with s ok False 1 show ?thesis by (cases s) (auto simp: rune_width_def)
    next
      case w: False
      with rune_width_pos [OF s] have w: "1 < rune_width s" by simp
      have "c \<in> set (take (rune_width s) s) \<or> c \<in> set (drop (rune_width s) s)"
        using 1(3) by (metis UnE append_take_drop_id set_append)
      moreover have "c \<notin> set (take (rune_width s) s)"
        using rune_bytes_high [OF w] 1(4) rune_width_le [of s] by (fastforce simp: in_set_conv_nth)
      ultimately show ?thesis using 1(1) [OF s] ok 1(4) by blast
    qed
  qed
qed

lemma clean_runes_all_ascii:
  "\<forall>c \<in> set s. byte c < 128 \<and> \<not> isBadASCII c \<Longrightarrow> clean_runes s"
  by (induction s) (auto simp: clean_runes_ascii)

section \<open>The scanning loops\<close>

lemma scan_loop_iff:
  "i \<le> lim \<Longrightarrow> scan_loop stops lim m i na s = Inr (n, na') \<longleftrightarrow>
     (let u = takeWhile (\<lambda>c. c \<notin> stops) s in
      i + length u \<le> lim \<and> (\<forall>c \<in> set u. byte c < 128 \<longrightarrow> \<not> isBadASCII c) \<and>
      n = i + length u \<and> na' = (na \<or> (\<exists>c \<in> set u. 128 \<le> byte c)))"
proof (induction s arbitrary: i na)
  case (Cons c s)
  show ?case
  proof (cases "c \<in> stops \<or> i = lim")
    case False
    with Cons.IH [of "Suc i"] Cons.prems show ?thesis by (auto simp: Let_def not_less)
  qed (use Cons.prems in \<open>auto simp: Let_def\<close>)
qed (auto simp: Let_def)

lemma scan_clean:
  "(\<forall>c \<in> set u. byte c < 128 \<longrightarrow> \<not> isBadASCII c) \<and> ((\<exists>c \<in> set u. 128 \<le> byte c) \<longrightarrow> checkRunes u = []) \<longleftrightarrow>
   clean_runes u"
  using clean_runes_good clean_runes_all_ascii by (metis checkRunes_iff not_less)

definition before_query :: "string \<Rightarrow> string" where
  "before_query s = takeWhile (\<lambda>c. c \<noteq> CHR ''?'' \<and> c \<noteq> CHR ''#'') s"

definition clean_authority :: "string \<Rightarrow> bool" where
  "clean_authority a \<longleftrightarrow> a \<noteq> [] \<and> length a \<le> 1024 \<and> clean_runes a \<and> set a \<inter> {CHR ''/'', CHR ''?'', CHR ''#''} = {}"

definition clean_path :: "string \<Rightarrow> bool" where
  "clean_path p \<longleftrightarrow> p \<noteq> [] \<and> hd p = CHR ''/'' \<and> length p \<le> 2048 \<and> clean_runes p \<and>
     set p \<inter> {CHR ''?'', CHR ''#''} = {}"

definition url_path :: "string \<Rightarrow> string" where
  "url_path rest = (case rest of [] \<Rightarrow> ''/'' | c # _ \<Rightarrow> if c = CHR ''/'' then before_query rest else ''/'')"

lemma scan_result:
  assumes "u = takeWhile (\<lambda>c. c \<notin> stops) s"
  shows "(\<exists>na. scan_loop stops lim m 0 False s = Inr (n, na) \<and> (na \<longrightarrow> checkRunes (take n s) = [])) \<longleftrightarrow>
     n = length u \<and> length u \<le> lim \<and> clean_runes u"
proof -
  have "take (length u) s = u" using assms by (simp add: takeWhile_eq_take [symmetric])
  then show ?thesis
    using scan_loop_iff [of 0 lim stops m False s n] scan_clean [of u] assms by (auto simp: Let_def)
qed

lemma scanPath_iff:
  "scanPath s = Inr n \<longleftrightarrow>
     n = length (before_query s) \<and> length (before_query s) \<le> 2048 \<and> clean_runes (before_query s)"
proof -
  have "scanPath s = Inr n \<longleftrightarrow> (\<exists>na. scan_loop {CHR ''?'', CHR ''#''} 2048 ''uri path exceeds 2048 bytes'' 0 False s
      = Inr (n, na) \<and> (na \<longrightarrow> checkRunes (take n s) = []))"
    by (auto simp: scanPath_def split: sum.splits prod.splits)
  with scan_result [of "before_query s" "{CHR ''?'', CHR ''#''}" s 2048] show ?thesis
    by (simp add: before_query_def)
qed

lemma scanAuthority_iff:
  "scanAuthority s = Inr n \<longleftrightarrow> (\<exists>a rest. s = a @ rest \<and> n = length a \<and> clean_authority a \<and>
     (rest = [] \<or> hd rest \<in> {CHR ''/'', CHR ''?'', CHR ''#''}))"
proof -
  let ?S = "{CHR ''/'', CHR ''?'', CHR ''#''}"
  let ?u = "takeWhile (\<lambda>c. c \<notin> ?S) s"
  have "scanAuthority s = Inr n \<longleftrightarrow> n \<noteq> 0 \<and> (\<exists>na. scan_loop ?S 1024 ''uri host is too long'' 0 False s
      = Inr (n, na) \<and> (na \<longrightarrow> checkRunes (take n s) = []))"
    by (auto simp: scanAuthority_def split: sum.splits prod.splits)
  also have "\<dots> \<longleftrightarrow> n = length ?u \<and> clean_authority ?u"
    using scan_result [of ?u ?S s 1024, OF refl] by (auto simp: clean_authority_def dest: set_takeWhileD)
  also have "\<dots> \<longleftrightarrow> (\<exists>a rest. s = a @ rest \<and> n = length a \<and> clean_authority a \<and> (rest = [] \<or> hd rest \<in> ?S))"
  proof
    assume "n = length ?u \<and> clean_authority ?u"
    then show "\<exists>a rest. s = a @ rest \<and> n = length a \<and> clean_authority a \<and> (rest = [] \<or> hd rest \<in> ?S)"
      using takeWhile_dropWhile_id [of "\<lambda>c. c \<notin> ?S" s] hd_dropWhile [of "\<lambda>c. c \<notin> ?S" s] by metis
  next
    assume "\<exists>a rest. s = a @ rest \<and> n = length a \<and> clean_authority a \<and> (rest = [] \<or> hd rest \<in> ?S)"
    then obtain a rest where s: "s = a @ rest" "n = length a" "clean_authority a" "rest = [] \<or> hd rest \<in> ?S"
      by blast
    then have "?u = a"
      by (subst s(1), subst takeWhile_append2) (auto simp: clean_authority_def takeWhile_eq_Nil_iff)
    with s show "n = length ?u \<and> clean_authority ?u" by simp
  qed
  finally show ?thesis .
qed

lemma path_prefix_iff0: "path_prefix s = Inr p \<longleftrightarrow> (\<exists>n. scanPath s = Inr n \<and> p = take n s)"
  by (auto simp: path_prefix_def split: sum.splits)

lemma path_prefix_iff:
  "path_prefix s = Inr p \<longleftrightarrow> p = before_query s \<and> length p \<le> 2048 \<and> clean_runes p"
proof -
  have "take (length (before_query s)) s = before_query s"
    by (simp add: before_query_def takeWhile_eq_take [symmetric])
  then show ?thesis
    using scanPath_iff [of s] by (auto simp: path_prefix_iff0)
qed

lemma before_query_clean: "set (before_query s) \<inter> {CHR ''?'', CHR ''#''} = {}"
  by (auto simp: before_query_def dest: set_takeWhileD)

lemma before_query_Cons:
  "before_query (CHR ''/'' # s) = CHR ''/'' # before_query s" "before_query [] = []"
  by (simp_all add: before_query_def)

lemma before_query_id: "set p \<inter> {CHR ''?'', CHR ''#''} = {} \<Longrightarrow> before_query p = p"
  by (auto simp: before_query_def takeWhile_eq_all_conv)

lemma path_prefix_clean:
  "path_prefix (CHR ''/'' # s) = Inr p \<longleftrightarrow> p = before_query (CHR ''/'' # s) \<and> clean_path p"
  using before_query_clean [of s] by (auto simp: path_prefix_iff clean_path_def before_query_Cons)

lemma slash_clean: "clean_path ''/''"
  by (simp add: clean_path_def clean_runes_ascii isBadASCII_def byte_def)

lemma url_path_iff:
  "(if rest = [] \<or> hd rest \<noteq> CHR ''/'' then Inr ''/'' else path_prefix rest) = Inr p \<longleftrightarrow>
   clean_path p \<and> p = url_path rest"
  using path_prefix_clean [of "tl rest" p] slash_clean by (cases rest) (auto simp: url_path_def)

lemma NormalizePath_url:
  assumes "uri \<noteq> []" "hd uri \<noteq> CHR ''/''"
  shows "NormalizePath uri = Inr p \<longleftrightarrow>
     (\<exists>s n. cutHTTPScheme uri = Some s \<and> scanAuthority s = Inr n \<and> clean_path p \<and> p = url_path (drop n s))"
proof (cases "cutHTTPScheme uri")
  case None
  with assms show ?thesis by (simp add: NormalizePath_def)
next
  case (Some s)
  then show ?thesis
  proof (cases "scanAuthority s")
    case (Inr n)
    with assms Some show ?thesis
      using url_path_iff [of "drop n s" p] by (simp add: NormalizePath_def Let_def del: drop_eq_Nil)
  qed (use assms in \<open>simp add: NormalizePath_def\<close>)
qed

lemma NormalizePath_cases:
  "NormalizePath uri = Inr p \<longleftrightarrow> clean_path p \<and>
     ((\<exists>s. uri = CHR ''/'' # s \<and> p = before_query uri) \<or>
      (\<exists>a rest. cutHTTPScheme uri = Some (a @ rest) \<and> hd uri \<noteq> CHR ''/'' \<and> clean_authority a \<and>
         (rest = [] \<or> hd rest \<in> {CHR ''/'', CHR ''?'', CHR ''#''}) \<and> p = url_path rest))"
  (is "?l \<longleftrightarrow> clean_path p \<and> (?path \<or> ?url)")
proof (cases "uri = [] \<or> hd uri = CHR ''/''")
  case True
  then have "\<not> ?url" by (auto simp: cutHTTPScheme_def)
  then show ?thesis
    using True path_prefix_clean [of "tl uri" p] by (cases uri) (simp_all add: NormalizePath_def conj_commute)
next
  case False
  then have "?url \<longleftrightarrow> (\<exists>s n. cutHTTPScheme uri = Some s \<and> scanAuthority s = Inr n \<and> p = url_path (drop n s))"
    unfolding scanAuthority_iff by (metis append_eq_conv_conj)
  moreover have "\<not> ?path" using False by auto
  ultimately show ?thesis using NormalizePath_url [of uri p] False by blast
qed

text \<open>
  C11. A URI is accepted with path p exactly when p is clean (it starts with a slash, has at most 2048
  bytes, is valid UTF-8 without control characters or white space, and has no query or fragment
  delimiter) and p is either everything before the query and fragment of a URI that starts with a
  slash, or the path of an http(s) URL with a clean authority of 1 to 1024 bytes, which is a single
  slash when the URL has none.
\<close>

theorem NormalizePath_iff:
  "NormalizePath uri = Inr p \<longleftrightarrow> clean_path p \<and>
     ((\<exists>s. uri = CHR ''/'' # s \<and> p = before_query uri) \<or>
      (\<exists>a rest. cutHTTPScheme uri = Some (a @ rest) \<and> hd uri \<noteq> CHR ''/'' \<and> clean_authority a \<and>
         (rest = [] \<or> hd rest \<in> {CHR ''/'', CHR ''?'', CHR ''#''}) \<and> p = url_path rest))"
  by (rule NormalizePath_cases)

text \<open>
  C37. The patterns accepted for exact and prefix rules are exactly the paths that normalisation
  returns unchanged: a valid pattern can match, and every normalised path is a valid pattern.
\<close>

theorem validatePathPattern_iff: "validatePathPattern p = None \<longleftrightarrow> NormalizePath p = Inr p"
proof (cases "\<exists>s. p = CHR ''/'' # s")
  case True
  then obtain s where p: "p = CHR ''/'' # s" by blast
  have "NormalizePath p = Inr p \<longleftrightarrow> p = before_query p \<and> clean_path p"
    using path_prefix_clean [of s p] p by (simp add: NormalizePath_def)
  also have "\<dots> \<longleftrightarrow> clean_path p"
    using before_query_id [of p] by (auto simp: clean_path_def)
  finally show ?thesis
    using p by (auto simp: validatePathPattern_def clean_path_def checkRunes_iff)
next
  case False
  then have "validatePathPattern p \<noteq> None" by (cases p) (auto simp: validatePathPattern_def)
  moreover have "\<not> clean_path p" using False by (cases p) (auto simp: clean_path_def)
  ultimately show ?thesis using NormalizePath_cases [of p p] by blast
qed

section \<open>The size of a regular expression\<close>

text \<open>
  The reference: counted repetitions written out the way \<^verbatim>\<open>regexp/syntax\<close> simplifies them
  (\<open>x{n,m}\<close> is n copies followed by m - n nested optional ones), and the number of instructions of
  the result, in unbounded arithmetic.
\<close>

fun quests :: "nat \<Rightarrow> retree \<Rightarrow> retree list" where
  "quests 0 t = []"
| "quests (Suc k) t = [R_quest (R_concat (t # quests k t))]"

fun expand :: "retree \<Rightarrow> retree" where
  "expand (R_capture t) = R_capture (expand t)"
| "expand (R_star t) = R_star (expand t)"
| "expand (R_plus t) = R_plus (expand t)"
| "expand (R_quest t) = R_quest (expand t)"
| "expand (R_concat ts) = R_concat (map expand ts)"
| "expand (R_alternate ts) = R_alternate (map expand ts)"
| "expand (R_repeat lo hi t) =
     (if hi = -1 \<and> lo = 0 then R_star (expand t)
      else if hi = -1 then R_concat (replicate (nat lo - 1) (expand t) @ [R_plus (expand t)])
      else R_concat (replicate (nat lo) (expand t) @ quests (nat (hi - lo)) (expand t)))"
| "expand t = t"

fun instructions :: "retree \<Rightarrow> int" where
  "instructions (R_literal n) = max 1 (int n)"
| "instructions (R_capture t) = 2 + instructions t"
| "instructions (R_star t) = 2 + instructions t"
| "instructions (R_plus t) = 1 + instructions t"
| "instructions (R_quest t) = 1 + instructions t"
| "instructions (R_concat ts) = max 1 (sum_list (map instructions ts))"
| "instructions (R_alternate ts) = max 1 (sum_list (map instructions ts) + (int (length ts) - 1))"
| "instructions (R_repeat lo hi t) = instructions t"
| "instructions R_other = 1"

text \<open>The repetition counts the parser produces: no maximum is -1.\<close>

fun reps_ok :: "retree \<Rightarrow> bool" where
  "reps_ok (R_literal n) = True"
| "reps_ok (R_capture t) = reps_ok t"
| "reps_ok (R_star t) = reps_ok t"
| "reps_ok (R_plus t) = reps_ok t"
| "reps_ok (R_quest t) = reps_ok t"
| "reps_ok (R_concat ts) = list_all reps_ok ts"
| "reps_ok (R_alternate ts) = list_all reps_ok ts"
| "reps_ok (R_repeat lo hi t) \<longleftrightarrow> 0 \<le> lo \<and> (hi = -1 \<or> lo \<le> hi) \<and> reps_ok t"
| "reps_ok R_other = True"

lemma instructions_pos: "1 \<le> instructions t"
  by (induction t) auto

lemma sum_instructions: "int (length ts) \<le> sum_list (map instructions ts)"
  using instructions_pos by (induction ts) (auto simp: algebra_simps intro: add_mono)

lemma sum_quests: "sum_list (map instructions (quests k t)) = int k * (instructions t + 1)"
proof (induction k)
  case (Suc k)
  moreover have "1 \<le> instructions t + int k * (instructions t + 1)"
    using instructions_pos [of t] by (simp add: add_increasing2)
  ultimately show ?case by (simp add: algebra_simps)
qed simp

lemma instructions_repeat:
  assumes "0 \<le> lo" and "hi = -1 \<or> lo \<le> hi"
  shows "instructions (expand (R_repeat lo hi t)) =
     (let sub = instructions (expand t) in
      max 1 (if hi = -1 \<and> lo = 0 then 2 + sub else if hi = -1 then 1 + lo * sub else hi * sub + (hi - lo)))"
proof -
  let ?s = "instructions (expand t)"
  have s: "1 \<le> ?s" by (rule instructions_pos)
  have "int (nat lo - 1) * ?s + (1 + ?s) = 1 + lo * ?s" if "lo \<noteq> 0"
    using assms that by (simp add: nat_diff_distrib' algebra_simps of_nat_diff)
  then show ?thesis
    using assms s by (auto simp: Let_def sum_list_replicate sum_quests algebra_simps)
qed

lemma foldl_wrap:
  "0 \<le> a \<Longrightarrow> a + sum_list (map f ts) \<le> MaxInt64 \<Longrightarrow> \<forall>t \<in> set ts. 0 \<le> f t \<and> g t = f t \<Longrightarrow>
   foldl (\<lambda>n t. wrap64 (n + g t)) a ts = a + sum_list (map f ts)"
proof (induction ts arbitrary: a)
  case (Cons t ts)
  have "0 \<le> sum_list (map f ts)" using Cons.prems(3) by (intro sum_list_nonneg) auto
  with Cons.prems have "wrap64 (a + g t) = a + f t"
    by (intro trans [OF wrap64_id]) (auto simp: in64_def MinInt64_def)
  with Cons show ?case by simp
qed simp

lemma wrap64_nonneg: "0 \<le> x \<Longrightarrow> x \<le> MaxInt64 \<Longrightarrow> wrap64 x = x"
  by (simp add: in64_def MinInt64_def)

lemma wrap_instructions:
  "0 \<le> k \<Longrightarrow> k + instructions t \<le> MaxInt64 \<Longrightarrow> max 1 (wrap64 (k + instructions t)) = k + instructions t"
  using instructions_pos [of t] by (simp add: wrap64_nonneg)

lemma instructions_member: "t \<in> set ts \<Longrightarrow> instructions t \<le> sum_list (map instructions ts)"
proof (induction ts)
  case (Cons u ts)
  then show ?case
    using instructions_pos [of u] sum_instructions [of ts] by auto
qed simp

lemma regexProgramSize_fold:
  assumes ih: "\<And>t. t \<in> set ts \<Longrightarrow> reps_ok t \<Longrightarrow> instructions (expand t) \<le> MaxInt64 \<Longrightarrow>
      regexProgramSize t = instructions (expand t)"
    and "list_all reps_ok ts" and "sum_list (map instructions (map expand ts)) \<le> MaxInt64"
  shows "foldl (\<lambda>n t. wrap64 (n + regexProgramSize t)) 0 ts = sum_list (map instructions (map expand ts))"
proof -
  have "instructions (expand t) \<le> MaxInt64" if "t \<in> set ts" for t
    using instructions_member [of "expand t" "map expand ts"] that assms(3) by auto
  then show ?thesis
    using assms instructions_pos
    by (subst foldl_wrap [where f = "instructions \<circ> expand"]) (auto simp: list_all_iff intro: order_trans [of 0 1])
qed

lemma regexProgramSize_expand:
  "reps_ok t \<Longrightarrow> instructions (expand t) \<le> MaxInt64 \<Longrightarrow> regexProgramSize t = instructions (expand t)"
proof (induction t)
  case (R_concat ts)
  then show ?case by (simp add: regexProgramSize_fold)
next
  case (R_alternate ts)
  show ?case
  proof (cases "ts = []")
    case False
    then have len: "1 \<le> int (length ts)" by (cases ts) auto
    with R_alternate.prems have max: "sum_list (map instructions (map expand ts)) + (int (length ts) - 1) \<le> MaxInt64"
      by simp
    with len have "sum_list (map instructions (map expand ts)) \<le> MaxInt64" by linarith
    then have fold: "foldl (\<lambda>n t. wrap64 (n + regexProgramSize t)) 0 ts = sum_list (map instructions (map expand ts))"
      using R_alternate by (intro regexProgramSize_fold) auto
    have "0 \<le> sum_list (map instructions (map expand ts))"
      using sum_instructions [of "map expand ts"] by simp
    with fold len max show ?thesis by (cases "length ts = 1") (simp_all add: Let_def wrap64_nonneg)
  qed simp
next
  case (R_repeat lo hi t)
  then have ok: "0 \<le> lo" "hi = -1 \<or> lo \<le> hi" "reps_ok t" by auto
  let ?s = "instructions (expand t)"
  have s: "1 \<le> ?s" by (rule instructions_pos)
  note eq = instructions_repeat [OF ok(1,2), of t, unfolded Let_def]
  consider "hi = 0" "lo = 0" | "hi = -1" "lo = 0" | "hi = -1" "1 \<le> lo" | "1 \<le> hi" "lo \<le> hi" "hi \<noteq> -1"
    using ok by linarith
  then show ?case
  proof cases
    case 3
    have "?s \<le> lo * ?s" using 3 s by simp
    moreover have n: "instructions (expand (R_repeat lo hi t)) = 1 + lo * ?s" using 3 eq s by simp
    ultimately have le: "?s \<le> MaxInt64" "0 \<le> lo * ?s" "1 + lo * ?s \<le> MaxInt64" using R_repeat.prems s by linarith+
    with R_repeat.IH ok have "regexProgramSize t = ?s" by simp
    with 3 n le show ?thesis by (simp del: expand.simps add: Let_def wrap64_nonneg)
  next
    case 4
    have "?s \<le> hi * ?s" using 4 s by simp
    moreover have n: "instructions (expand (R_repeat lo hi t)) = hi * ?s + (hi - lo)" using 4 eq s calculation by simp
    ultimately have le: "?s \<le> MaxInt64" "0 \<le> hi * ?s" "hi * ?s \<le> MaxInt64" "hi * ?s + (hi - lo) \<le> MaxInt64"
      using R_repeat.prems s 4 by linarith+
    with R_repeat.IH ok have "regexProgramSize t = ?s" by simp
    moreover have "hi - lo \<le> MaxInt64" "1 \<le> hi * ?s + (hi - lo)" using le 4 s \<open>?s \<le> hi * ?s\<close> by linarith+
    ultimately show ?thesis using 4 n le by (simp del: expand.simps add: Let_def wrap64_nonneg)
  qed (use eq s R_repeat ok in \<open>simp_all add: Let_def wrap64_nonneg\<close>)
qed (auto simp: wrap_instructions)


definition one_regex :: libs where
  "one_regex = \<lparr>re_parse = (\<lambda>p. if p = ''(ab){2,3}'' then Inr (R_repeat 2 3 (R_capture (R_literal 2))) else Inl ''unsupported''),
     re_compile = (\<lambda>p. if p = ''(ab){2,3}'' then Inr (\<lambda>s. s = ''abab'' \<or> s = ''ababab'') else Inl ''unsupported''),
     code_string = (\<lambda>_. ''code'')\<rparr>"


end
