(* ===== verification/Site_Matcher.thy ===== *)
theory Site_Matcher
  imports Site_Path "HOL-Library.AList" "HOL-Library.Product_Lexorder"
begin

text \<open>
  \<^verbatim>\<open>internal/site/matcher.go\<close>: URI rules compiled into a matcher.  Exact patterns live in a map,
  templates in a trie of segments whose nodes carry pruning bounds, prefixes in a byte-wise radix
  tree, regular expressions in a list.  A pointer that the code mutates while it walks down a tree
  is a recursive rebuild of the path walked; nil is \<open>None\<close>.
\<close>

section \<open>Rules and results\<close>

definition DefaultGroup :: string where "DefaultGroup = ''_default''"

record Rule =
  rl_ID :: string
  rl_GroupID :: string
  rl_GroupName :: string
  rl_Kind :: string
  rl_Pattern :: string
  rl_Position :: int

record MatchResult =
  mr_GroupID :: string
  mr_GroupName :: string
  mr_RuleID :: string
  mr_Kind :: string
  mr_Default :: bool

record ruleEntry =
  entry_result :: MatchResult
  entry_rank :: int

section \<open>The template trie\<close>

record templateTerminal =
  tt_entry :: ruleEntry
  tt_literals :: int
  tt_params :: int

datatype templateNode =
  TNode (literals: "(string \<times> templateNode) list") (param: "templateNode option")
    (terminal: "templateTerminal option") (maxLiterals: int) (minRank: int)

definition newTemplateNode :: templateNode where
  "newTemplateNode = TNode [] None None 0 0"

definition betterThan :: "templateTerminal \<Rightarrow> templateTerminal \<Rightarrow> bool" where
  "betterThan t other =
     (if tt_literals t \<noteq> tt_literals other then tt_literals t > tt_literals other
      else if tt_params t \<noteq> tt_params other then tt_params t < tt_params other
      else entry_rank (tt_entry t) < entry_rank (tt_entry other))"

definition place_terminal :: "templateTerminal \<Rightarrow> templateTerminal option \<Rightarrow> templateTerminal option" where
  "place_terminal t old = (case old of None \<Rightarrow> Some t | Some o' \<Rightarrow> if betterThan t o' then Some t else Some o')"

text \<open>The loop of \<^verbatim>\<open>templateNode.insert\<close>: \<open>lits\<close> counts the literal segments walked so far.\<close>

fun tinsert_loop :: "ruleEntry \<Rightarrow> int \<Rightarrow> int \<Rightarrow> templateSegment list \<Rightarrow> templateNode \<Rightarrow> templateNode" where
  "tinsert_loop e len lits [] (TNode ls p t ml mr) =
     TNode ls p (place_terminal \<lparr>tt_entry = e, tt_literals = lits, tt_params = len - lits\<rparr> t) ml mr"
| "tinsert_loop e len lits (Param # segs) (TNode ls p t ml mr) =
     TNode ls (Some (tinsert_loop e len lits segs (case p of None \<Rightarrow> newTemplateNode | Some c \<Rightarrow> c))) t ml mr"
| "tinsert_loop e len lits (Literal s # segs) (TNode ls p t ml mr) =
     TNode (AList.update s (tinsert_loop e len (lits + 1) segs
              (case map_of ls s of None \<Rightarrow> newTemplateNode | Some c \<Rightarrow> c)) ls) p t ml mr"

definition tinsert :: "templateSegment list \<Rightarrow> ruleEntry \<Rightarrow> templateNode \<Rightarrow> templateNode" where
  "tinsert segs e n = tinsert_loop e (int (length segs)) 0 segs n"

fun finalize :: "templateNode \<Rightarrow> templateNode" where
  "finalize (TNode ls p t _ _) =
     (let ls' = map (\<lambda>(s, c). (s, finalize c)) ls;
          p' = map_option finalize p;
          cs = map snd ls' @ (case p' of None \<Rightarrow> [] | Some c \<Rightarrow> [c]);
          start = (case t of None \<Rightarrow> (-1, MaxInt64) | Some tt \<Rightarrow> (tt_literals tt, entry_rank (tt_entry tt)));
          (ml, mr) = foldl (\<lambda>(ml, mr) c. (max ml (maxLiterals c), min mr (minRank c))) start cs
      in TNode ls' p' t ml mr)"

definition canBeat :: "templateNode \<Rightarrow> templateTerminal option \<Rightarrow> bool" where
  "canBeat n best =
     (if maxLiterals n < 0 then False
      else case best of
        None \<Rightarrow> True
      | Some b \<Rightarrow> maxLiterals n > tt_literals b \<or>
                  maxLiterals n = tt_literals b \<and> minRank n < entry_rank (tt_entry b))"

definition segment_end :: "string \<Rightarrow> nat \<Rightarrow> nat" where
  "segment_end path start =
     (case index_byte (CHR ''/'') (drop start path) of None \<Rightarrow> length path | Some n \<Rightarrow> n + start)"

function search :: "templateNode \<Rightarrow> string \<Rightarrow> nat \<Rightarrow> templateTerminal option \<Rightarrow> templateTerminal option" where
  "search n path start best =
     (if \<not> canBeat n best then best
      else if start > length path then
        (case terminal n of
           None \<Rightarrow> best
         | Some t \<Rightarrow> (case best of None \<Rightarrow> Some t | Some b \<Rightarrow> if betterThan t b then Some t else best))
      else
        let stop = segment_end path start;
            segment = drop start (take stop path);
            best = (case map_of (literals n) segment of
                      None \<Rightarrow> best
                    | Some child \<Rightarrow> search child path (stop + 1) best)
        in (case param n of
              None \<Rightarrow> best
            | Some child \<Rightarrow> if segment \<noteq> '''' then search child path (stop + 1) best else best))"
  by pat_completeness auto
termination
  by (relation "measure (\<lambda>(n, path, start, best). Suc (length path) - start)")
    (auto simp: segment_end_def split: option.splits)

declare search.simps [simp del]

definition tmatch :: "templateNode \<Rightarrow> string \<Rightarrow> templateTerminal option" where
  "tmatch n path =
     (if maxLiterals n < 0 \<or> path = '''' \<or> hd path \<noteq> CHR ''/'' then None else search n path 1 None)"

section \<open>The radix tree\<close>

text \<open>The parallel slices \<^verbatim>\<open>indices\<close> and \<^verbatim>\<open>children\<close> are one list of pairs.\<close>

datatype radixNode =
  RNode (label: string) (rentry: "ruleEntry option") (kids: "(char \<times> radixNode) list")

fun commonPrefixLen :: "string \<Rightarrow> string \<Rightarrow> nat" where
  "commonPrefixLen (a # as) (b # bs) = (if a \<noteq> b then 0 else Suc (commonPrefixLen as bs))"
| "commonPrefixLen _ _ = 0"

definition split_child :: "nat \<Rightarrow> radixNode \<Rightarrow> radixNode" where
  "split_child common child =
     (if common < length (label child) then
        RNode (take common (label child)) None
          [(label child ! common, RNode (drop common (label child)) (rentry child) (kids child))]
      else child)"

lemma size_kid: "map_of ks c = Some child \<Longrightarrow> size child < size (RNode l e ks)"
  by (induction ks) (auto split: if_splits)

lemma commonPrefixLen_0: "commonPrefixLen l (k # key) = 0 \<longleftrightarrow> l = [] \<or> hd l \<noteq> k"
  by (cases l) auto

function rinsert :: "radixNode \<Rightarrow> string \<Rightarrow> ruleEntry \<Rightarrow> radixNode" where
  "rinsert (RNode l en ks) [] e =
     RNode l (case en of None \<Rightarrow> Some e | Some old \<Rightarrow> if entry_rank e < entry_rank old then Some e else Some old) ks"
| "rinsert (RNode l en ks) (k # key) e =
     (case map_of ks k of
        None \<Rightarrow> RNode l en (ks @ [(k, RNode (k # key) (Some e) [])])
      | Some child \<Rightarrow>
          let common = commonPrefixLen (label child) (k # key)
          in RNode l en (AList.update k (rinsert (split_child common child) (drop common (k # key)) e) ks))"
  by pat_completeness auto
termination
proof (relation "measures [\<lambda>(n, key, e). length key,
    \<lambda>(n, key, e). if map_of (kids n) (hd key) = None then 0 else Suc (size n)]", goal_cases)
  case (2 l en ks k key e child common)
  show ?case
  proof (cases "common = 0")
    case True
    with 2 commonPrefixLen_0 [of "label child" k key] have "label child = [] \<or> hd (label child) \<noteq> k" by simp
    with 2 True size_kid [of ks k child l en] show ?thesis
      by (cases "label child") (auto simp: split_child_def)
  next
    case False
    then have "length (drop common (k # key)) < length (k # key)" by simp
    then show ?thesis by simp
  qed
qed simp

function longest_loop :: "radixNode \<Rightarrow> string \<Rightarrow> ruleEntry option \<Rightarrow> ruleEntry option" where
  "longest_loop (RNode l en ks) path best =
     (let best = (case en of None \<Rightarrow> best | Some e \<Rightarrow> Some e)
      in if path = '''' then best
         else case map_of ks (hd path) of
           None \<Rightarrow> best
         | Some child \<Rightarrow>
             if \<not> has_prefix path (label child) then best
             else longest_loop child (drop (length (label child)) path) best)"
  by pat_completeness auto
termination
  by (relation "measure (\<lambda>(n, path, best). size n)") (auto dest: size_kid)

declare longest_loop.simps [simp del]

definition longest :: "radixNode \<Rightarrow> string \<Rightarrow> ruleEntry option" where
  "longest n path = longest_loop n path None"

section \<open>The matcher\<close>

record regexEntry =
  rx_re :: "string \<Rightarrow> bool"
  rx_entry :: ruleEntry

record Matcher =
  m_exact :: "string \<rightharpoonup> ruleEntry"
  m_templates :: templateNode
  m_prefixes :: radixNode
  m_regexes :: "regexEntry list"
  m_fallback :: MatchResult
  m_size :: int

definition add :: "libs \<Rightarrow> Rule \<Rightarrow> ruleEntry \<Rightarrow> Matcher \<Rightarrow> gerror + Matcher" where
  "add lib r e m =
     (if rl_Kind r = RuleExact then
        (case validatePathPattern (rl_Pattern r) of
           Some err \<Rightarrow> Inl err
         | None \<Rightarrow> Inr (case m_exact m (rl_Pattern r) of
             None \<Rightarrow> m\<lparr>m_exact := (m_exact m)(rl_Pattern r \<mapsto> e)\<rparr>
           | Some prev \<Rightarrow> if entry_rank e < entry_rank prev
               then m\<lparr>m_exact := (m_exact m)(rl_Pattern r \<mapsto> e)\<rparr> else m))
      else if rl_Kind r = RuleTemplate then
        (case parseTemplate (rl_Pattern r) of
           Inl err \<Rightarrow> Inl err
         | Inr segments \<Rightarrow> Inr (m\<lparr>m_templates := tinsert segments e (m_templates m)\<rparr>))
      else if rl_Kind r = RulePrefix then
        (case validatePathPattern (rl_Pattern r) of
           Some err \<Rightarrow> Inl err
         | None \<Rightarrow> Inr (m\<lparr>m_prefixes := rinsert (m_prefixes m) (rl_Pattern r) e\<rparr>))
      else if rl_Kind r = RuleRegex then
        (case compileRegex lib (rl_Pattern r) of
           Inl err \<Rightarrow> Inl err
         | Inr re \<Rightarrow> Inr (m\<lparr>m_regexes := m_regexes m @ [\<lparr>rx_re = re, rx_entry = e\<rparr>]\<rparr>))
      else (case ValidatePattern lib (rl_Kind r) (rl_Pattern r) of Some err \<Rightarrow> Inl err | None \<Rightarrow> Inr m))"

text \<open>The embedded message keeps its format and its arguments, as in \<open>Error_text\<close>.\<close>

definition ruleError :: "libs \<Rightarrow> nat \<Rightarrow> Rule \<Rightarrow> gerror \<Rightarrow> gerror" where
  "ruleError lib index r err =
     (let m = (case As err of Some (AppError _ _ m _ _) \<Rightarrow> m | _ \<Rightarrow> Error_text (code_string lib) err)
      in WithCause
           (patternInvalid (msg_append
              (Msg ''uri rule at index %d (id %q, kind %q): '' [Itoa (int index), rl_ID r, rl_Kind r]) m))
           (Some err))"

definition rule_order :: "Rule list \<Rightarrow> nat \<Rightarrow> int \<times> string \<times> nat" where
  "rule_order rules i = (rl_Position (rules ! i), rl_ID (rules ! i), i)"

definition rankRules :: "Rule list \<Rightarrow> int list" where
  "rankRules rules =
     (let order = sort_key (rule_order rules) [0..<length rules]
      in foldl (\<lambda>ranks (rank, idx). ranks[idx := int rank]) (replicate (length rules) 0) (enumerate 0 order))"

fun add_rules :: "libs \<Rightarrow> int list \<Rightarrow> nat \<Rightarrow> Rule list \<Rightarrow> Matcher \<Rightarrow> gerror + Matcher" where
  "add_rules lib ranks i [] m = Inr m"
| "add_rules lib ranks i (r # rs) m =
     (if rl_GroupID r = '''' then Inl (ruleError lib i r (patternInvalid (msg ''endpoint group id is empty'')))
      else
        let e = \<lparr>entry_result = \<lparr>mr_GroupID = rl_GroupID r, mr_GroupName = rl_GroupName r, mr_RuleID = rl_ID r,
                                 mr_Kind = rl_Kind r, mr_Default = False\<rparr>,
                 entry_rank = ranks ! i\<rparr>
        in case add lib r e m of
             Inl err \<Rightarrow> Inl (ruleError lib i r err)
           | Inr m' \<Rightarrow> add_rules lib ranks (Suc i) rs m')"

definition newMatcher :: "string \<Rightarrow> nat \<Rightarrow> Matcher" where
  "newMatcher defaultGroupID n =
     \<lparr>m_exact = (\<lambda>_. None), m_templates = newTemplateNode, m_prefixes = RNode '''' None [], m_regexes = [],
      m_fallback = \<lparr>mr_GroupID = defaultGroupID, mr_GroupName = DefaultGroup, mr_RuleID = '''', mr_Kind = '''',
                    mr_Default = True\<rparr>,
      m_size = int n\<rparr>"

definition NewMatcher :: "libs \<Rightarrow> Rule list \<Rightarrow> string \<Rightarrow> gerror + Matcher" where
  "NewMatcher lib rules defaultGroupID =
     (case add_rules lib (rankRules rules) 0 rules (newMatcher defaultGroupID (length rules)) of
        Inl err \<Rightarrow> Inl err
      | Inr m \<Rightarrow> Inr (m\<lparr>m_regexes := sort_key (entry_rank \<circ> rx_entry) (m_regexes m),
                        m_templates := finalize (m_templates m)\<rparr>))"

definition Len :: "Matcher option \<Rightarrow> int" where
  "Len m = (case m of None \<Rightarrow> 0 | Some m \<Rightarrow> m_size m)"

definition default_result :: MatchResult where
  "default_result = \<lparr>mr_GroupID = '''', mr_GroupName = DefaultGroup, mr_RuleID = '''', mr_Kind = '''', mr_Default = True\<rparr>"

definition Match :: "Matcher option \<Rightarrow> string \<Rightarrow> MatchResult" where
  "Match m path =
     (case m of
        None \<Rightarrow> default_result
      | Some m \<Rightarrow>
          if \<not> mr_Default (m_fallback m) then default_result
          else case m_exact m path of
            Some e \<Rightarrow> entry_result e
          | None \<Rightarrow>
              (case tmatch (m_templates m) path of
                 Some t \<Rightarrow> entry_result (tt_entry t)
               | None \<Rightarrow>
                   (case longest (m_prefixes m) path of
                      Some e \<Rightarrow> entry_result e
                    | None \<Rightarrow>
                        (case find (\<lambda>r. rx_re r path) (m_regexes m) of
                           Some r \<Rightarrow> entry_result (rx_entry r)
                         | None \<Rightarrow> m_fallback m))))"

definition MatchURI :: "Matcher option \<Rightarrow> string \<Rightarrow> gerror + MatchResult" where
  "MatchURI m uri = (case NormalizePath uri of Inl err \<Rightarrow> Inl err | Inr path \<Rightarrow> Inr (Match m path))"

end
