(* ===== verification/Site_Template_Laws.thy ===== *)
theory Site_Template_Laws
  imports Site_Matcher
begin

text \<open>
  The template trie: what insertion and finalisation make of a lookup, that the pruning bounds cover
  every terminal below a node, and that the pruned search returns a terminal that no matching
  template beats.
\<close>

section \<open>Lookup in the trie\<close>

fun tlookup :: "templateNode \<Rightarrow> templateSegment list \<Rightarrow> templateTerminal option" where
  "tlookup (TNode ls p t ml mr) [] = t"
| "tlookup (TNode ls p t ml mr) (Param # segs) = (case p of None \<Rightarrow> None | Some c \<Rightarrow> tlookup c segs)"
| "tlookup (TNode ls p t ml mr) (Literal s # segs) =
     (case map_of ls s of None \<Rightarrow> None | Some c \<Rightarrow> tlookup c segs)"

definition nlits :: "templateSegment list \<Rightarrow> int" where
  "nlits segs = int (length (filter (\<lambda>s. s \<noteq> Param) segs))"

lemma nlits_simps [simp]:
  "nlits [] = 0" "nlits (Param # segs) = nlits segs" "nlits (Literal s # segs) = 1 + nlits segs"
  by (simp_all add: nlits_def)

lemma tlookup_new [simp]: "tlookup newTemplateNode segs = None"
  by (cases segs rule: remdups_adj.cases; cases "hd segs") (auto simp: newTemplateNode_def)

lemma tlookup_insert_loop:
  "tlookup (tinsert_loop e len lits segs n) segs' =
     (if segs' = segs
      then place_terminal \<lparr>tt_entry = e, tt_literals = lits + nlits segs, tt_params = len - (lits + nlits segs)\<rparr> (tlookup n segs)
      else tlookup n segs')"
proof (induction e len lits segs n arbitrary: segs' rule: tinsert_loop.induct)
  case (1 e len lits ls p t ml mr)
  show ?case
  proof (cases segs')
    case (Cons s ss)
    then show ?thesis by (cases s) auto
  qed simp
next
  case (2 e len lits segs ls p t ml mr)
  show ?case
  proof (cases segs')
    case (Cons s ss)
    then show ?thesis using 2 by (cases s) (auto split: option.splits)
  qed simp
next
  case (3 e len lits s segs ls p t ml mr)
  show ?case
  proof (cases segs')
    case (Cons s' ss)
    then show ?thesis using 3 by (cases s') (auto simp: update_conv' algebra_simps split: option.splits)
  qed simp
qed

definition terminal_of :: "templateSegment list \<Rightarrow> ruleEntry \<Rightarrow> templateTerminal" where
  "terminal_of segs e = \<lparr>tt_entry = e, tt_literals = nlits segs, tt_params = int (length segs) - nlits segs\<rparr>"

lemma tlookup_insert:
  "tlookup (tinsert segs e n) segs' =
     (if segs' = segs then place_terminal (terminal_of segs e) (tlookup n segs) else tlookup n segs')"
  by (simp add: tinsert_def tlookup_insert_loop terminal_of_def)

section \<open>Pruning bounds\<close>

lemma tlookup_finalize: "tlookup (finalize n) segs = tlookup n segs"
proof (induction n segs rule: tlookup.induct)
  case (3 ls p t ml mr s segs)
  have "map_of (map (\<lambda>(s, c). (s, finalize c)) ls) s = map_option finalize (map_of ls s)"
    by (simp add: map_of_map)
  with 3 show ?case by (auto simp: Let_def split: option.splits prod.splits)
qed (auto simp: Let_def split: option.splits prod.splits)

text \<open>The bounds cover every terminal below the node, at every node.\<close>

inductive bounded :: "templateNode \<Rightarrow> bool" where
  "(\<And>segs t. tlookup (TNode ls p t' ml mr) segs = Some t \<Longrightarrow> tt_literals t \<le> ml \<and> mr \<le> entry_rank (tt_entry t)) \<Longrightarrow>
   (\<And>s c. map_of ls s = Some c \<Longrightarrow> bounded c) \<Longrightarrow> (\<And>c. p = Some c \<Longrightarrow> bounded c) \<Longrightarrow>
   bounded (TNode ls p t' ml mr)"

inductive_cases bounded_TNode: "bounded (TNode ls p t ml mr)"

lemma merge_bounds:
  assumes "foldl (\<lambda>(ml, mr) c. (max ml (maxLiterals c), min mr (minRank c))) (a, b) cs = (ml, mr)"
  shows "a \<le> ml \<and> mr \<le> b \<and> (\<forall>c \<in> set cs. maxLiterals c \<le> ml \<and> mr \<le> minRank c)"
  using assms
proof (induction cs arbitrary: a b)
  case (Cons c cs)
  from Cons.IH [of "max a (maxLiterals c)" "min b (minRank c)"] Cons.prems show ?case by auto
qed simp

lemma boundedD:
  "bounded n \<Longrightarrow> tlookup n segs = Some t \<Longrightarrow> tt_literals t \<le> maxLiterals n \<and> minRank n \<le> entry_rank (tt_entry t)"
  by (erule bounded.cases) auto

lemma bounded_literal: "bounded n \<Longrightarrow> map_of (literals n) s = Some c \<Longrightarrow> bounded c"
  by (erule bounded.cases) auto

lemma bounded_param: "bounded n \<Longrightarrow> param n = Some c \<Longrightarrow> bounded c"
  by (erule bounded.cases) auto

lemma bounded_finalize: "bounded (finalize n)"
proof (induction n)
  case (TNode ls p t ml mr)
  let ?ls = "map (\<lambda>(s, c). (s, finalize c)) ls" and ?p = "map_option finalize p"
  let ?cs = "map snd ?ls @ (case ?p of None \<Rightarrow> [] | Some c \<Rightarrow> [c])"
  let ?start = "case t of None \<Rightarrow> (-1, MaxInt64) | Some tt \<Rightarrow> (tt_literals tt, entry_rank (tt_entry tt))"
  obtain a b where start: "?start = (a, b)" by (cases ?start)
  let ?F = "foldl (\<lambda>(ml, mr) c. (max ml (maxLiterals c), min mr (minRank c))) (a, b) ?cs"
  obtain m k where mk: "?F = (m, k)" by (cases ?F)
  have fin: "finalize (TNode ls p t ml mr) = TNode ?ls ?p t m k"
    by (simp only: finalize.simps Let_def start mk prod.case)
  note b = merge_bounds [OF mk]
  have kid: "bounded c \<and> maxLiterals c \<le> m \<and> k \<le> minRank c" if "map_of ?ls s = Some c" for s c
  proof -
    from that obtain c' where c: "(s, c') \<in> set ls" "c = finalize c'"
      by (auto simp: map_of_map dest: map_of_SomeD)
    then have "c \<in> set ?cs" by force
    with b TNode.IH(1) [of "(s, c')" c'] c show ?thesis by auto
  qed
  have par: "bounded c \<and> maxLiterals c \<le> m \<and> k \<le> minRank c" if "?p = Some c" for c
  proof -
    from that obtain c' where "p = Some c'" "c = finalize c'" by auto
    with b TNode.IH(2) that show ?thesis by auto
  qed
  have "tt_literals u \<le> m \<and> k \<le> entry_rank (tt_entry u)" if "tlookup (TNode ?ls ?p t m k) segs = Some u" for segs u
  proof (cases segs)
    case Nil
    with that start b show ?thesis by auto
  next
    case (Cons s ss)
    from that Cons obtain c where "tlookup c ss = Some u" "bounded c \<and> maxLiterals c \<le> m \<and> k \<le> minRank c"
      using kid par by (cases s) (auto simp del: option.map_sel split: option.splits)
    then show ?thesis using boundedD [of c ss u] by auto
  qed
  then show ?case
    unfolding fin by (intro bounded.intros) (use kid par in blast)+
qed

section \<open>Search\<close>

interpretation template_order: strict_weak betterThan
  by unfold_locales (auto simp: betterThan_def split: if_splits)

definition seg_matches :: "templateSegment \<Rightarrow> string \<Rightarrow> bool" where
  "seg_matches s x = (case s of Literal l \<Rightarrow> x = l | Param \<Rightarrow> x \<noteq> [])"

text \<open>The terminals of the templates that match a sequence of path segments.\<close>

definition hits :: "templateNode \<Rightarrow> string list \<Rightarrow> templateTerminal set" where
  "hits n xs = {t. \<exists>segs. tlookup n segs = Some t \<and> list_all2 seg_matches segs xs}"

definition is_best :: "templateTerminal option \<Rightarrow> templateTerminal set \<Rightarrow> bool" where
  "is_best r S = (case r of None \<Rightarrow> S = {} | Some t \<Rightarrow> t \<in> S \<and> (\<forall>u \<in> S. \<not> betterThan u t))"

lemma hits_Nil: "hits n [] = set_option (terminal n)"
  by (cases n) (auto simp: hits_def)

lemma hits_Cons:
  "hits n (x # xs) =
     (case map_of (literals n) x of None \<Rightarrow> {} | Some c \<Rightarrow> hits c xs) \<union>
     (case param n of None \<Rightarrow> {} | Some c \<Rightarrow> if x \<noteq> [] then hits c xs else {})"
proof (cases n)
  case (TNode ls p t' ml mr)
  have "t \<in> hits n (x # xs) \<longleftrightarrow>
      (\<exists>ss. tlookup n (Literal x # ss) = Some t \<and> list_all2 seg_matches ss xs) \<or>
      x \<noteq> [] \<and> (\<exists>ss. tlookup n (Param # ss) = Some t \<and> list_all2 seg_matches ss xs)" (is "?l \<longleftrightarrow> ?r") for t
  proof
    assume ?l
    then obtain s ss where "tlookup n (s # ss) = Some t" "seg_matches s x" "list_all2 seg_matches ss xs"
      by (auto simp: hits_def list_all2_Cons2)
    then show ?r by (cases s) (auto simp: seg_matches_def)
  next
    have "seg_matches (Literal x) x" "x \<noteq> [] \<Longrightarrow> seg_matches Param x" by (simp_all add: seg_matches_def)
    moreover assume ?r
    ultimately show ?l unfolding hits_def mem_Collect_eq list_all2_Cons2 by blast
  qed
  then show ?thesis
    unfolding hits_def TNode by (auto split: option.splits)
qed

lemma is_best_trans:
  assumes "is_best r (S \<union> set_option b)" and "is_best b B"
  shows "is_best r (S \<union> B)"
proof (cases b)
  case None
  with assms show ?thesis by (simp add: is_best_def)
next
  case (Some t)
  with assms(1) obtain u where u: "r = Some u" "u \<in> insert t S" "\<not> betterThan t u" "\<forall>v \<in> S. \<not> betterThan v u"
    by (cases r) (auto simp: is_best_def)
  from Some assms(2) have t: "t \<in> B" "\<forall>v \<in> B. \<not> betterThan v t" by (auto simp: is_best_def)
  have "\<not> betterThan v u" if "v \<in> B" for v
    using template_order.negtrans [of v t u] t(2) that u(3) by blast
  with u t(1) show ?thesis by (auto simp: is_best_def)
qed

text \<open>The segments a search that has reached position \<open>start\<close> still has to match.\<close>

definition rest_segments :: "string \<Rightarrow> nat \<Rightarrow> string list" where
  "rest_segments path start =
     (if start > length path then [] else split_byte (CHR ''/'') (drop start path))"

lemma rest_segments_step:
  assumes "start \<le> length path"
  shows "rest_segments path start =
     drop start (take (segment_end path start) path) # rest_segments path (segment_end path start + 1)"
proof (cases "index_byte (CHR ''/'') (drop start path)")
  case None
  with assms show ?thesis
    by (simp add: rest_segments_def segment_end_def split_byte_no_sep index_byte_None_iff [THEN iffD1])
next
  case (Some i)
  then obtain u v where uv: "drop start path = u @ CHR ''/'' # v" "CHR ''/'' \<notin> set u" "i = length u"
    by (auto simp: index_byte_split)
  have len: "length path = start + Suc (length u + length v)"
    using arg_cong [OF uv(1), of length] assms by simp
  have "drop start (take (i + start) path) = u"
    using uv by (simp add: drop_take)
  moreover have "drop (i + start + 1) path = v"
  proof -
    have "drop (i + start + 1) path = drop (Suc i) (drop start path)" by (simp add: add.commute)
    also have "\<dots> = v" unfolding uv by simp
    finally show ?thesis .
  qed
  ultimately show ?thesis
    using assms Some uv len by (simp add: rest_segments_def segment_end_def split_byte_append)
qed

text \<open>A subtree that cannot beat the best terminal so far holds none that would.\<close>

lemma cannot_beat:
  assumes "bounded n" "\<not> canBeat n best" "t \<in> hits n xs" "0 \<le> tt_literals t"
    and "\<forall>u \<in> hits n xs \<union> set_option best. tt_literals u + tt_params u = L"
  obtains b where "best = Some b" "\<not> betterThan t b"
proof -
  from assms(1,3) have b: "tt_literals t \<le> maxLiterals n" "minRank n \<le> entry_rank (tt_entry t)"
    by (auto simp: hits_def dest: boundedD)
  with assms(2,4) obtain c where c: "best = Some c" by (auto simp: canBeat_def split: option.splits)
  have "tt_literals t + tt_params t = tt_literals c + tt_params c" using assms(3,5) c by auto
  with b c assms(2,4) have "\<not> betterThan t c"
    by (auto simp: canBeat_def betterThan_def split: if_splits)
  with c that show ?thesis by blast
qed

lemma search_is_best:
  assumes "bounded n" and "\<forall>t \<in> hits n (rest_segments path start) \<union> set_option best.
      0 \<le> tt_literals t \<and> tt_literals t + tt_params t = L"
  shows "is_best (search n path start best) (hits n (rest_segments path start) \<union> set_option best)"
  using assms
proof (induction n path start best rule: search.induct)
  case (1 n path start best)
  let ?xs = "rest_segments path start"
  consider (prune) "\<not> canBeat n best" | (leaf) "canBeat n best" "start > length path"
    | (node) "canBeat n best" "start \<le> length path" by linarith
  then show ?case
  proof cases
    case prune
    have "is_best best (hits n ?xs \<union> set_option best)"
    proof (cases best)
      case None
      have False if "t \<in> hits n ?xs" for t
        by (rule cannot_beat [OF 1(3) prune that]) (use 1(4) that None in auto)
      with None show ?thesis by (auto simp: is_best_def)
    next
      case (Some b)
      have "\<not> betterThan t b" if "t \<in> hits n ?xs" for t
        by (rule cannot_beat [OF 1(3) prune that]) (use 1(4) that Some in auto)
      with Some show ?thesis using template_order.irrefl by (auto simp: is_best_def)
    qed
    with prune show ?thesis by (simp add: search.simps)
  next
    case leaf
    then show ?thesis
      using template_order.irrefl template_order.asym
      by (auto simp: search.simps [of n] rest_segments_def hits_Nil is_best_def split: option.splits)
  next
    case node
    define stop where "stop = segment_end path start"
    define x where "x = drop start (take stop path)"
    define ys where "ys = rest_segments path (stop + 1)"
    define best1 where "best1 = (case map_of (literals n) x of None \<Rightarrow> best | Some c \<Rightarrow> search c path (stop + 1) best)"
    define A where "A = (case map_of (literals n) x of None \<Rightarrow> {} | Some c \<Rightarrow> hits c ys)"
    define B where "B = (case param n of None \<Rightarrow> {} | Some c \<Rightarrow> if x \<noteq> [] then hits c ys else {})"
    have xs: "?xs = x # ys" using rest_segments_step [of start path] node by (simp add: x_def ys_def stop_def)
    have split: "hits n ?xs = A \<union> B" by (simp add: xs hits_Cons A_def B_def)
    have step: "search n path start best =
        (case param n of None \<Rightarrow> best1 | Some c \<Rightarrow> if x \<noteq> [] then search c path (stop + 1) best1 else best1)"
      unfolding best1_def x_def stop_def using node by (subst search.simps [of n path start best]) (simp add: Let_def)
    have best1: "is_best best1 (A \<union> set_option best)"
    proof (cases "map_of (literals n) x")
      case None
      then show ?thesis using template_order.irrefl by (cases best) (simp_all add: best1_def A_def is_best_def)
    next
      case (Some c)
      have "is_best (search c path (stop + 1) best) (hits c (rest_segments path (stop + 1)) \<union> set_option best)"
        by (rule 1(1) [OF _ _ stop_def x_def Some])
          (use node 1(4) Some bounded_literal [OF 1(3) Some] in \<open>auto simp: split A_def ys_def\<close>)
      with Some show ?thesis by (simp add: best1_def A_def ys_def)
    qed
    have "is_best (search n path start best) (B \<union> set_option best1)"
    proof (cases "\<exists>c. param n = Some c \<and> x \<noteq> []")
      case True
      then obtain c where c: "param n = Some c" "x \<noteq> []" by blast
      have "set_option best1 \<subseteq> A \<union> set_option best" using best1 by (auto simp: is_best_def split: option.splits)
      then have "\<forall>t \<in> hits c ys \<union> set_option best1. 0 \<le> tt_literals t \<and> tt_literals t + tt_params t = L"
        using 1(4) c by (auto simp: split B_def)
      then have "is_best (search c path (stop + 1) best1) (hits c ys \<union> set_option best1)"
        unfolding ys_def
        by (intro 1(2) [OF _ _ stop_def x_def
              best1_def c])
          (use node bounded_param [OF 1(3) c(1)] in auto)
      moreover have "search n path start best = search c path (stop + 1) best1"
        using c by (simp add: step)
      ultimately show ?thesis using c by (simp add: B_def)
    next
      case False
      then have "search n path start best = best1" "B = {}"
        by (auto simp: step B_def split: option.splits)
      then show ?thesis using template_order.irrefl by (cases best1) (simp_all add: is_best_def)
    qed
    from is_best_trans [OF this best1] show ?thesis by (simp add: split Un_ac)
  qed
qed

lemma tmatch_is_best:
  assumes "bounded n" and "\<And>segs t. tlookup n segs = Some t \<Longrightarrow>
      0 \<le> tt_literals t \<and> tt_literals t + tt_params t = int (length segs)"
  shows "is_best (tmatch n (CHR ''/'' # rest)) (hits n (split_byte (CHR ''/'') rest))"
proof -
  let ?xs = "split_byte (CHR ''/'') rest"
  have ok: "\<forall>t \<in> hits n ?xs. 0 \<le> tt_literals t \<and> tt_literals t + tt_params t = int (length ?xs)"
    using assms(2) by (auto simp: hits_def dest!: list_all2_lengthD)
  have xs: "rest_segments (CHR ''/'' # rest) 1 = ?xs" by (simp add: rest_segments_def)
  show ?thesis
  proof (cases "maxLiterals n < 0")
    case True
    have "hits n ?xs = {}"
      using ok boundedD [OF assms(1)] True by (force simp: hits_def)
    with True show ?thesis by (simp add: tmatch_def is_best_def)
  next
    case False
    with search_is_best [of n "CHR ''/'' # rest" 1 None "int (length ?xs)"] ok assms(1) show ?thesis
      by (simp add: tmatch_def xs [unfolded One_nat_def])
  qed
qed

end
