(* ===== verification/Site_Radix_Laws.thy ===== *)
theory Site_Radix_Laws
  imports Site_Matcher
begin

text \<open>
  The radix tree of prefix patterns: its invariant, what insertion makes of a lookup, and that
  the descent returns the entry of the longest stored prefix of a path.
\<close>

section \<open>Lookup in the radix tree\<close>

function rlookup :: "radixNode \<Rightarrow> string \<Rightarrow> ruleEntry option" where
  "rlookup (RNode l en ks) [] = en"
| "rlookup (RNode l en ks) (k # key) =
     (case map_of ks k of
        None \<Rightarrow> None
      | Some c \<Rightarrow> if has_prefix (k # key) (label c) then rlookup c (drop (length (label c)) (k # key)) else None)"
  by pat_completeness auto
termination
  by (relation "measure (\<lambda>(n, key). size n)") (auto dest: size_kid)

text \<open>Every child's label is not empty and starts with the byte it is indexed by; the index bytes are distinct.\<close>

fun radix_ok :: "radixNode \<Rightarrow> bool" where
  "radix_ok (RNode l en ks) \<longleftrightarrow>
     distinct (map fst ks) \<and> list_all (\<lambda>(k, c). label c \<noteq> [] \<and> hd (label c) = k \<and> radix_ok c) ks"

definition rplace :: "ruleEntry \<Rightarrow> ruleEntry option \<Rightarrow> ruleEntry option" where
  "rplace e old = (case old of None \<Rightarrow> Some e | Some o' \<Rightarrow> if entry_rank e < entry_rank o' then Some e else Some o')"

lemma commonPrefixLen_take: "take (commonPrefixLen a b) a = take (commonPrefixLen a b) b"
  by (induction a b rule: commonPrefixLen.induct) auto

lemma commonPrefixLen_le: "commonPrefixLen a b \<le> length a" "commonPrefixLen a b \<le> length b"
  by (induction a b rule: commonPrefixLen.induct) auto

lemma commonPrefixLen_differs:
  "commonPrefixLen a b < length a \<Longrightarrow> commonPrefixLen a b < length b \<Longrightarrow>
   a ! commonPrefixLen a b \<noteq> b ! commonPrefixLen a b"
  by (induction a b rule: commonPrefixLen.induct) auto

lemma radix_ok_kid: "radix_ok (RNode l en ks) \<Longrightarrow> map_of ks k = Some c \<Longrightarrow> label c \<noteq> [] \<and> hd (label c) = k \<and> radix_ok c"
  by (auto simp: list_all_iff dest: map_of_SomeD)

lemma radix_ok_label: "radix_ok (RNode l en ks) \<longleftrightarrow> radix_ok (RNode l' en' ks)"
  by simp

text \<open>Splitting a child keeps what the tree finds below it.\<close>

lemma rlookup_split:
  assumes "radix_ok c" "n \<le> length (label c)" "0 < n"
  shows "radix_ok (split_child n c)" "label (split_child n c) = take n (label c)"
    "(if has_prefix key (take n (label c)) then rlookup (split_child n c) (drop n key) else None) =
     (if has_prefix key (label c) then rlookup c (drop (length (label c)) key) else None)"
proof -
  obtain l en ks where c: "c = RNode l en ks" by (cases c)
  show "radix_ok (split_child n c)" "label (split_child n c) = take n (label c)"
    using assms by (auto simp: split_child_def c hd_drop_conv_nth)
  show "(if has_prefix key (take n (label c)) then rlookup (split_child n c) (drop n key) else None) =
     (if has_prefix key (label c) then rlookup c (drop (length (label c)) key) else None)"
  proof (cases "n < length l")
    case False
    with assms c show ?thesis by (simp add: split_child_def)
  next
    case True
    then have l: "l = take n l @ l ! n # drop (Suc n) l" by (simp add: id_take_nth_drop)
    show ?thesis
    proof (cases "has_prefix key (take n l)")
      case False
      then have "\<not> has_prefix key l" using l by (metis append_prefixD)
      with False show ?thesis by (simp add: c)
    next
      case pre: True
      then obtain rest where key: "key = take n l @ rest" by (auto elim: prefixE)
      have dl: "drop n l = l ! n # drop (Suc n) l" using True by (simp add: Cons_nth_drop_Suc)
      have nl: "length (take n l) = n" using True by simp
      have "has_prefix key l \<longleftrightarrow> has_prefix rest (drop n l)"
        unfolding key by (metis append_take_drop_id same_prefix_prefix)
      moreover have "drop (length l) key = drop (length l - n) rest" "drop n key = rest"
        unfolding key using nl True by simp_all
      moreover have "rlookup (split_child n c) rest =
          (if has_prefix rest (drop n l) then rlookup c (drop (length l - n) rest) else None)"
      proof (cases rest)
        case (Cons r rs)
        have "rlookup (RNode (drop n l) en ks) key' = rlookup c key'" for key'
          by (cases key') (simp_all add: c)
        moreover have "length l - n = Suc (length l - Suc n)" using True by simp
        ultimately show ?thesis using Cons True by (auto simp: split_child_def c dl)
      qed (use True in \<open>simp add: split_child_def c dl\<close>)
      ultimately show ?thesis using pre by (simp add: c)
    qed
  qed
qed

lemma list_all_update: "list_all P ks \<Longrightarrow> P (k, v) \<Longrightarrow> list_all P (AList.update k v ks)"
  by (induction ks) auto

section \<open>Insertion\<close>

lemma has_prefix_same:
  "n \<le> length key \<Longrightarrow> has_prefix key' (take n key) \<Longrightarrow> drop n key' = drop n key \<longleftrightarrow> key' = key"
  by (metis append_take_drop_id append_eq_conv_conj length_take min.absorb2 prefixE)

lemma rinsert_ok:
  assumes "radix_ok n"
  shows "radix_ok (rinsert n key e) \<and> label (rinsert n key e) = label n \<and>
     rlookup (rinsert n key e) key' = (if key' = key then rplace e (rlookup n key) else rlookup n key')"
  using assms
proof (induction n key e arbitrary: key' rule: rinsert.induct)
  case (1 l en ks e)
  then show ?case by (cases key') (auto simp: rplace_def split: option.splits)
next
  case (2 l en ks k key e)
  show ?case
  proof (cases "map_of ks k")
    case None
    then have "k \<notin> fst ` set ks" by (simp add: map_of_eq_None_iff)
    then have m: "map_of (ks @ [(k, d)]) k' = (if k' = k then Some d else map_of ks k')" for k' and d :: radixNode
      by (simp add: map_add_def None split: option.splits)
    have leaf: "(if has_prefix u key then rlookup (RNode (k # key) (Some e) []) (drop (length key) u) else None) =
        (if u = key then Some e else None)" for u
      by (cases "drop (length key) u") (auto elim!: prefixE)
    have "rlookup (rinsert (RNode l en ks) (k # key) e) key' =
        (if key' = k # key then rplace e (rlookup (RNode l en ks) (k # key)) else rlookup (RNode l en ks) key')"
    proof (cases key')
      case (Cons k' u)
      show ?thesis
      proof (cases "k' = k")
        case True
        with Cons None leaf [of u] show ?thesis by (auto simp: m rplace_def simp del: map_of_append split: if_splits)
      qed (simp add: Cons None m del: map_of_append)
    qed (simp add: None)
    with 2(2) None \<open>k \<notin> fst ` set ks\<close> show ?thesis by simp
  next
    case (Some c)
    define common where "common = commonPrefixLen (label c) (k # key)"
    define c' where "c' = split_child common c"
    define d where "d = rinsert c' (drop common (k # key)) e"
    from radix_ok_kid [OF 2(2) Some] have c: "label c \<noteq> []" "hd (label c) = k" "radix_ok c" by auto
    then have pos: "0 < common" using commonPrefixLen_0 [of "label c" k key] by (auto simp: common_def)
    have le: "common \<le> length (label c)" "common \<le> length (k # key)"
      unfolding common_def by (rule commonPrefixLen_le)+
    note split = rlookup_split [OF c(3) le(1) pos, folded c'_def]
    have tk: "take common (label c) = take common (k # key)"
      unfolding common_def by (rule commonPrefixLen_take)
    have d: "radix_ok d" "label d = take common (k # key)"
      "rlookup d u = (if u = drop common (k # key) then rplace e (rlookup c' u) else rlookup c' u)" for u
      using 2(1) [OF Some common_def] split(1,2) tk by (auto simp: d_def c'_def)
    have n: "rinsert (RNode l en ks) (k # key) e = RNode l en (AList.update k d ks)"
      using Some by (simp add: Let_def d_def c'_def common_def)
    have "hd (label d) = k" "label d \<noteq> []" using d(2) pos by (cases common; simp)+
    then have ok: "radix_ok (rinsert (RNode l en ks) (k # key) e)"
      using 2(2) d(1) unfolding n by (auto simp: distinct_update intro: list_all_update)
    have new: "rlookup (RNode l en (AList.update k d ks)) (k # u) =
        (if k # u = k # key then rplace e (rlookup (RNode l en ks) (k # key)) else rlookup (RNode l en ks) (k # u))" for u
    proof (cases "has_prefix (k # u) (take common (k # key))")
      case True
      have old: "rlookup c' (drop common (k # w)) = rlookup (RNode l en ks) (k # w)"
        if "has_prefix (k # w) (take common (k # key))" for w
        using split(3) [of "k # w"] that Some tk by (auto simp: le)
      have "rlookup (RNode l en (AList.update k d ks)) (k # u) = rlookup d (drop common (k # u))"
        using True d(2) le by (simp add: update_conv')
      also have "\<dots> = (if k # u = k # key then rplace e (rlookup (RNode l en ks) (k # key))
          else rlookup (RNode l en ks) (k # u))"
        using d(3) old [OF True] has_prefix_same [OF le(2) True] by (cases "u = key") (simp_all del: rlookup.simps)
      finally show ?thesis .
    next
      case False
      then have ne: "k # u \<noteq> k # key" by (metis take_is_prefix)
      have "\<not> has_prefix (k # u) (label c)"
        using False tk take_is_prefix [of common "label c"] prefix_order.trans by metis
      with False ne show ?thesis using Some d(2) by (simp add: update_conv')
    qed
    have "rlookup (rinsert (RNode l en ks) (k # key) e) key' =
        (if key' = k # key then rplace e (rlookup (RNode l en ks) (k # key)) else rlookup (RNode l en ks) key')"
    proof (cases key')
      case (Cons k' u)
      then show ?thesis
        using new [of u] unfolding n by (cases "k' = k") (simp_all add: update_conv')
    qed (simp add: n del: rinsert.simps)
    with ok show ?thesis by (simp add: n del: rinsert.simps rlookup.simps)
  qed
qed

section \<open>The longest prefix\<close>

lemma rlookup_child:
  assumes "map_of ks (hd path) = Some c" "has_prefix path (label c)" "path \<noteq> []" "label c \<noteq> []"
  shows "rlookup (RNode l en ks) (take i path) =
     (if i = 0 then en else if i < length (label c) then None
      else rlookup c (take (i - length (label c)) (drop (length (label c)) path)))"
proof (cases "i = 0")
  case False
  with assms(3) obtain k rest where p: "path = k # rest" "take i path = k # take (i - 1) rest"
    by (cases path; cases i) auto
  from assms(2) obtain v where v: "path = label c @ v" by (auto elim: prefixE)
  have "has_prefix (take i path) (label c) \<longleftrightarrow> length (label c) \<le> i"
  proof
    assume "has_prefix (take i path) (label c)"
    then show "length (label c) \<le> i" by (auto dest: prefix_length_le)
  qed (simp add: v)
  moreover have "drop (length (label c)) (k # take (i - 1) rest) =
      take (i - length (label c)) (drop (length (label c)) path)"
    unfolding p(2) [symmetric] by (rule drop_take)
  ultimately show ?thesis using False assms(1) p by auto
qed simp

lemma longest_loop_spec:
  assumes "radix_ok n"
  shows "(\<exists>i e. i \<le> length path \<and> rlookup n (take i path) = Some e \<and> longest_loop n path best = Some e \<and>
       (\<forall>j. i < j \<and> j \<le> length path \<longrightarrow> rlookup n (take j path) = None)) \<or>
     (longest_loop n path best = best \<and> (\<forall>j \<le> length path. rlookup n (take j path) = None))"
  using assms
proof (induction n path best rule: longest_loop.induct)
  case (1 l en ks path best)
  let ?n = "RNode l en ks"
  let ?best = "case en of None \<Rightarrow> best | Some e \<Rightarrow> Some e"
  show ?case
  proof (cases "path \<noteq> [] \<and> (\<exists>c. map_of ks (hd path) = Some c \<and> has_prefix path (label c))")
    case False
    have "rlookup ?n (take j path) = None" if j: "0 < j" "j \<le> length path" for j
    proof -
      obtain k rest where p: "path = k # rest" "take j path = k # take (j - 1) rest"
        using j by (cases path; cases j) auto
      have "\<not> has_prefix (take j path) (label c)" if "map_of ks k = Some c" for c
        using that False p(1) prefix_order.trans take_is_prefix by (metis list.distinct(1) list.sel(1))
      then show ?thesis using p by (auto split: option.splits)
    qed
    moreover have "longest_loop ?n path best = ?best"
      using False by (auto simp: longest_loop.simps [of l] Let_def split: option.splits)
    ultimately show ?thesis
      by (cases en) (auto intro!: exI [of _ 0], metis neq0_conv option.distinct(1) rlookup.simps(1) take_eq_Nil)
  next
    case True
    then obtain c where c: "map_of ks (hd path) = Some c" "has_prefix path (label c)" "path \<noteq> []" by blast
    from radix_ok_kid [OF 1(2) c(1)] have ok: "label c \<noteq> []" "radix_ok c" by auto
    let ?len = "length (label c)" and ?rest = "drop (length (label c)) path"
    have len: "?len \<le> length path" "0 < ?len" using c(2) ok by (auto dest: prefix_length_le)
    note child = rlookup_child [OF c ok(1), of l en]
    have run: "longest_loop ?n path best = longest_loop c ?rest ?best"
      using c by (simp add: longest_loop.simps [of l] Let_def)
    from 1(1) [OF refl c(3) c(1) _ ok(2)] c(2) consider
        (hit) i e where "i \<le> length ?rest" "rlookup c (take i ?rest) = Some e" "longest_loop c ?rest ?best = Some e"
          "\<forall>j. i < j \<and> j \<le> length ?rest \<longrightarrow> rlookup c (take j ?rest) = None"
      | (miss) "longest_loop c ?rest ?best = ?best" "\<forall>j \<le> length ?rest. rlookup c (take j ?rest) = None"
      by auto
    then show ?thesis
    proof cases
      case hit
      have "rlookup ?n (take j path) = None" if "?len + i < j" "j \<le> length path" for j
      proof -
        have "i < j - ?len \<and> j - ?len \<le> length ?rest" using that by auto
        with hit(4) have "rlookup c (take (j - ?len) ?rest) = None" by blast
        then show ?thesis using that len by (simp add: child)
      qed
      moreover have "rlookup ?n (take (?len + i) path) = Some e" using hit(2) len by (simp add: child)
      ultimately show ?thesis using hit(1,3) run len by (metis add_le_mono1 le_diff_conv2 length_drop add.commute)
    next
      case miss
      have none: "rlookup ?n (take j path) = None" if "0 < j" "j \<le> length path" for j
        using miss(2) that by (simp add: child)
      then show ?thesis
        using miss(1) run by (cases en) (auto intro!: exI [of _ 0], metis neq0_conv option.distinct(1) rlookup.simps(1) take_eq_Nil)
    qed
  qed
qed

lemma longest_spec:
  assumes "radix_ok n"
  shows "case longest n path of
       None \<Rightarrow> \<forall>i \<le> length path. rlookup n (take i path) = None
     | Some e \<Rightarrow> \<exists>i \<le> length path. rlookup n (take i path) = Some e \<and>
         (\<forall>j. i < j \<and> j \<le> length path \<longrightarrow> rlookup n (take j path) = None)"
  using longest_loop_spec [OF assms, of path None] by (auto simp: longest_def)

end
