(* ===== verification/Site_Matcher_Laws.thy ===== *)
theory Site_Matcher_Laws
  imports Site_Path_Laws Site_Template_Laws Site_Radix_Laws
begin

text \<open>
  The compiled matcher against the rule list it was built from: the ranks, what each structure holds
  after every added rule, and the equivalence of \<^verbatim>\<open>Match\<close> with the choice of the first matching
  rule in one precedence order.
\<close>

section \<open>Ranks\<close>

lemma rank_loop:
  "distinct xs \<Longrightarrow> \<forall>x \<in> set xs. x < length rs \<Longrightarrow>
   length (foldl (\<lambda>ranks (rank, idx). ranks[idx := int rank]) rs (enumerate m xs)) = length rs \<and>
   (\<forall>y. y \<notin> set xs \<longrightarrow> foldl (\<lambda>ranks (rank, idx). ranks[idx := int rank]) rs (enumerate m xs) ! y = rs ! y) \<and>
   (\<forall>k < length xs. foldl (\<lambda>ranks (rank, idx). ranks[idx := int rank]) rs (enumerate m xs) ! (xs ! k) = int (m + k))"
proof (induction xs arbitrary: rs m)
  case (Cons x xs)
  from Cons.IH [of "rs[x := int m]" "Suc m"] Cons.prems show ?case
    by (auto simp: nth_Cons split: nat.splits)
qed simp

lemma rank_order:
  assumes "i < length rules" "j < length rules"
  shows "rankRules rules ! i < rankRules rules ! j \<longleftrightarrow> rule_order rules i < rule_order rules j"
proof -
  let ?o = "sort_key (rule_order rules) [0..<length rules]"
  have rank: "rankRules rules ! (?o ! k) = int k" if "k < length ?o" for k
    using rank_loop [of ?o "replicate (length rules) 0" 0] that by (simp add: rankRules_def Let_def)
  have mono: "rule_order rules (?o ! a) < rule_order rules (?o ! b)" if "a < b" "b < length ?o" for a b
  proof -
    have "rule_order rules (?o ! a) \<le> rule_order rules (?o ! b)"
      using sorted_sort_key [of "rule_order rules" "[0..<length rules]"] that
      by (auto simp: sorted_iff_nth_mono)
    moreover have "?o ! a \<noteq> ?o ! b"
      using that by (simp add: nth_eq_iff_index_eq)
    ultimately show ?thesis by (auto simp: rule_order_def less_le)
  qed
  have "i \<in> set ?o" "j \<in> set ?o" using assms by auto
  then obtain a b where "a < length ?o" "b < length ?o" "i = ?o ! a" "j = ?o ! b"
    by (metis in_set_conv_nth)
  then show ?thesis
    using rank mono [of a b] mono [of b a] by (cases a b rule: linorder_cases) auto
qed

section \<open>The first rule of a list\<close>

lemma best_by_snoc:
  "best_by b (xs @ [x]) = Some (case best_by b xs of None \<Rightarrow> x | Some y \<Rightarrow> if b x y then x else y)"
proof -
  have "best_from b c (ys @ [x]) = (if b x (best_from b c ys) then x else best_from b c ys)" for c ys
    by (induction ys arbitrary: c) auto
  then show ?thesis by (cases xs) (simp_all add: best_by_def)
qed

lemma best_by_filter_Suc:
  "best_by b (filter P [0..<Suc k]) =
     (if P k then Some (case best_by b (filter P [0..<k]) of None \<Rightarrow> k | Some y \<Rightarrow> if b k y then k else y)
      else best_by b (filter P [0..<k]))"
  by (simp add: best_by_snoc)

definition before :: "int list \<Rightarrow> nat \<Rightarrow> nat \<Rightarrow> bool" where
  "before ranks i j \<longleftrightarrow> ranks ! i < ranks ! j"

interpretation rank_before: strict_weak "before ranks" for ranks
  by unfold_locales (auto simp: before_def)

definition pick :: "int list \<Rightarrow> nat \<Rightarrow> (nat \<Rightarrow> bool) \<Rightarrow> nat option" where
  "pick ranks k P = best_by (before ranks) (filter P [0..<k])"

lemma pick_0 [simp]: "pick ranks 0 P = None"
  by (simp add: pick_def best_by_def)

lemma pick_Suc:
  "pick ranks (Suc k) P =
     (if P k then Some (case pick ranks k P of None \<Rightarrow> k | Some y \<Rightarrow> if ranks ! k < ranks ! y then k else y)
      else pick ranks k P)"
  by (simp only: pick_def best_by_filter_Suc before_def)

lemma pick_None: "pick ranks k P = None \<longleftrightarrow> (\<forall>i < k. \<not> P i)"
  by (auto simp: pick_def filter_empty_conv)

lemma pick_Some: "pick ranks k P = Some i \<Longrightarrow> i < k \<and> P i \<and> (\<forall>j < k. P j \<longrightarrow> ranks ! i \<le> ranks ! j)"
  using best_by_in [of "before ranks" "filter P [0..<k]" i] rank_before.best_by_max [of ranks "filter P [0..<k]" i]
  by (auto simp: pick_def before_def not_less)

section \<open>What the structures hold\<close>

definition result_of :: "Rule \<Rightarrow> MatchResult" where
  "result_of r = \<lparr>mr_GroupID = rl_GroupID r, mr_GroupName = rl_GroupName r, mr_RuleID = rl_ID r,
     mr_Kind = rl_Kind r, mr_Default = False\<rparr>"

definition entry_of :: "Rule list \<Rightarrow> int list \<Rightarrow> nat \<Rightarrow> ruleEntry" where
  "entry_of rules ranks i = \<lparr>entry_result = result_of (rules ! i), entry_rank = ranks ! i\<rparr>"

definition rule_ok :: "libs \<Rightarrow> Rule \<Rightarrow> bool" where
  "rule_ok lib r \<longleftrightarrow> rl_GroupID r \<noteq> [] \<and> ValidatePattern lib (rl_Kind r) (rl_Pattern r) = None"

definition holds_exact :: "Rule list \<Rightarrow> int list \<Rightarrow> nat \<Rightarrow> (string \<rightharpoonup> ruleEntry) \<Rightarrow> bool" where
  "holds_exact rules ranks k f \<longleftrightarrow> (\<forall>p. f p = map_option (entry_of rules ranks)
     (pick ranks k (\<lambda>i. rl_Kind (rules ! i) = RuleExact \<and> rl_Pattern (rules ! i) = p)))"

definition holds_templates :: "Rule list \<Rightarrow> int list \<Rightarrow> nat \<Rightarrow> templateNode \<Rightarrow> bool" where
  "holds_templates rules ranks k n \<longleftrightarrow> (\<forall>segs. tlookup n segs = map_option (terminal_of segs \<circ> entry_of rules ranks)
     (pick ranks k (\<lambda>i. rl_Kind (rules ! i) = RuleTemplate \<and> parseTemplate (rl_Pattern (rules ! i)) = Inr segs)))"

definition holds_prefixes :: "Rule list \<Rightarrow> int list \<Rightarrow> nat \<Rightarrow> radixNode \<Rightarrow> bool" where
  "holds_prefixes rules ranks k n \<longleftrightarrow> radix_ok n \<and> (\<forall>key. rlookup n key = map_option (entry_of rules ranks)
     (pick ranks k (\<lambda>i. rl_Kind (rules ! i) = RulePrefix \<and> rl_Pattern (rules ! i) = key)))"

definition holds_regexes :: "libs \<Rightarrow> Rule list \<Rightarrow> int list \<Rightarrow> nat \<Rightarrow> regexEntry list \<Rightarrow> bool" where
  "holds_regexes lib rules ranks k rs \<longleftrightarrow> rs =
     map (\<lambda>i. \<lparr>rx_re = projr (compileRegex lib (rl_Pattern (rules ! i))), rx_entry = entry_of rules ranks i\<rparr>)
       (filter (\<lambda>i. rl_Kind (rules ! i) = RuleRegex) [0..<k])"

definition holds :: "libs \<Rightarrow> Rule list \<Rightarrow> int list \<Rightarrow> nat \<Rightarrow> Matcher \<Rightarrow> bool" where
  "holds lib rules ranks k m \<longleftrightarrow> holds_exact rules ranks k (m_exact m) \<and> holds_templates rules ranks k (m_templates m) \<and>
     holds_prefixes rules ranks k (m_prefixes m) \<and> holds_regexes lib rules ranks k (m_regexes m)"

lemmas holds_defs = holds_exact_def holds_templates_def holds_prefixes_def holds_regexes_def

lemma entry_rank_of [simp]: "entry_rank (entry_of rules ranks i) = ranks ! i"
  by (simp add: entry_of_def)

lemma holds_skip:
  "rl_Kind (rules ! k) \<noteq> RuleExact \<Longrightarrow> holds_exact rules ranks k f \<Longrightarrow> holds_exact rules ranks (Suc k) f"
  "rl_Kind (rules ! k) \<noteq> RuleTemplate \<Longrightarrow> holds_templates rules ranks k n \<Longrightarrow> holds_templates rules ranks (Suc k) n"
  "rl_Kind (rules ! k) \<noteq> RulePrefix \<Longrightarrow> holds_prefixes rules ranks k t \<Longrightarrow> holds_prefixes rules ranks (Suc k) t"
  "rl_Kind (rules ! k) \<noteq> RuleRegex \<Longrightarrow> holds_regexes lib rules ranks k rs \<Longrightarrow> holds_regexes lib rules ranks (Suc k) rs"
  by (simp_all add: holds_defs pick_Suc)

lemma rlookup_empty: "rlookup (RNode l None []) key = None"
  by (cases key) simp_all

lemma holds_new: "holds lib rules ranks 0 (newMatcher d n)"
  by (simp add: holds_def holds_defs newMatcher_def rlookup_empty)

lemma terminal_better:
  "betterThan (terminal_of segs e) (terminal_of segs e') \<longleftrightarrow> entry_rank e < entry_rank e'"
  by (simp add: betterThan_def terminal_of_def)

lemma add_holds:
  assumes "holds lib rules ranks k m" and "add lib (rules ! k) (entry_of rules ranks k) m = Inr m'"
  shows "holds lib rules ranks (Suc k) m' \<and> m_fallback m' = m_fallback m \<and> m_size m' = m_size m \<and>
     ValidatePattern lib (rl_Kind (rules ! k)) (rl_Pattern (rules ! k)) = None"
proof -
  let ?r = "rules ! k" and ?e = "entry_of rules ranks k"
  note h = assms(1) [unfolded holds_def]
  consider (exact) "rl_Kind ?r = RuleExact" | (template) "rl_Kind ?r = RuleTemplate"
    | (prefix) "rl_Kind ?r = RulePrefix" | (regex) "rl_Kind ?r = RuleRegex"
    | (other) "rl_Kind ?r \<notin> {RuleExact, RuleTemplate, RulePrefix, RuleRegex}" by blast
  then show ?thesis
  proof cases
    case exact
    then have v: "validatePathPattern (rl_Pattern ?r) = None"
      and m': "m' = (case m_exact m (rl_Pattern ?r) of
             None \<Rightarrow> m\<lparr>m_exact := (m_exact m)(rl_Pattern ?r \<mapsto> ?e)\<rparr>
           | Some prev \<Rightarrow> if entry_rank ?e < entry_rank prev
               then m\<lparr>m_exact := (m_exact m)(rl_Pattern ?r \<mapsto> ?e)\<rparr> else m)"
      using assms(2) by (auto simp: add_def split: option.splits if_splits)
    have "holds_exact rules ranks (Suc k) (m_exact m')"
      using h exact by (auto simp: m' holds_exact_def pick_Suc split: option.splits)
    moreover have "m_templates m' = m_templates m" "m_prefixes m' = m_prefixes m" "m_regexes m' = m_regexes m"
      "m_fallback m' = m_fallback m" "m_size m' = m_size m" by (simp_all add: m' split: option.splits)
    ultimately show ?thesis using h exact v by (simp add: holds_def holds_skip ValidatePattern_def)
  next
    case template
    then obtain segs where v: "parseTemplate (rl_Pattern ?r) = Inr segs"
      and m': "m' = m\<lparr>m_templates := tinsert segs ?e (m_templates m)\<rparr>"
      using assms(2) by (auto simp: add_def split: sum.splits)
    have "holds_templates rules ranks (Suc k) (m_templates m')"
      using h template v
      by (auto simp: m' holds_templates_def tlookup_insert pick_Suc place_terminal_def terminal_better split: option.splits)
    then show ?thesis using h template v by (simp add: m' holds_def holds_skip ValidatePattern_def)
  next
    case prefix
    then have v: "validatePathPattern (rl_Pattern ?r) = None"
      and m': "m' = m\<lparr>m_prefixes := rinsert (m_prefixes m) (rl_Pattern ?r) ?e\<rparr>"
      using assms(2) by (simp_all add: add_def split: option.splits)
    have "radix_ok (m_prefixes m)" using h by (simp add: holds_prefixes_def)
    then have "holds_prefixes rules ranks (Suc k) (m_prefixes m')"
      using h prefix rinsert_ok [of "m_prefixes m" "rl_Pattern ?r" ?e]
      by (auto simp: m' holds_prefixes_def pick_Suc rplace_def split: option.splits)
    then show ?thesis using h prefix v by (simp add: m' holds_def holds_skip ValidatePattern_def)
  next
    case regex
    then obtain re where v: "compileRegex lib (rl_Pattern ?r) = Inr re"
      and m': "m' = m\<lparr>m_regexes := m_regexes m @ [\<lparr>rx_re = re, rx_entry = ?e\<rparr>]\<rparr>"
      using assms(2) by (auto simp: add_def split: sum.splits)
    have "holds_regexes lib rules ranks (Suc k) (m_regexes m')"
      using h regex v by (simp add: m' holds_regexes_def)
    then show ?thesis using h regex v by (simp add: m' holds_def holds_skip ValidatePattern_def)
  next
    case other
    then have "ValidatePattern lib (rl_Kind ?r) (rl_Pattern ?r) \<noteq> None" by (simp add: ValidatePattern_def)
    with other assms(2) show ?thesis by (auto simp: add_def split: option.splits)
  qed
qed

lemma add_error:
  "ValidatePattern lib (rl_Kind r) (rl_Pattern r) = Some err \<Longrightarrow> add lib r e m = Inl err"
  by (auto simp: ValidatePattern_def add_def split: if_splits option.splits sum.splits)

lemma add_ok:
  "ValidatePattern lib (rl_Kind r) (rl_Pattern r) = None \<Longrightarrow> \<exists>m'. add lib r e m = Inr m'"
  by (auto simp: ValidatePattern_def add_def split: if_splits option.splits sum.splits)

definition rule_failure :: "libs \<Rightarrow> nat \<Rightarrow> Rule \<Rightarrow> gerror" where
  "rule_failure lib i r = ruleError lib i r
     (if rl_GroupID r = [] then patternInvalid (msg ''endpoint group id is empty'')
      else the (ValidatePattern lib (rl_Kind r) (rl_Pattern r)))"

lemma add_rules_bad: "\<not> rule_ok lib r \<Longrightarrow> add_rules lib ranks k (r # rs) m = Inl (rule_failure lib k r)"
  using add_error [of lib r] by (auto simp: rule_ok_def rule_failure_def Let_def)

lemma add_rules_good:
  assumes "rule_ok lib (rules ! k)"
  obtains m' where "add lib (rules ! k) (entry_of rules ranks k) m = Inr m'"
    and "\<And>rs. add_rules lib ranks k (rules ! k # rs) m = add_rules lib ranks (Suc k) rs m'"
proof -
  from add_ok [of lib "rules ! k" "entry_of rules ranks k" m] assms
  obtain m' where "add lib (rules ! k) (entry_of rules ranks k) m = Inr m'" by (auto simp: rule_ok_def)
  with assms that show ?thesis by (simp add: rule_ok_def entry_of_def result_of_def)
qed

lemma add_rules_holds:
  "holds lib rules ranks k m \<Longrightarrow> rs = drop k rules \<Longrightarrow> list_all (rule_ok lib) rs \<Longrightarrow>
   \<exists>m'. add_rules lib ranks k rs m = Inr m' \<and> holds lib rules ranks (k + length rs) m' \<and>
     m_fallback m' = m_fallback m \<and> m_size m' = m_size m"
proof (induction rs arbitrary: k m)
  case (Cons r rs)
  then have "k < length rules" by (metis drop_all list.distinct(1) not_less)
  then have r: "r = rules ! k" "rs = drop (Suc k) rules"
    using Cons.prems(2) by (simp_all add: Cons_nth_drop_Suc [symmetric])
  from Cons.prems(3) r have "rule_ok lib (rules ! k)" by simp
  then obtain m' where m': "add lib (rules ! k) (entry_of rules ranks k) m = Inr m'"
    "add_rules lib ranks k (rules ! k # rs) m = add_rules lib ranks (Suc k) rs m'"
    using add_rules_good by blast
  have "holds lib rules ranks (Suc k) m'" "m_fallback m' = m_fallback m" "m_size m' = m_size m"
    using add_holds [OF Cons.prems(1) m'(1)] by auto
  with Cons.IH [OF _ r(2), of m'] Cons.prems(3) m'(2) r(1) show ?case by auto
qed simp

lemma add_rules_fails:
  "rs = drop k rules \<Longrightarrow> \<not> list_all (rule_ok lib) rs \<Longrightarrow>
   \<exists>i < length rs. list_all (rule_ok lib) (take i rs) \<and> \<not> rule_ok lib (rs ! i) \<and>
     add_rules lib ranks k rs m = Inl (rule_failure lib (k + i) (rs ! i))"
proof (induction rs arbitrary: k m)
  case (Cons r rs)
  then have "k < length rules" by (metis drop_all list.distinct(1) not_less)
  then have r: "r = rules ! k" "rs = drop (Suc k) rules"
    using Cons.prems(1) by (simp_all add: Cons_nth_drop_Suc [symmetric])
  show ?case
  proof (cases "rule_ok lib r")
    case False
    then show ?thesis by (intro exI [of _ 0]) (simp add: add_rules_bad del: add_rules.simps)
  next
    case True
    with r obtain m' where m': "add_rules lib ranks k (rules ! k # rs) m = add_rules lib ranks (Suc k) rs m'"
      using add_rules_good by metis
    from Cons.IH [OF r(2), of m'] Cons.prems(2) True
    obtain i where "i < length rs" "list_all (rule_ok lib) (take i rs)" "\<not> rule_ok lib (rs ! i)"
      "add_rules lib ranks (Suc k) rs m' = Inl (rule_failure lib (Suc k + i) (rs ! i))" by auto
    with m' r(1) True show ?thesis by (intro exI [of _ "Suc i"]) simp
  qed
qed simp

section \<open>Which rule wins\<close>

definition kind_rank :: "string \<Rightarrow> int" where
  "kind_rank k = (if k = RuleExact then 0 else if k = RuleTemplate then 1 else if k = RulePrefix then 2 else 3)"

definition specificity :: "Rule \<Rightarrow> int" where
  "specificity r =
     (if rl_Kind r = RuleTemplate then nlits (projr (parseTemplate (rl_Pattern r)))
      else if rl_Kind r = RulePrefix then int (length (rl_Pattern r)) else 0)"

definition precedence :: "Rule list \<Rightarrow> nat \<Rightarrow> int \<times> int \<times> int \<times> string \<times> nat" where
  "precedence rules i =
     (kind_rank (rl_Kind (rules ! i)), - specificity (rules ! i), rule_order rules i)"

definition rule_matches :: "libs \<Rightarrow> string \<Rightarrow> Rule \<Rightarrow> bool" where
  "rule_matches lib path r =
     (if rl_Kind r = RuleExact then rl_Pattern r = path
      else if rl_Kind r = RuleTemplate then
        path \<noteq> [] \<and> hd path = CHR ''/'' \<and>
        list_all2 seg_matches (projr (parseTemplate (rl_Pattern r))) (split_byte (CHR ''/'') (tl path))
      else if rl_Kind r = RulePrefix then has_prefix path (rl_Pattern r)
      else projr (compileRegex lib (rl_Pattern r)) path)"

interpretation precedence_order: strict_weak "\<lambda>i j. precedence rules i < precedence rules j" for rules
  by unfold_locales auto

definition winner :: "libs \<Rightarrow> Rule list \<Rightarrow> string \<Rightarrow> nat option" where
  "winner lib rules path =
     best_by (\<lambda>i j. precedence rules i < precedence rules j)
       (filter (\<lambda>i. rule_matches lib path (rules ! i)) [0..<length rules])"

lemma winner_None: "winner lib rules path = None \<longleftrightarrow> (\<forall>i < length rules. \<not> rule_matches lib path (rules ! i))"
  by (auto simp: winner_def filter_empty_conv)

lemma winnerI:
  assumes "i < length rules" "rule_matches lib path (rules ! i)"
    and "\<And>j. j < length rules \<Longrightarrow> rule_matches lib path (rules ! j) \<Longrightarrow> precedence rules i \<le> precedence rules j"
  shows "winner lib rules path = Some i"
proof -
  let ?c = "filter (\<lambda>i. rule_matches lib path (rules ! i)) [0..<length rules]"
  have i: "i \<in> set ?c" using assms by simp
  from assms(1,2) have "winner lib rules path \<noteq> None" unfolding winner_None by blast
  then obtain k where k: "winner lib rules path = Some k" by blast
  have "k \<in> set ?c" using best_by_in k by (fastforce simp: winner_def)
  moreover have "\<not> precedence rules i < precedence rules k"
    using precedence_order.best_by_max [of rules ?c k i] k i by (simp add: winner_def)
  ultimately have "precedence rules i = precedence rules k" using assms(3) [of k] by (auto simp: not_less)
  then show ?thesis using k by (simp add: precedence_def rule_order_def)
qed

text \<open>The kinds a rule list of a matcher can have, once its rules are valid.\<close>

lemma rule_ok_kind: "rule_ok lib r \<Longrightarrow> rl_Kind r \<in> {RuleExact, RuleTemplate, RulePrefix, RuleRegex}"
  by (auto simp: rule_ok_def ValidatePattern_def split: if_splits)

lemma precedence_le:
  assumes "i < length rules" "j < length rules"
    and "kind_rank (rl_Kind (rules ! i)) < kind_rank (rl_Kind (rules ! j)) \<or>
      kind_rank (rl_Kind (rules ! i)) = kind_rank (rl_Kind (rules ! j)) \<and>
      (specificity (rules ! j) < specificity (rules ! i) \<or>
       specificity (rules ! i) = specificity (rules ! j) \<and> rankRules rules ! i \<le> rankRules rules ! j)"
  shows "precedence rules i \<le> precedence rules j"
  using assms rank_order [OF assms(2,1)] by (auto simp: precedence_def not_less less_eq_prod_def)

lemma exact_wins:
  assumes "holds_exact rules (rankRules rules) (length rules) f" "f path = Some e"
  shows "\<exists>i. winner lib rules path = Some i \<and> entry_result e = result_of (rules ! i)"
proof -
  from assms obtain i where i: "pick (rankRules rules) (length rules)
      (\<lambda>i. rl_Kind (rules ! i) = RuleExact \<and> rl_Pattern (rules ! i) = path) = Some i"
    "e = entry_of rules (rankRules rules) i" by (auto simp: holds_exact_def)
  note p = pick_Some [OF i(1)]
  have "winner lib rules path = Some i"
  proof (rule winnerI)
    fix j assume j: "j < length rules" "rule_matches lib path (rules ! j)"
    with p show "precedence rules i \<le> precedence rules j"
      by (intro precedence_le) (auto simp: kind_rank_def rule_matches_def specificity_def)
  qed (use p in \<open>auto simp: rule_matches_def\<close>)
  with i(2) show ?thesis by (simp add: entry_of_def)
qed

lemma exact_none:
  assumes "holds_exact rules (rankRules rules) (length rules) f" "f path = None"
    and "j < length rules" "rule_matches lib path (rules ! j)"
  shows "rl_Kind (rules ! j) \<noteq> RuleExact"
proof
  assume k: "rl_Kind (rules ! j) = RuleExact"
  with assms(1,2) have "\<forall>i < length rules. \<not> (rl_Kind (rules ! i) = RuleExact \<and> rl_Pattern (rules ! i) = path)"
    by (simp add: holds_exact_def pick_None)
  with assms(3,4) k show False by (simp add: rule_matches_def)
qed

lemma terminal_of_sizes:
  "0 \<le> tt_literals (terminal_of segs e)" "tt_literals (terminal_of segs e) + tt_params (terminal_of segs e) = int (length segs)"
  by (simp_all add: terminal_of_def nlits_def)

lemma holds_templates_hit:
  assumes "holds_templates rules ranks k n" "tlookup n segs = Some t"
  obtains i where "t = terminal_of segs (entry_of rules ranks i)" "i < k" "rl_Kind (rules ! i) = RuleTemplate"
    "parseTemplate (rl_Pattern (rules ! i)) = Inr segs"
    "\<And>j. j < k \<Longrightarrow> rl_Kind (rules ! j) = RuleTemplate \<Longrightarrow> parseTemplate (rl_Pattern (rules ! j)) = Inr segs \<Longrightarrow>
       ranks ! i \<le> ranks ! j"
proof -
  from assms obtain i where i: "pick ranks k (\<lambda>i. rl_Kind (rules ! i) = RuleTemplate \<and>
      parseTemplate (rl_Pattern (rules ! i)) = Inr segs) = Some i" "t = terminal_of segs (entry_of rules ranks i)"
    by (auto simp: holds_templates_def)
  from pick_Some [OF i(1)] i(2) that show ?thesis by blast
qed

lemma holds_templates_tmatch:
  assumes "holds_templates rules ranks k n" "bounded n"
  shows "is_best (tmatch n (CHR ''/'' # rest)) (hits n (split_byte (CHR ''/'') rest))"
  using assms(2)
proof (rule tmatch_is_best)
  fix segs t assume "tlookup n segs = Some t"
  with assms(1) show "0 \<le> tt_literals t \<and> tt_literals t + tt_params t = int (length segs)"
    using holds_templates_hit [of rules ranks k n segs t] terminal_of_sizes by metis
qed

lemma template_candidate:
  assumes "rule_ok lib r" "rl_Kind r = RuleTemplate" "rule_matches lib path r"
  obtains segs rest where "parseTemplate (rl_Pattern r) = Inr segs" "path = CHR ''/'' # rest"
    "list_all2 seg_matches segs (split_byte (CHR ''/'') rest)" "specificity r = nlits segs"
proof -
  from assms obtain segs where "parseTemplate (rl_Pattern r) = Inr segs"
    by (auto simp: rule_ok_def ValidatePattern_def split: sum.splits)
  with assms that show ?thesis by (cases path) (auto simp: rule_matches_def specificity_def)
qed

text \<open>A template rule that matches leaves a terminal among the hits, of a rule that is at least as early.\<close>

lemma template_hit:
  assumes "holds_templates rules ranks k n" "j < k" "rl_Kind (rules ! j) = RuleTemplate"
    and "parseTemplate (rl_Pattern (rules ! j)) = Inr segs" "list_all2 seg_matches segs xs"
  obtains i where "terminal_of segs (entry_of rules ranks i) \<in> hits n xs" "ranks ! i \<le> ranks ! j"
proof -
  have "pick ranks k (\<lambda>i. rl_Kind (rules ! i) = RuleTemplate \<and> parseTemplate (rl_Pattern (rules ! i)) = Inr segs) \<noteq> None"
    using assms(2-4) unfolding pick_None by blast
  with assms(1) obtain t where t: "tlookup n segs = Some t" by (fastforce simp: holds_templates_def)
  from holds_templates_hit [OF assms(1) t] assms(2-4) obtain i
    where "t = terminal_of segs (entry_of rules ranks i)" "ranks ! i \<le> ranks ! j" by metis
  with that assms(5) t show ?thesis by (auto simp: hits_def)
qed

lemma template_none:
  assumes "holds_templates rules ranks (length rules) n" "bounded n" "list_all (rule_ok lib) rules"
    and "tmatch n path = None" "j < length rules" "rule_matches lib path (rules ! j)"
  shows "rl_Kind (rules ! j) \<noteq> RuleTemplate"
proof
  assume k: "rl_Kind (rules ! j) = RuleTemplate"
  from assms(3,5) have "rule_ok lib (rules ! j)" by (simp add: list_all_length)
  from template_candidate [OF this k assms(6)] obtain segs rest where c: "parseTemplate (rl_Pattern (rules ! j)) = Inr segs"
    "path = CHR ''/'' # rest" "list_all2 seg_matches segs (split_byte (CHR ''/'') rest)" by blast
  from template_hit [OF assms(1,5) k c(1,3)] have "hits n (split_byte (CHR ''/'') rest) \<noteq> {}" by blast
  with holds_templates_tmatch [OF assms(1,2), of rest] assms(4) c(2) show False by (simp add: is_best_def)
qed

lemma terminal_not_better:
  assumes "\<not> betterThan (terminal_of segs e) (terminal_of segs' e')" "length segs = length segs'"
  shows "nlits segs < nlits segs' \<or> nlits segs = nlits segs' \<and> entry_rank e' \<le> entry_rank e"
  using assms by (auto simp: betterThan_def terminal_of_def split: if_splits)

lemma template_wins:
  assumes h: "holds_templates rules (rankRules rules) (length rules) n" "bounded n" "list_all (rule_ok lib) rules"
    and none: "\<And>j. j < length rules \<Longrightarrow> rule_matches lib path (rules ! j) \<Longrightarrow> rl_Kind (rules ! j) \<noteq> RuleExact"
    and t: "tmatch n path = Some t"
  shows "\<exists>i. winner lib rules path = Some i \<and> entry_result (tt_entry t) = result_of (rules ! i)"
proof -
  from t obtain rest where path: "path = CHR ''/'' # rest" by (cases path) (auto simp: tmatch_def split: if_splits)
  let ?xs = "split_byte (CHR ''/'') rest"
  from holds_templates_tmatch [OF h(1,2), of rest] t path
  have best: "t \<in> hits n ?xs" "\<And>u. u \<in> hits n ?xs \<Longrightarrow> \<not> betterThan u t" by (auto simp: is_best_def)
  then obtain segs where segs: "tlookup n segs = Some t" "list_all2 seg_matches segs ?xs" by (auto simp: hits_def)
  from holds_templates_hit [OF h(1) segs(1)] obtain i where
    i: "t = terminal_of segs (entry_of rules (rankRules rules) i)" "i < length rules"
      "rl_Kind (rules ! i) = RuleTemplate" "parseTemplate (rl_Pattern (rules ! i)) = Inr segs" by metis
  have "winner lib rules path = Some i"
  proof (rule winnerI)
    show "rule_matches lib path (rules ! i)" using i segs(2) path by (simp add: rule_matches_def)
    fix j assume j: "j < length rules" "rule_matches lib path (rules ! j)"
    show "precedence rules i \<le> precedence rules j"
    proof (cases "rl_Kind (rules ! j) = RuleTemplate")
      case False
      with i(2,3) j none [OF j] show ?thesis by (intro precedence_le) (auto simp: kind_rank_def)
    next
      case k: True
      from h(3) j(1) have "rule_ok lib (rules ! j)" by (simp add: list_all_length)
      from template_candidate [OF this k j(2)] path obtain ss where c: "parseTemplate (rl_Pattern (rules ! j)) = Inr ss"
        "list_all2 seg_matches ss ?xs" "specificity (rules ! j) = nlits ss" by (metis list.inject)
      from template_hit [OF h(1) j(1) k c(1,2)] obtain j' where
        j': "terminal_of ss (entry_of rules (rankRules rules) j') \<in> hits n ?xs" "rankRules rules ! j' \<le> rankRules rules ! j"
        by blast
      have "length ss = length segs" using list_all2_lengthD [OF c(2)] list_all2_lengthD [OF segs(2)] by simp
      with best(2) [OF j'(1)] have "nlits ss < nlits segs \<or> nlits ss = nlits segs \<and> rankRules rules ! i \<le> rankRules rules ! j'"
        unfolding i(1) by (auto dest: terminal_not_better)
      then show ?thesis
        using i(2-4) j(1) k c(3) j'(2) by (intro precedence_le) (auto simp: specificity_def kind_rank_def)
    qed
  qed (rule i(2))
  with i(1) show ?thesis by (simp add: terminal_of_def entry_of_def)
qed

text \<open>Prefixes and regular expressions.\<close>

lemma prefix_hit:
  assumes "holds_prefixes rules ranks k n" "j < k" "rl_Kind (rules ! j) = RulePrefix"
  obtains i where "rlookup n (rl_Pattern (rules ! j)) = Some (entry_of rules ranks i)" "ranks ! i \<le> ranks ! j"
proof -
  let ?P = "\<lambda>i. rl_Kind (rules ! i) = RulePrefix \<and> rl_Pattern (rules ! i) = rl_Pattern (rules ! j)"
  have "pick ranks k ?P \<noteq> None" using assms(2,3) unfolding pick_None by blast
  then obtain i where i: "pick ranks k ?P = Some i" by blast
  with assms pick_Some [OF i] that show ?thesis by (auto simp: holds_prefixes_def)
qed

lemma prefix_none:
  assumes "holds_prefixes rules ranks (length rules) n" "longest n path = None"
    and "j < length rules" "rule_matches lib path (rules ! j)"
  shows "rl_Kind (rules ! j) \<noteq> RulePrefix"
proof
  assume k: "rl_Kind (rules ! j) = RulePrefix"
  then have "has_prefix path (rl_Pattern (rules ! j))" using assms(4) by (simp add: rule_matches_def)
  then obtain i where i: "i \<le> length path" "rl_Pattern (rules ! j) = take i path"
    by (metis append_eq_conv_conj prefixE prefix_length_le)
  from assms(1) have "radix_ok n" by (simp add: holds_prefixes_def)
  from longest_spec [OF this, of path] assms(2) i have "rlookup n (rl_Pattern (rules ! j)) = None" by simp
  with prefix_hit [OF assms(1,3) k] show False by auto
qed

lemma prefix_wins:
  assumes h: "holds_prefixes rules (rankRules rules) (length rules) n" "list_all (rule_ok lib) rules"
    and none: "\<And>j. j < length rules \<Longrightarrow> rule_matches lib path (rules ! j) \<Longrightarrow> rl_Kind (rules ! j) \<noteq> RuleExact"
      "\<And>j. j < length rules \<Longrightarrow> rule_matches lib path (rules ! j) \<Longrightarrow> rl_Kind (rules ! j) \<noteq> RuleTemplate"
    and e: "longest n path = Some e"
  shows "\<exists>i. winner lib rules path = Some i \<and> entry_result e = result_of (rules ! i)"
proof -
  from h(1) have "radix_ok n" by (simp add: holds_prefixes_def)
  from longest_spec [OF this, of path] e obtain l where l: "l \<le> length path" "rlookup n (take l path) = Some e"
    "\<And>j. l < j \<Longrightarrow> j \<le> length path \<Longrightarrow> rlookup n (take j path) = None" by auto
  from h(1) l(2) obtain i where i: "pick (rankRules rules) (length rules)
      (\<lambda>i. rl_Kind (rules ! i) = RulePrefix \<and> rl_Pattern (rules ! i) = take l path) = Some i"
    "e = entry_of rules (rankRules rules) i" by (auto simp: holds_prefixes_def)
  note p = pick_Some [OF i(1)]
  have "winner lib rules path = Some i"
  proof (rule winnerI)
    show "rule_matches lib path (rules ! i)" using p by (simp add: rule_matches_def take_is_prefix)
    fix j assume j: "j < length rules" "rule_matches lib path (rules ! j)"
    show "precedence rules i \<le> precedence rules j"
    proof (cases "rl_Kind (rules ! j) = RulePrefix")
      case False
      with p j none [OF j] show ?thesis by (intro precedence_le) (auto simp: kind_rank_def)
    next
      case k: True
      then have pre: "has_prefix path (rl_Pattern (rules ! j))" using j(2) by (simp add: rule_matches_def)
      then have tk: "rl_Pattern (rules ! j) = take (length (rl_Pattern (rules ! j))) path"
        by (metis append_eq_conv_conj prefixE)
      have "length (rl_Pattern (rules ! j)) \<le> l"
        using l(3) [of "length (rl_Pattern (rules ! j))"] prefix_length_le [OF pre] tk prefix_hit [OF h(1) j(1) k]
        by (metis leI option.distinct(1))
      moreover have "rankRules rules ! i \<le> rankRules rules ! j" if "length (rl_Pattern (rules ! j)) = l"
        using p j(1) k that tk by auto
      ultimately show ?thesis
        using p j(1) k l(1) by (intro precedence_le) (auto simp: specificity_def kind_rank_def)
    qed
  qed (use p in simp)
  with i(2) show ?thesis by (simp add: entry_of_def)
qed

lemma find_sorted:
  assumes "find P (sort_key f xs) = Some x"
  shows "x \<in> set xs \<and> P x \<and> (\<forall>y \<in> set xs. P y \<longrightarrow> f x \<le> f y)"
proof -
  from assms obtain i where i: "i < length (sort_key f xs)" "P (sort_key f xs ! i)" "x = sort_key f xs ! i"
    "\<forall>j < i. \<not> P (sort_key f xs ! j)" by (auto simp: find_Some_iff)
  have "f x \<le> f y" if "y \<in> set xs" "P y" for y
  proof -
    from that(1) have "y \<in> set (sort_key f xs)" by simp
    then obtain j where j: "j < length (sort_key f xs)" "y = sort_key f xs ! j" by (metis in_set_conv_nth)
    with i(4) that(2) have "i \<le> j" by (meson leI)
    with sorted_sort_key [of f xs] i j show ?thesis by (auto simp: sorted_iff_nth_mono)
  qed
  moreover have "x \<in> set xs" using i(1,3) nth_mem [of i "sort_key f xs"] by simp
  ultimately show ?thesis using i by simp
qed

lemma regex_wins:
  assumes h: "holds_regexes lib rules (rankRules rules) (length rules) rs"
    and kinds: "\<And>j. j < length rules \<Longrightarrow> rule_matches lib path (rules ! j) \<Longrightarrow> rl_Kind (rules ! j) = RuleRegex"
    and f: "find (\<lambda>r. rx_re r path) (sort_key (entry_rank \<circ> rx_entry) rs) = Some r"
  shows "\<exists>i. winner lib rules path = Some i \<and> entry_result (rx_entry r) = result_of (rules ! i)"
proof -
  let ?mk = "\<lambda>i. \<lparr>rx_re = projr (compileRegex lib (rl_Pattern (rules ! i))), rx_entry = entry_of rules (rankRules rules) i\<rparr>"
  have rs: "set rs = ?mk ` {i. i < length rules \<and> rl_Kind (rules ! i) = RuleRegex}"
    using h by (auto simp: holds_regexes_def)
  from find_sorted [OF f] have r: "r \<in> set rs" "rx_re r path"
    "\<And>y. y \<in> set rs \<Longrightarrow> rx_re y path \<Longrightarrow> entry_rank (rx_entry r) \<le> entry_rank (rx_entry y)" by auto
  from r(1) rs obtain i where i: "i < length rules" "rl_Kind (rules ! i) = RuleRegex" "r = ?mk i" by auto
  have "winner lib rules path = Some i"
  proof (rule winnerI)
    show "rule_matches lib path (rules ! i)" using i r(2) by (simp add: rule_matches_def)
    fix j assume j: "j < length rules" "rule_matches lib path (rules ! j)"
    with kinds have k: "rl_Kind (rules ! j) = RuleRegex" by blast
    with j have "?mk j \<in> set rs" "rx_re (?mk j) path" by (auto simp: rs rule_matches_def)
    from r(3) [OF this] i(3) have "rankRules rules ! i \<le> rankRules rules ! j" by simp
    with i j(1) k show "precedence rules i \<le> precedence rules j"
      by (intro precedence_le) (auto simp: specificity_def kind_rank_def)
  qed (rule i(1))
  with i(3) show ?thesis by (simp add: entry_of_def)
qed

lemma regex_none:
  assumes "holds_regexes lib rules ranks (length rules) rs"
    and "find (\<lambda>r. rx_re r path) (sort_key (entry_rank \<circ> rx_entry) rs) = None"
    and "j < length rules" "rule_matches lib path (rules ! j)"
  shows "rl_Kind (rules ! j) \<noteq> RuleRegex"
  using assms by (auto simp: holds_regexes_def find_None_iff rule_matches_def)

section \<open>The matcher\<close>

lemma holds_finalize: "holds_templates rules ranks k n \<Longrightarrow> holds_templates rules ranks k (finalize n)"
  by (simp add: holds_templates_def tlookup_finalize)

definition fallback_of :: "string \<Rightarrow> MatchResult" where
  "fallback_of d = \<lparr>mr_GroupID = d, mr_GroupName = DefaultGroup, mr_RuleID = [], mr_Kind = [], mr_Default = True\<rparr>"

lemma NewMatcher_ok:
  assumes "list_all (rule_ok lib) rules"
  obtains m where "NewMatcher lib rules d = Inr m" "holds_exact rules (rankRules rules) (length rules) (m_exact m)"
    "holds_templates rules (rankRules rules) (length rules) (m_templates m)" "bounded (m_templates m)"
    "holds_prefixes rules (rankRules rules) (length rules) (m_prefixes m)"
    "\<exists>rs. holds_regexes lib rules (rankRules rules) (length rules) rs \<and> m_regexes m = sort_key (entry_rank \<circ> rx_entry) rs"
    "m_fallback m = fallback_of d" "m_size m = int (length rules)"
proof -
  from add_rules_holds [OF holds_new, of rules rules lib "rankRules rules" d "length rules"] assms
  obtain m where m: "add_rules lib (rankRules rules) 0 rules (newMatcher d (length rules)) = Inr m"
    "holds lib rules (rankRules rules) (length rules) m" "m_fallback m = m_fallback (newMatcher d (length rules))"
    "m_size m = m_size (newMatcher d (length rules))" by auto
  show ?thesis
    by (rule that [of "m\<lparr>m_regexes := sort_key (entry_rank \<circ> rx_entry) (m_regexes m), m_templates := finalize (m_templates m)\<rparr>"])
      (use m in \<open>auto simp: NewMatcher_def holds_def holds_finalize bounded_finalize newMatcher_def fallback_of_def\<close>)
qed

lemma NewMatcher_error:
  assumes "\<not> list_all (rule_ok lib) rules"
  shows "\<exists>i < length rules. list_all (rule_ok lib) (take i rules) \<and> \<not> rule_ok lib (rules ! i) \<and>
     NewMatcher lib rules d = Inl (rule_failure lib i (rules ! i))"
  using add_rules_fails [of rules 0 rules lib "rankRules rules" "newMatcher d (length rules)"] assms
  by (auto simp: NewMatcher_def)

text \<open>
  C32. Compiling a rule list always ends with a result.  It succeeds exactly when every rule has a
  group and a valid pattern, and the matcher then reports the number of its rules; otherwise the
  error is the invalid-argument error of the first rule that is not valid, with its index, id and kind.
\<close>

theorem NewMatcher_total:
  "case NewMatcher lib rules d of
     Inr m \<Rightarrow> list_all (rule_ok lib) rules \<and> Len (Some m) = int (length rules)
   | Inl err \<Rightarrow> \<exists>i < length rules. list_all (rule_ok lib) (take i rules) \<and> \<not> rule_ok lib (rules ! i) \<and>
       err = rule_failure lib i (rules ! i) \<and> e_code err = CodeInvalidArgument \<and> e_reason err = ReasonInvalidArgument"
proof (cases "list_all (rule_ok lib) rules")
  case True
  then show ?thesis by (rule NewMatcher_ok [where d = d]) (simp add: Len_def True)
next
  case False
  have "e_code (rule_failure lib i r) = CodeInvalidArgument \<and> e_reason (rule_failure lib i r) = ReasonInvalidArgument" for i r
    by (simp add: rule_failure_def ruleError_def Let_def patternInvalid_def InvalidArgument_def NewError_def)
  with NewMatcher_error [OF False, of d] show ?thesis by auto
qed

lemma Match_winner:
  assumes "list_all (rule_ok lib) rules" "NewMatcher lib rules d = Inr m"
  shows "Match (Some m) path = (case winner lib rules path of None \<Rightarrow> fallback_of d | Some i \<Rightarrow> result_of (rules ! i))"
proof -
  obtain m' where "NewMatcher lib rules d = Inr m'" and
    x: "holds_exact rules (rankRules rules) (length rules) (m_exact m')" and
    t: "holds_templates rules (rankRules rules) (length rules) (m_templates m')" "bounded (m_templates m')" and
    p: "holds_prefixes rules (rankRules rules) (length rules) (m_prefixes m')" and
    r: "\<exists>rs. holds_regexes lib rules (rankRules rules) (length rules) rs \<and> m_regexes m' = sort_key (entry_rank \<circ> rx_entry) rs" and
    d: "m_fallback m' = fallback_of d"
    by (rule NewMatcher_ok [OF assms(1), of d]) blast
  with assms(2) have m: "m' = m" by simp
  have f: "mr_Default (m_fallback m)" using d m by (simp add: fallback_of_def)
  note x = x [unfolded m] and t = t [unfolded m] and p = p [unfolded m] and r = r [unfolded m] and d = d [unfolded m]
  show ?thesis
  proof (cases "m_exact m path")
    case (Some e)
    with exact_wins [OF x Some, of lib] f show ?thesis by (auto simp: Match_def)
  next
    case x0: None
    note nx = exact_none [OF x x0, of _ lib]
    show ?thesis
    proof (cases "tmatch (m_templates m) path")
      case (Some e)
      with template_wins [OF t assms(1) nx Some] x0 f show ?thesis by (auto simp: Match_def)
    next
      case t0: None
      note nt = template_none [OF t assms(1) t0]
      show ?thesis
      proof (cases "longest (m_prefixes m) path")
        case (Some e)
        with prefix_wins [OF p assms(1) nx nt Some] x0 t0 f show ?thesis by (auto simp: Match_def)
      next
        case p0: None
        note np = prefix_none [OF p p0, of _ lib]
        from r obtain rs where rs: "holds_regexes lib rules (rankRules rules) (length rules) rs"
          "m_regexes m = sort_key (entry_rank \<circ> rx_entry) rs" by blast
        have kinds: "rl_Kind (rules ! j) = RuleRegex" if "j < length rules" "rule_matches lib path (rules ! j)" for j
          using nx [OF that] nt [OF that] np [OF that] rule_ok_kind [of lib "rules ! j"] that(1) assms(1)
          by (auto simp: list_all_length)
        show ?thesis
        proof (cases "find (\<lambda>r. rx_re r path) (m_regexes m)")
          case (Some e)
          with regex_wins [OF rs(1) kinds, of path e] rs(2) x0 t0 p0 f show ?thesis by (auto simp: Match_def)
        next
          case None
          with regex_none [OF rs(1), of path _] kinds rs(2) have "winner lib rules path = None"
            unfolding winner_None by metis
          with None x0 t0 p0 f d show ?thesis by (simp add: Match_def)
        qed
      qed
    qed
  qed
qed

text \<open>
  C1. A compiled matcher returns, for every path, the group of the matching rule that comes first in
  the order exact, template, prefix, regex, then more literal segments (templates) or the longer
  pattern (prefixes), then position, id and place in the list; and the default group when no rule
  matches.  The hash map, the pruned trie search and the radix tree are thus equivalent to scanning
  the rules.
\<close>

theorem Match_spec:
  assumes "NewMatcher lib rules d = Inr m"
  shows "Match (Some m) path = (case winner lib rules path of None \<Rightarrow> fallback_of d | Some i \<Rightarrow> result_of (rules ! i))"
proof -
  have "list_all (rule_ok lib) rules"
    using NewMatcher_error [of lib rules d] assms by (metis Inl_Inr_False)
  then show ?thesis using assms by (rule Match_winner)
qed

definition sample_rules :: "Rule list" where
  "sample_rules =
     [\<lparr>rl_ID = ''r1'', rl_GroupID = ''g1'', rl_GroupName = ''a'', rl_Kind = RulePrefix, rl_Pattern = ''/a'', rl_Position = 0\<rparr>,
      \<lparr>rl_ID = ''r2'', rl_GroupID = ''g2'', rl_GroupName = ''b'', rl_Kind = RuleTemplate, rl_Pattern = ''/{x}'', rl_Position = 9\<rparr>]"

lemma sample_template: "parseTemplate ''/{x}'' = Inr [Param]"
  by (simp add: parseTemplate_def validatePathPattern_def checkRunes_iff clean_runes_ascii isBadASCII_def byte_def
      param_segment_def validParamName_def param_char_def Let_def)

lemma sample_ok: "list_all (rule_ok lib) sample_rules"
  by (simp add: sample_rules_def rule_ok_def ValidatePattern_def sample_template)
    (simp add: validatePathPattern_def checkRunes_iff clean_runes_ascii isBadASCII_def byte_def)

theorem Match_spec_witness:
  "\<exists>m. NewMatcher one_regex sample_rules ''d'' = Inr m \<and>
     mr_GroupID (Match (Some m) ''/ab'') = ''g2'' \<and> mr_GroupID (Match (Some m) ''/a/b'') = ''g1'' \<and>
     mr_Default (Match (Some m) ''/'')"
proof -
  obtain m where m: "NewMatcher one_regex sample_rules ''d'' = Inr m"
    by (rule NewMatcher_ok [OF sample_ok])
  have n: "[0..<length sample_rules] = [0, 1]" by (simp add: sample_rules_def upt_rec)
  have "winner one_regex sample_rules ''/ab'' = Some 1" "winner one_regex sample_rules ''/a/b'' = Some 0"
    "winner one_regex sample_rules ''/'' = None"
    unfolding winner_def n
    by (simp_all add: sample_rules_def rule_matches_def sample_template seg_matches_def precedence_def kind_rank_def
        best_by_def less_prod_def)
  with Match_spec [OF m, of "''/ab''"] Match_spec [OF m, of "''/a/b''"] Match_spec [OF m, of "''/''"] m show ?thesis
    by (simp add: sample_rules_def result_of_def fallback_of_def)
qed

section \<open>Queries\<close>

lemma scan_loop_stop:
  "c \<in> stops \<Longrightarrow> scan_loop stops lim e i na (u @ c # q) = scan_loop stops lim e i na u"
  by (induction u arbitrary: i na) auto

lemma scan_loop_le: "scan_loop stops lim e i na u = Inr (n, na') \<Longrightarrow> n \<le> i + length u"
  by (induction u arbitrary: i na) (fastforce split: if_splits)+

lemma scanPath_stop:
  assumes "c \<in> {CHR ''?'', CHR ''#''}"
  shows "path_prefix (u @ c # q) = path_prefix u"
  using assms scan_loop_le [of "{CHR ''?'', CHR ''#''}" 2048 _ 0 False u]
  by (auto simp: path_prefix_def scanPath_def scan_loop_stop split: sum.splits prod.splits)

text \<open>
  The query and the fragment of a path are neither matched nor validated: a request path followed
  by either has the same outcome, a result or an error, as the path alone.
\<close>

theorem MatchURI_query:
  "MatchURI m ((CHR ''/'' # s) @ CHR ''?'' # q) = MatchURI m (CHR ''/'' # s) \<and>
   MatchURI m ((CHR ''/'' # s) @ CHR ''#'' # q) = MatchURI m (CHR ''/'' # s)"
  using scanPath_stop [of _ "CHR ''/'' # s" q] by (simp add: MatchURI_def NormalizePath_def)

end
