(* ===== verification/Textdiff.thy ===== *)
theory Textdiff
  imports Strconv
begin

text \<open>
  \<^verbatim>\<open>internal/pkg/textdiff/textdiff.go\<close>: unified diffs of two texts.  An edit script is computed
  from a table of longest common subsequences, cut into hunks with context and printed.
\<close>

section \<open>Edit scripts\<close>

abbreviation (input) maxCells :: int where "maxCells \<equiv> 25000000"

datatype opKind = opEqual | opDelete | opInsert

record op =
  kind :: opKind
  line :: string

definition op_of :: "opKind \<Rightarrow> string \<Rightarrow> op" where
  "op_of k l = \<lparr>kind = k, line = l\<rparr>"

definition newline :: char where "newline = CHR 10"

definition splitLines :: "string \<Rightarrow> string list" where
  "splitLines s =
     (if s = '''' then []
      else split_byte newline (if last s = newline then butlast s else s))"

text \<open>
  The table row of a line \<open>x\<close> of the first text, for the columns of \<open>ys\<close>, from the row below it.
  The row has one column more than there are lines; the last one is zero.
\<close>

fun lcs_row :: "string \<Rightarrow> string list \<Rightarrow> int list \<Rightarrow> int list" where
  "lcs_row x [] below = [0]"
| "lcs_row x (y # ys) below =
     (let right = lcs_row x ys (tl below) in
      (if x = y then below ! 1 + 1 else if below ! 0 \<ge> right ! 0 then below ! 0 else right ! 0) # right)"

fun lcs_table :: "string list \<Rightarrow> string list \<Rightarrow> int list list" where
  "lcs_table [] b = [replicate (length b + 1) 0]"
| "lcs_table (x # xs) b = (let rows = lcs_table xs b in lcs_row x b (hd rows) # rows)"

function lcs_walk :: "int list list \<Rightarrow> string list \<Rightarrow> string list \<Rightarrow> nat \<Rightarrow> nat \<Rightarrow> op list" where
  "lcs_walk t a b i j =
     (if i < length a \<and> j < length b then
        (if a ! i = b ! j then op_of opEqual (a ! i) # lcs_walk t a b (i + 1) (j + 1)
         else if t ! (i + 1) ! j \<ge> t ! i ! (j + 1) then op_of opDelete (a ! i) # lcs_walk t a b (i + 1) j
         else op_of opInsert (b ! j) # lcs_walk t a b i (j + 1))
      else map (op_of opDelete) (drop i a) @ map (op_of opInsert) (drop j b))"
  by pat_completeness auto
termination
  by (relation "measure (\<lambda>(t, a, b, i, j). (length a - i) + (length b - j))") auto

declare lcs_walk.simps [simp del]

definition lcsOps :: "string list \<Rightarrow> string list \<Rightarrow> op list" where
  "lcsOps a b =
     (let n = int (length a); m = int (length b) in
      if n = 0 \<or> m = 0 \<or> (n + 1) * (m + 1) > maxCells
      then map (op_of opDelete) a @ map (op_of opInsert) b
      else lcs_walk (lcs_table a b) a b 0 0)"

fun common_prefix :: "string list \<Rightarrow> string list \<Rightarrow> nat" where
  "common_prefix (x # xs) (y # ys) = (if x = y then Suc (common_prefix xs ys) else 0)"
| "common_prefix _ _ = 0"

text \<open>The suffix loop compares from the ends, of what the prefix leaves of both texts.\<close>

definition diffLines :: "string list \<Rightarrow> string list \<Rightarrow> op list" where
  "diffLines a b =
     (let pre = common_prefix a b;
          suf = common_prefix (rev (drop pre a)) (rev (drop pre b));
          ma = drop pre (take (length a - suf) a);
          mb = drop pre (take (length b - suf) b)
      in map (op_of opEqual) (take pre a) @ lcsOps ma mb @ map (op_of opEqual) (drop (length a - suf) a))"

section \<open>Hunks\<close>

record hunk =
  h_start :: nat
  h_end :: nat

definition equal_run :: "op list \<Rightarrow> nat \<Rightarrow> nat" where
  "equal_run ops e = length (takeWhile (\<lambda>p. kind p = opEqual) (drop e ops))"

function extend :: "op list \<Rightarrow> int \<Rightarrow> nat \<Rightarrow> nat" where
  "extend ops ctx e =
     (if e < length ops then
        (if kind (ops ! e) \<noteq> opEqual then extend ops ctx (e + 1)
         else let run = equal_run ops e in
           if e + run < length ops \<and> int run \<le> wrap64 (2 * ctx) then extend ops ctx (e + run)
           else e + nat (min (int run) ctx))
      else e)"
  by pat_completeness auto
termination
proof (relation "measure (\<lambda>(ops, ctx, e). length ops - e)", goal_cases)
  case (3 ops ctx e run)
  then have "0 < run" by (simp add: equal_run_def takeWhile_eq_Nil_iff hd_drop_conv_nth)
  with 3 show ?case by auto
qed auto

declare extend.simps [simp del]

lemma extend_ge: "e \<le> extend ops ctx e"
proof (induction ops ctx e rule: extend.induct)
  case (1 ops ctx e)
  then show ?case by (subst extend.simps) (auto simp: Let_def)
qed

function hunks_loop :: "op list \<Rightarrow> int \<Rightarrow> nat \<Rightarrow> hunk list \<Rightarrow> hunk list" where
  "hunks_loop ops ctx i out =
     (if i < length ops then
        (if kind (ops ! i) = opEqual then hunks_loop ops ctx (i + 1) out
         else
           let start = nat (max 0 (int i - ctx));
               e = extend ops ctx (i + 1);
               out' = (if out \<noteq> [] \<and> start \<le> h_end (last out)
                       then butlast out @ [(last out)\<lparr>h_end := e\<rparr>]
                       else out @ [\<lparr>h_start = start, h_end = e\<rparr>])
           in hunks_loop ops ctx e out')
      else out)"
  by pat_completeness auto
termination
proof (relation "measure (\<lambda>(ops, ctx, i, out). length ops - i)", goal_cases)
  case (3 ops ctx i out start e out')
  with extend_ge [of "i + 1" ops ctx] show ?case by simp
qed auto

declare hunks_loop.simps [simp del]

definition hunks :: "op list \<Rightarrow> int \<Rightarrow> hunk list" where
  "hunks ops ctx = hunks_loop ops ctx 0 []"

section \<open>Printing\<close>

definition a_lines :: "op list \<Rightarrow> int" where
  "a_lines ops = int (length (filter (\<lambda>p. kind p \<noteq> opInsert) ops))"

definition b_lines :: "op list \<Rightarrow> int" where
  "b_lines ops = int (length (filter (\<lambda>p. kind p \<noteq> opDelete) ops))"

definition hunk_ops :: "op list \<Rightarrow> hunk \<Rightarrow> op list" where
  "hunk_ops ops h = drop (h_start h) (take (h_end h) ops)"

text \<open>The four numbers of a hunk header: start and count in both texts.\<close>

definition hunk_range :: "op list \<Rightarrow> hunk \<Rightarrow> int \<times> int \<times> int \<times> int" where
  "hunk_range ops h =
     (let aLine = 1 + a_lines (take (h_start h) ops);
          bLine = 1 + b_lines (take (h_start h) ops);
          aCount = a_lines (hunk_ops ops h);
          bCount = b_lines (hunk_ops ops h)
      in (if aCount = 0 then aLine - 1 else aLine, aCount, if bCount = 0 then bLine - 1 else bLine, bCount))"

definition op_mark :: "opKind \<Rightarrow> string" where
  "op_mark k = (case k of opEqual \<Rightarrow> '' '' | opDelete \<Rightarrow> ''-'' | opInsert \<Rightarrow> ''+'')"

definition writeHunk :: "op list \<Rightarrow> hunk \<Rightarrow> string" where
  "writeHunk ops h =
     (let (aStart, aCount, bStart, bCount) = hunk_range ops h
      in ''@@ -'' @ Itoa aStart @ '','' @ Itoa aCount @ '' +'' @ Itoa bStart @ '','' @ Itoa bCount @ '' @@'' @ [newline] @
         concat (map (\<lambda>p. op_mark (kind p) @ line p @ [newline]) (hunk_ops ops h)))"

definition Unified :: "string \<Rightarrow> string \<Rightarrow> string \<Rightarrow> string \<Rightarrow> int \<Rightarrow> string" where
  "Unified fromName toName from to ctx =
     (if from = to then ''''
      else
        let ctx = (if ctx < 0 then 0 else ctx);
            ops = diffLines (splitLines from) (splitLines to)
        in ''--- '' @ fromName @ [newline] @ ''+++ '' @ toName @ [newline] @
           concat (map (writeHunk ops) (hunks ops ctx)))"

end
