(* ===== verification/Textdiff_Laws.thy ===== *)
theory Textdiff_Laws
  imports Textdiff
begin

text \<open>
  The edit script reproduces both texts and is a shortest one, the hunks are disjoint and hold every
  change, and applying them to the first text gives the second.
\<close>

section \<open>Both sides of an edit script\<close>

definition a_side :: "op list \<Rightarrow> string list" where
  "a_side ops = map line (filter (\<lambda>p. kind p \<noteq> opInsert) ops)"

definition b_side :: "op list \<Rightarrow> string list" where
  "b_side ops = map line (filter (\<lambda>p. kind p \<noteq> opDelete) ops)"

lemma kind_op_of [simp]: "kind (op_of k l) = k" "line (op_of k l) = l"
  by (simp_all add: op_of_def)

lemma sides_append [simp]:
  "a_side (xs @ ys) = a_side xs @ a_side ys" "b_side (xs @ ys) = b_side xs @ b_side ys"
  by (simp_all add: a_side_def b_side_def)

lemma sides_map [simp]:
  "a_side (map (op_of opEqual) ls) = ls" "b_side (map (op_of opEqual) ls) = ls"
  "a_side (map (op_of opDelete) ls) = ls" "b_side (map (op_of opDelete) ls) = []"
  "a_side (map (op_of opInsert) ls) = []" "b_side (map (op_of opInsert) ls) = ls"
  by (induction ls) (simp_all add: a_side_def b_side_def)

lemma sides_Cons:
  "a_side (p # ps) = (if kind p = opInsert then a_side ps else line p # a_side ps)"
  "b_side (p # ps) = (if kind p = opDelete then b_side ps else line p # b_side ps)"
  by (simp_all add: a_side_def b_side_def)

lemma sides_Nil [simp]: "a_side [] = []" "b_side [] = []"
  by (simp_all add: a_side_def b_side_def)

lemma lcs_walk_sides:
  "a_side (lcs_walk t a b i j) = drop i a \<and> b_side (lcs_walk t a b i j) = drop j b"
proof (induction t a b i j rule: lcs_walk.induct)
  case (1 t a b i j)
  show ?case
  proof (cases "i < length a \<and> j < length b")
    case True
    then have "drop i a = a ! i # drop (i + 1) a" "drop j b = b ! j # drop (j + 1) b"
      by (simp_all add: Cons_nth_drop_Suc)
    with 1 True show ?thesis by (subst (1 2) lcs_walk.simps) (auto simp: sides_Cons)
  next
    case False
    then show ?thesis by (subst (1 2) lcs_walk.simps) auto
  qed
qed

lemma lcsOps_sides: "a_side (lcsOps a b) = a \<and> b_side (lcsOps a b) = b"
  using lcs_walk_sides [of "lcs_table a b" a b 0 0] by (simp add: lcsOps_def Let_def)

lemma common_prefix_take: "take (common_prefix a b) a = take (common_prefix a b) b"
  by (induction a b rule: common_prefix.induct) auto

lemma common_prefix_le: "common_prefix a b \<le> length a" "common_prefix a b \<le> length b"
  by (induction a b rule: common_prefix.induct) auto

text \<open>The two texts with the lines that the trimming loops take off at both ends.\<close>

lemma trim:
  fixes a b :: "string list"
  defines "pre \<equiv> common_prefix a b"
  defines "suf \<equiv> common_prefix (rev (drop pre a)) (rev (drop pre b))"
  shows "a = take pre a @ drop pre (take (length a - suf) a) @ drop (length a - suf) a"
    "b = take pre a @ drop pre (take (length b - suf) b) @ drop (length a - suf) a"
proof -
  have pre: "take pre a = take pre b" "pre \<le> length a" "pre \<le> length b"
    unfolding pre_def by (rule common_prefix_take common_prefix_le)+
  have suf: "suf \<le> length a - pre" "suf \<le> length b - pre"
    using common_prefix_le [of "rev (drop pre a)" "rev (drop pre b)"] by (simp_all add: suf_def)
  have "take suf (rev (drop pre a)) = take suf (rev (drop pre b))"
    unfolding suf_def by (rule common_prefix_take)
  then have "drop (length (drop pre a) - suf) (drop pre a) = drop (length (drop pre b) - suf) (drop pre b)"
    by (simp add: take_rev)
  then have end_eq: "drop (length a - suf) a = drop (length b - suf) b"
    using suf pre by (simp add: add.commute)
  have split: "x = take pre x @ drop pre (take (length x - suf) x) @ drop (length x - suf) x"
    if "suf \<le> length x - pre" "pre \<le> length x" for x :: "string list"
  proof -
    have "take pre x = take pre (take (length x - suf) x)" using that by (simp add: min_def)
    then show ?thesis by (metis append_assoc append_take_drop_id)
  qed
  show "a = take pre a @ drop pre (take (length a - suf) a) @ drop (length a - suf) a"
    using split [of a] suf pre by blast
  show "b = take pre a @ drop pre (take (length b - suf) b) @ drop (length a - suf) a"
    using split [of b] suf pre end_eq by simp
qed

lemma diffLines_sides: "a_side (diffLines a b) = a" "b_side (diffLines a b) = b"
  by (simp_all add: diffLines_def Let_def lcsOps_sides trim [symmetric])

section \<open>Longest common subsequences\<close>

fun lcs :: "'a list \<Rightarrow> 'a list \<Rightarrow> nat" where
  "lcs [] ys = 0"
| "lcs xs [] = 0"
| "lcs (x # xs) (y # ys) = (if x = y then Suc (lcs xs ys) else max (lcs xs (y # ys)) (lcs (x # xs) ys))"

lemma lcs_Nil2 [simp]: "lcs xs [] = 0"
  by (cases xs) simp_all

lemma subseq_tl: "subseq (s # ss) ys \<Longrightarrow> subseq ss ys"
  by (rule subseq_Cons')

lemma lcs_upper: "subseq s xs \<Longrightarrow> subseq s ys \<Longrightarrow> length s \<le> lcs xs ys"
proof (induction xs ys arbitrary: s rule: lcs.induct)
  case (3 x xs y ys)
  show ?case
  proof (cases "x = y")
    case True
    show ?thesis
    proof (cases s)
      case (Cons c cs)
      have "subseq cs xs" "subseq cs ys"
        using "3.prems" Cons by (auto simp: subseq_Cons2_iff dest: subseq_Cons' split: if_splits)
      with "3.IH"(1) True Cons show ?thesis by simp
    qed simp
  next
    case False
    show ?thesis
    proof (cases s)
      case (Cons c cs)
      have "subseq s xs \<or> subseq s ys"
        using "3.prems" Cons False by (auto simp: subseq_Cons2_iff split: if_splits)
      with "3.IH"(2,3) [OF False] "3.prems" show ?thesis by (metis le_max_iff_disj lcs.simps(3) False)
    qed simp
  qed
qed (auto simp: list_emb_Nil2)

lemma lcs_append: "lcs (p @ xs) (p @ ys) = length p + lcs xs ys"
  by (induction p) simp_all

lemma lcs_attained: "\<exists>s. subseq s xs \<and> subseq s ys \<and> length s = lcs xs ys"
proof (induction xs ys rule: lcs.induct)
  case (3 x xs y ys)
  show ?case
  proof (cases "x = y")
    case True
    with 3(1) obtain s where "subseq s xs" "subseq s ys" "length s = lcs xs ys" by blast
    with True show ?thesis by (intro exI [of _ "x # s"]) simp
  next
    case False
    from 3(2) [OF False] obtain s where s: "subseq s xs" "subseq s (y # ys)" "length s = lcs xs (y # ys)" by blast
    from 3(3) [OF False] obtain t where t: "subseq t (x # xs)" "subseq t ys" "length t = lcs (x # xs) ys" by blast
    show ?thesis
    proof (cases "lcs xs (y # ys) \<ge> lcs (x # xs) ys")
      case True
      with s False show ?thesis by (intro exI [of _ s]) (auto intro: list_emb_Cons)
    next
      case not_ge: False
      with t False show ?thesis by (intro exI [of _ t]) (auto intro: list_emb_Cons)
    qed
  qed
qed (auto intro: exI [of _ "[]"])

lemma subseq_snoc_cases: "subseq u (ys @ [c]) \<Longrightarrow> subseq u ys \<or> (\<exists>v. u = v @ [c] \<and> subseq v ys)"
proof (induction ys arbitrary: u)
  case Nil
  then show ?case by (cases u) (auto simp: subseq_Cons2_iff dest: list_emb_Nil2 split: if_splits)
next
  case (Cons y ys)
  note IH = Cons.IH and prems = Cons.prems
  show ?case
  proof (cases u)
    case u: (Cons d ds)
    show ?thesis
    proof (cases "d = y")
      case True
      with u prems have "subseq ds (ys @ [c])" by simp
      with IH [of ds] have "subseq ds ys \<or> (\<exists>v. ds = v @ [c] \<and> subseq v ys)" .
      with u True show ?thesis by (metis append_Cons subseq_Cons2)
    next
      case False
      with u prems have "subseq u (ys @ [c])" by (simp add: subseq_Cons2_iff)
      with IH [of u] show ?thesis by (auto intro: list_emb_Cons)
    qed
  qed simp
qed

lemma subseq_snoc_butlast: "subseq u (ys @ [c]) \<Longrightarrow> subseq (butlast u) ys"
  using subseq_snoc_cases [of u ys c] prefix_imp_subseq [OF prefixeq_butlast, of u]
  by (auto intro: subseq_order.trans)

lemma lcs_snoc: "lcs (xs @ [c]) (ys @ [c]) \<le> Suc (lcs xs ys)"
proof -
  obtain s where s: "subseq s (xs @ [c])" "subseq s (ys @ [c])" "length s = lcs (xs @ [c]) (ys @ [c])"
    using lcs_attained by blast
  have "length (butlast s) \<le> lcs xs ys"
    using s(1,2) by (intro lcs_upper subseq_snoc_butlast)
  with s(3) show ?thesis by simp
qed

lemma lcs_suffix: "lcs (xs @ s) (ys @ s) \<le> lcs xs ys + length s"
proof (induction s arbitrary: xs ys)
  case (Cons c s)
  have "lcs (xs @ c # s) (ys @ c # s) \<le> lcs (xs @ [c]) (ys @ [c]) + length s"
    using Cons [of "xs @ [c]" "ys @ [c]"] by simp
  with lcs_snoc [of xs c ys] show ?case by simp
qed simp

text \<open>The table holds the lengths for all pairs of suffixes.\<close>

lemma lcs_row_correct:
  "length below = length b + 1 \<Longrightarrow> \<forall>j \<le> length b. below ! j = int (lcs xs (drop j b)) \<Longrightarrow>
   length (lcs_row x b below) = length b + 1 \<and>
   (\<forall>j \<le> length b. lcs_row x b below ! j = int (lcs (x # xs) (drop j b)))"
proof (induction b arbitrary: below)
  case (Cons y ys)
  from Cons.prems obtain b0 b1 bs where below: "below = b0 # b1 # bs"
    by (cases below; cases "tl below") auto
  have "\<forall>j \<le> length ys. tl below ! j = int (lcs xs (drop j ys))"
    using Cons.prems(2) below by (metis drop_Suc_Cons length_Cons list.sel(3) not_less_eq_eq nth_Cons_Suc)
  with Cons.IH [of "tl below"] Cons.prems(1)
  have ih: "length (lcs_row x ys (tl below)) = length ys + 1"
    "\<forall>j \<le> length ys. lcs_row x ys (tl below) ! j = int (lcs (x # xs) (drop j ys))" by auto
  have b: "below ! 0 = int (lcs xs (y # ys))" "below ! 1 = int (lcs xs ys)"
    using Cons.prems(2) [rule_format, of 0] Cons.prems(2) [rule_format, of 1] by auto
  have r: "lcs_row x ys (tl below) ! 0 = int (lcs (x # xs) ys)" using ih(2) [rule_format, of 0] by simp
  have hd: "lcs_row x (y # ys) below ! 0 = int (lcs (x # xs) (y # ys))"
    using b r by (auto simp: Let_def)
  show ?case
  proof (intro conjI allI impI)
    show "length (lcs_row x (y # ys) below) = length (y # ys) + 1" using ih(1) by (simp add: Let_def)
    fix j assume "j \<le> length (y # ys)"
    then show "lcs_row x (y # ys) below ! j = int (lcs (x # xs) (drop j (y # ys)))"
      using hd ih(2) by (cases j) (simp_all add: Let_def)
  qed
qed simp

lemma lcs_table_correct:
  "length (lcs_table a b) = length a + 1 \<and>
   (\<forall>i \<le> length a. length (lcs_table a b ! i) = length b + 1 \<and>
      (\<forall>j \<le> length b. lcs_table a b ! i ! j = int (lcs (drop i a) (drop j b))))"
proof (induction a)
  case (Cons x xs)
  let ?t = "lcs_table xs b"
  have "length ?t = length xs + 1" using Cons by blast
  then have "?t \<noteq> []" by auto
  then have rows: "hd ?t = ?t ! 0" by (rule hd_conv_nth)
  have "length (hd ?t) = length b + 1" "\<forall>j \<le> length b. hd ?t ! j = int (lcs xs (drop j b))"
    unfolding rows using Cons by (metis drop0 le0)+
  from lcs_row_correct [OF this, of x] have new: "length (lcs_row x b (hd ?t)) = length b + 1"
    "\<forall>j \<le> length b. lcs_row x b (hd ?t) ! j = int (lcs (x # xs) (drop j b))" by blast+
  have "length (lcs_table (x # xs) b ! i) = length b + 1 \<and>
      (\<forall>j \<le> length b. lcs_table (x # xs) b ! i ! j = int (lcs (drop i (x # xs)) (drop j b)))"
    if "i \<le> length (x # xs)" for i
    using that new Cons by (cases i) (simp_all add: Let_def)
  moreover have "length (lcs_table (x # xs) b) = length (x # xs) + 1" using Cons by (simp add: Let_def)
  ultimately show ?case by blast
qed (auto simp: nth_Cons split: nat.splits)

definition equals :: "op list \<Rightarrow> nat" where
  "equals ops = length (filter (\<lambda>p. kind p = opEqual) ops)"

lemma lcs_walk_equals:
  "t = lcs_table a b \<Longrightarrow> equals (lcs_walk t a b i j) = lcs (drop i a) (drop j b)"
proof (induction t a b i j rule: lcs_walk.induct)
  case (1 t a b i j)
  show ?case
  proof (cases "i < length a \<and> j < length b")
    case True
    then have d: "drop i a = a ! i # drop (i + 1) a" "drop j b = b ! j # drop (j + 1) b"
      by (simp_all add: Cons_nth_drop_Suc)
    have t: "t ! (i + 1) ! j = int (lcs (drop (i + 1) a) (drop j b))" "t ! i ! (j + 1) = int (lcs (drop i a) (drop (j + 1) b))"
      using lcs_table_correct [of a b] True "1.prems" by auto
    show ?thesis
    proof (cases "a ! i = b ! j")
      case eq: True
      with 1 True show ?thesis unfolding d by (subst lcs_walk.simps) (simp add: equals_def)
    next
      case ne: False
      show ?thesis
      proof (cases "t ! (i + 1) ! j \<ge> t ! i ! (j + 1)")
        case ge: True
        then have "equals (lcs_walk t a b i j) = lcs (drop (i + 1) a) (drop j b)"
          using 1 True ne by (subst lcs_walk.simps) (simp add: equals_def)
        also have "\<dots> = lcs (drop i a) (drop j b)" using ge t d ne by (simp add: max_def)
        finally show ?thesis .
      next
        case False
        then have "equals (lcs_walk t a b i j) = lcs (drop i a) (drop (j + 1) b)"
          using 1 True ne by (subst lcs_walk.simps) (simp add: equals_def)
        also have "\<dots> = lcs (drop i a) (drop j b)" using False t d ne by (simp add: max_def)
        finally show ?thesis .
      qed
    qed
  next
    case False
    then have "drop i a = [] \<or> drop j b = []" by auto
    with False show ?thesis by (subst lcs_walk.simps) (auto simp: equals_def)
  qed
qed

lemma equals_append [simp]: "equals (xs @ ys) = equals xs + equals ys"
  by (simp add: equals_def)

lemma equals_map [simp]:
  "equals (map (op_of opEqual) ls) = length ls" "equals (map (op_of opDelete) ls) = 0"
  "equals (map (op_of opInsert) ls) = 0"
  by (induction ls) (simp_all add: equals_def)

lemma lcsOps_equals:
  "(int (length a) + 1) * (int (length b) + 1) \<le> maxCells \<Longrightarrow> equals (lcsOps a b) = lcs a b"
  using lcs_walk_equals [OF refl, of a b 0 0] by (auto simp: lcsOps_def Let_def)

lemma diffLines_equals:
  assumes "(int (length a) + 1) * (int (length b) + 1) \<le> maxCells"
  shows "lcs a b \<le> equals (diffLines a b)"
proof -
  define pre where "pre = common_prefix a b"
  define suf where "suf = common_prefix (rev (drop pre a)) (rev (drop pre b))"
  define ma where "ma = drop pre (take (length a - suf) a)"
  define mb where "mb = drop pre (take (length b - suf) b)"
  note t = trim [where a = a and b = b, folded pre_def, folded suf_def, folded ma_def mb_def]
  have "(int (length ma) + 1) * (int (length mb) + 1) \<le> (int (length a) + 1) * (int (length b) + 1)"
    by (intro mult_mono) (simp_all add: ma_def mb_def)
  with assms have "equals (lcsOps ma mb) = lcs ma mb" by (intro lcsOps_equals) simp
  moreover have "lcs a b \<le> length (take pre a) + (lcs ma mb + length (drop (length a - suf) a))"
  proof -
    let ?s = "drop (length a - suf) a"
    have "lcs (take pre a @ ma @ ?s) (take pre a @ mb @ ?s) \<le> length (take pre a) + (lcs ma mb + length ?s)"
      by (simp only: lcs_append lcs_suffix add_le_cancel_left)
    with arg_cong2 [where f = lcs, OF t] show ?thesis by (rule ord_eq_le_trans)
  qed
  moreover have "diffLines a b = map (op_of opEqual) (take pre a) @ lcsOps ma mb @ map (op_of opEqual) (drop (length a - suf) a)"
    by (simp add: diffLines_def Let_def pre_def suf_def ma_def mb_def)
  ultimately show ?thesis by simp
qed

text \<open>
  C34. Within the size limit of the table the edit script is a shortest one: any other script that
  turns the first text into the second keeps at most as many lines and is at least as long.
\<close>

theorem diffLines_minimal:
  assumes "(int (length a) + 1) * (int (length b) + 1) \<le> maxCells"
    and "a_side script = a" "b_side script = b"
  shows "equals script \<le> equals (diffLines a b) \<and> length (diffLines a b) \<le> length script"
proof -
  have sizes: "int (length ops) = int (length (a_side ops)) + int (length (b_side ops)) - int (equals ops)" for ops
  proof (induction ops)
    case (Cons p ps)
    then show ?case by (cases "kind p") (simp_all add: sides_Cons equals_def)
  qed (simp add: equals_def)
  have "subseq (map line (filter (\<lambda>p. kind p = opEqual) script)) (a_side script)"
    "subseq (map line (filter (\<lambda>p. kind p = opEqual) script)) (b_side script)"
  proof -
    have eq: "filter (\<lambda>p. kind p = opEqual) script = filter (\<lambda>p. kind p = opEqual) (filter (\<lambda>p. kind p \<noteq> opInsert) script)"
      "filter (\<lambda>p. kind p = opEqual) script = filter (\<lambda>p. kind p = opEqual) (filter (\<lambda>p. kind p \<noteq> opDelete) script)"
      by (auto intro: filter_cong)
    show "subseq (map line (filter (\<lambda>p. kind p = opEqual) script)) (a_side script)"
      unfolding a_side_def by (subst eq(1)) (rule subseq_map, rule subseq_filter_left)
    show "subseq (map line (filter (\<lambda>p. kind p = opEqual) script)) (b_side script)"
      unfolding b_side_def by (subst eq(2)) (rule subseq_map, rule subseq_filter_left)
  qed
  from lcs_upper [OF this] assms have "equals script \<le> lcs a b" by (simp add: equals_def)
  with diffLines_equals [OF assms(1)] have le: "equals script \<le> equals (diffLines a b)" by linarith
  with sizes [of script] sizes [of "diffLines a b"] assms(2,3) show ?thesis by (simp add: diffLines_sides)
qed

theorem diffLines_minimal_witness:
  "(let script = [op_of opDelete ''x'', op_of opEqual ''y'', op_of opInsert ''z''];
        a = [''x'', ''y'']; b = [''y'', ''z''] in
    a_side script = a \<and> b_side script = b \<and> length (diffLines a b) \<le> length script)"
  using diffLines_minimal [of "[''x'', ''y'']" "[''y'', ''z'']"
      "[op_of opDelete ''x'', op_of opEqual ''y'', op_of opInsert ''z'']"]
  by (simp add: a_side_def b_side_def)

section \<open>Hunks\<close>

definition all_equal :: "op list \<Rightarrow> nat \<Rightarrow> nat \<Rightarrow> bool" where
  "all_equal ops i j \<longleftrightarrow> (\<forall>p \<in> set (drop i (take j ops)). kind p = opEqual)"

text \<open>The hunks are in order, do not overlap, and hold every change between \<open>i\<close> and \<open>j\<close>.\<close>

fun covers :: "op list \<Rightarrow> nat \<Rightarrow> hunk list \<Rightarrow> nat \<Rightarrow> bool" where
  "covers ops i [] j \<longleftrightarrow> i \<le> j \<and> all_equal ops i j"
| "covers ops i (h # hs) j \<longleftrightarrow>
     i \<le> h_start h \<and> h_start h \<le> h_end h \<and> all_equal ops i (h_start h) \<and> covers ops (h_end h) hs j"

lemma all_equal_nth: "all_equal ops i j \<longleftrightarrow> (\<forall>k. i \<le> k \<and> k < j \<and> k < length ops \<longrightarrow> kind (ops ! k) = opEqual)"
proof
  assume all: "all_equal ops i j"
  show "\<forall>k. i \<le> k \<and> k < j \<and> k < length ops \<longrightarrow> kind (ops ! k) = opEqual"
  proof (intro allI impI)
    fix k assume k: "i \<le> k \<and> k < j \<and> k < length ops"
    then have "drop i (take j ops) ! (k - i) = ops ! k" "k - i < length (drop i (take j ops))" by auto
    with all show "kind (ops ! k) = opEqual" unfolding all_equal_def by (metis nth_mem)
  qed
next
  assume all: "\<forall>k. i \<le> k \<and> k < j \<and> k < length ops \<longrightarrow> kind (ops ! k) = opEqual"
  have "kind (drop i (take j ops) ! k) = opEqual" if "k < length (drop i (take j ops))" for k
  proof -
    from that have "i \<le> i + k \<and> i + k < j \<and> i + k < length ops" by auto
    with all that show ?thesis by simp
  qed
  then show "all_equal ops i j" unfolding all_equal_def by (metis in_set_conv_nth)
qed

lemma all_equal_refl [simp]: "all_equal ops e e"
  by (simp add: all_equal_def)

lemma covers_snoc:
  "covers ops i (hs @ [h]) j \<longleftrightarrow>
     covers ops i hs (h_start h) \<and> h_start h \<le> h_end h \<and> h_end h \<le> j \<and> all_equal ops (h_end h) j"
  by (induction hs arbitrary: i) auto

lemma covers_start: "covers ops i hs j \<Longrightarrow> hs \<noteq> [] \<Longrightarrow> i \<le> h_end (last hs)"
proof (induction hs arbitrary: i)
  case (Cons h hs)
  then show ?case by (cases "hs = []") fastforce+
qed simp

lemma covers_shrink:
  "covers ops i hs j \<Longrightarrow> i \<le> k \<Longrightarrow> (hs \<noteq> [] \<longrightarrow> h_end (last hs) \<le> k) \<Longrightarrow> k \<le> j \<Longrightarrow> covers ops i hs k"
proof (induction hs arbitrary: i)
  case (Cons h hs)
  then show ?case
    using covers_start [of ops "h_end h" hs j] by (cases "hs = []") (auto simp: all_equal_nth)
qed (auto simp: all_equal_nth)

lemma covers_grow:
  "covers ops i hs j \<Longrightarrow> j < length ops \<Longrightarrow> kind (ops ! j) = opEqual \<Longrightarrow> covers ops i hs (Suc j)"
  by (induction hs arbitrary: i) (auto simp: all_equal_nth less_Suc_eq)

lemma extend_le: "e \<le> length ops \<Longrightarrow> extend ops ctx e \<le> length ops"
proof (induction ops ctx e rule: extend.induct)
  case (1 ops ctx e)
  have "equal_run ops e \<le> length ops - e"
    using length_takeWhile_le [of "\<lambda>p. kind p = opEqual" "drop e ops"] by (simp add: equal_run_def)
  with 1 show ?case by (subst extend.simps) (auto simp: Let_def min_def)
qed

lemma covers_end: "covers ops i hs j \<Longrightarrow> hs \<noteq> [] \<Longrightarrow> h_end (last hs) \<le> j"
  by (induction hs arbitrary: i) (auto split: if_splits)

lemma hunks_loop_covers:
  "covers ops 0 out i \<Longrightarrow> i \<le> length ops \<Longrightarrow> 0 \<le> ctx \<Longrightarrow> covers ops 0 (hunks_loop ops ctx i out) (length ops)"
proof (induction ops ctx i out rule: hunks_loop.induct)
  case (1 ops ctx i out)
  show ?case
  proof (cases "i < length ops \<and> kind (ops ! i) \<noteq> opEqual")
    case False
    with 1 covers_grow [of ops 0 out i] show ?thesis by (subst hunks_loop.simps) auto
  next
    case True
    define start where "start = nat (max 0 (int i - ctx))"
    define e where "e = extend ops ctx (i + 1)"
    define out' where "out' = (if out \<noteq> [] \<and> start \<le> h_end (last out)
        then butlast out @ [(last out)\<lparr>h_end := e\<rparr>] else out @ [\<lparr>h_start = start, h_end = e\<rparr>])"
    have e: "i < e" "e \<le> length ops"
      using extend_ge [of "i + 1" ops ctx] extend_le [of "i + 1" ops ctx] True by (auto simp: e_def)
    have start: "start \<le> i" using "1.prems"(3) by (simp add: start_def)
    have "covers ops 0 out' e"
    proof (cases "out \<noteq> [] \<and> start \<le> h_end (last out)")
      case merge: True
      then have "covers ops 0 (butlast out @ [last out]) i" using "1.prems"(1) by simp
      then have "covers ops 0 (butlast out) (h_start (last out))" "h_start (last out) \<le> e"
        using e by (auto simp: covers_snoc)
      with merge show ?thesis by (simp add: out'_def covers_snoc)
    next
      case new: False
      have "covers ops 0 out start" by (rule covers_shrink [OF "1.prems"(1)]) (use start new in auto)
      moreover from new have "out' = out @ [\<lparr>h_start = start, h_end = e\<rparr>]" by (auto simp: out'_def)
      ultimately show ?thesis using start e by (simp add: covers_snoc)
    qed
    with 1(2) [OF _ _ start_def e_def out'_def] True e "1.prems"(3)
    have "covers ops 0 (hunks_loop ops ctx e out') (length ops)" by auto
    moreover have "hunks_loop ops ctx i out = hunks_loop ops ctx e out'"
      unfolding out'_def e_def start_def hunks_loop.simps [of ops ctx i out] Let_def
      by (simp only: True simp_thms if_True if_False)
    ultimately show ?thesis by simp
  qed
qed

lemma hunks_cover: "0 \<le> ctx \<Longrightarrow> covers ops 0 (hunks ops ctx) (length ops)"
  unfolding hunks_def by (rule hunks_loop_covers) (simp_all add: all_equal_nth)

section \<open>Applying a diff\<close>

text \<open>
  What a patch program does with the hunks: it copies up to the start of a hunk, checks the context
  and the deleted lines, and checks the positions and counts of the header in both texts.
\<close>

fun apply_ops :: "op list \<Rightarrow> string list \<Rightarrow> (string list \<times> string list) option" where
  "apply_ops [] a = Some ([], a)"
| "apply_ops (p # ps) a =
     (if kind p = opInsert then map_option (\<lambda>(out, rest). (line p # out, rest)) (apply_ops ps a)
      else case a of
        [] \<Rightarrow> None
      | x # xs \<Rightarrow>
          if x \<noteq> line p then None
          else if kind p = opDelete then apply_ops ps xs
          else map_option (\<lambda>(out, rest). (x # out, rest)) (apply_ops ps xs))"

fun patch :: "int \<Rightarrow> int \<Rightarrow> ((int \<times> int \<times> int \<times> int) \<times> op list) list \<Rightarrow> string list \<Rightarrow> string list option" where
  "patch pa pb [] a = Some a"
| "patch pa pb (((aStart, aCount, bStart, bCount), body) # hs) a =
     (let skip = (if aCount = 0 then aStart else aStart - 1) - pa in
      if skip < 0 \<or> skip > int (length a) \<or> pb + skip \<noteq> (if bCount = 0 then bStart else bStart - 1) \<or>
         a_lines body \<noteq> aCount \<or> b_lines body \<noteq> bCount then None
      else case apply_ops body (drop (nat skip) a) of
        None \<Rightarrow> None
      | Some (out, rest) \<Rightarrow>
          map_option (\<lambda>tail. take (nat skip) a @ out @ tail) (patch (pa + skip + aCount) (pb + skip + bCount) hs rest))"

lemma apply_ops_sides: "apply_ops ops (a_side ops @ rest) = Some (b_side ops, rest)"
  by (induction ops) (auto simp: sides_Cons split: if_splits)

lemma sides_equal:
  "\<forall>p \<in> set ops. kind p = opEqual \<Longrightarrow> a_side ops = b_side ops \<and> length (a_side ops) = length ops \<and>
     a_lines ops = int (length ops) \<and> b_lines ops = int (length ops)"
  by (induction ops) (auto simp: sides_Cons a_lines_def b_lines_def)

lemma lines_append: "a_lines (xs @ ys) = a_lines xs + a_lines ys" "b_lines (xs @ ys) = b_lines xs + b_lines ys"
  by (simp_all add: a_lines_def b_lines_def)

lemma lines_nonneg: "0 \<le> a_lines ops" "0 \<le> b_lines ops"
  by (simp_all add: a_lines_def b_lines_def)

lemma take_split: "i \<le> j \<Longrightarrow> take j xs = take i xs @ drop i (take j xs)"
  by (metis append_take_drop_id min.absorb1 take_take)

lemma patch_covers:
  assumes "covers ops i hs (length ops)"
  shows "patch (a_lines (take i ops)) (b_lines (take i ops)) (map (\<lambda>h. (hunk_range ops h, hunk_ops ops h)) hs)
     (a_side (drop i ops)) = Some (b_side (drop i ops))"
  using assms
proof (induction hs arbitrary: i)
  case Nil
  then show ?case using sides_equal [of "drop i ops"] by (simp add: all_equal_def)
next
  case (Cons h hs)
  let ?s = "h_start h" and ?e = "h_end h"
  define gap where "gap = drop i (take ?s ops)"
  let ?gap = gap and ?body = "hunk_ops ops h"
  from Cons.prems have h: "i \<le> ?s" "?s \<le> ?e" "all_equal ops i ?s" "covers ops ?e hs (length ops)" by auto
  have gap: "\<forall>p \<in> set ?gap. kind p = opEqual" using h(3) by (simp add: all_equal_def gap_def)
  have g: "a_side ?gap = b_side ?gap" "length (b_side ?gap) = length ?gap"
    "a_lines ?gap = int (length ?gap)" "b_lines ?gap = int (length ?gap)"
    using sides_equal [OF gap] by auto
  have s: "take ?s ops = take i ops @ ?gap" and e: "take ?e ops = take ?s ops @ ?body"
    using take_split h(1,2) by (auto simp: hunk_ops_def gap_def)
  have rest: "drop i ops = ?gap @ ?body @ drop ?e ops"
    using s e by (metis append_assoc append_same_eq append_take_drop_id same_append_eq)
  have skip: "nat (int (length ?gap)) = length (a_side ?gap)" using g by simp
  have "patch (a_lines (take ?e ops)) (b_lines (take ?e ops)) (map (\<lambda>h. (hunk_range ops h, hunk_ops ops h)) hs)
      (a_side (drop ?e ops)) = Some (b_side (drop ?e ops))"
    by (rule Cons.IH [OF h(4)])
  moreover have "a_lines (take ?e ops) = a_lines (take i ops) + int (length ?gap) + a_lines ?body"
    "b_lines (take ?e ops) = b_lines (take i ops) + int (length ?gap) + b_lines ?body"
    unfolding e s lines_append using g by simp_all
  ultimately have tail: "patch (a_lines (take i ops) + int (length ?gap) + a_lines ?body)
      (b_lines (take i ops) + int (length ?gap) + b_lines ?body)
      (map (\<lambda>h. (hunk_range ops h, hunk_ops ops h)) hs) (a_side (drop ?e ops)) = Some (b_side (drop ?e ops))"
    by simp
  define aC bC aS bS where "aC = a_lines ?body" and "bC = b_lines ?body"
    and "aS = (if aC = 0 then a_lines (take ?s ops) else 1 + a_lines (take ?s ops))"
    and "bS = (if bC = 0 then b_lines (take ?s ops) else 1 + b_lines (take ?s ops))"
  have range: "hunk_range ops h = (aS, aC, bS, bC)"
    by (simp add: hunk_range_def Let_def aS_def aC_def bS_def bC_def)
  have pos: "(if aC = 0 then aS else aS - 1) - a_lines (take i ops) = int (length ?gap)"
    "(if bC = 0 then bS else bS - 1) = b_lines (take i ops) + int (length ?gap)"
    using g by (simp_all add: aS_def bS_def s lines_append)
  have a: "a_side (drop i ops) = a_side ?gap @ a_side ?body @ a_side (drop ?e ops)"
    and b: "b_side (drop i ops) = b_side ?gap @ b_side ?body @ b_side (drop ?e ops)"
    unfolding rest by simp_all
  have dt: "drop (nat (int (length ?gap))) (a_side (drop i ops)) = a_side ?body @ a_side (drop ?e ops)"
    "take (nat (int (length ?gap))) (a_side (drop i ops)) = b_side ?gap"
    unfolding a skip using g by simp_all
  have len: "int (length ?gap) \<le> int (length (a_side (drop i ops)))" unfolding a using g by simp
  show ?case
    using tail pos dt len
    by (simp add: range apply_ops_sides Let_def b aC_def [symmetric] bC_def [symmetric] del: nat_int)
qed

text \<open>
  C13. A unified diff is empty for identical texts and otherwise prints hunks that, applied in order
  to the lines of the first text, give exactly the lines of the second: every context and deleted
  line is found where the header says, every header has the right position and count in both texts,
  and no change is left out, for every number of context lines.
\<close>

theorem Unified_patch:
  "let ops = diffLines (splitLines from) (splitLines to); hs = hunks ops (max 0 ctx) in
   Unified fromName toName from to ctx =
     (if from = to then []
      else ''--- '' @ fromName @ [newline] @ ''+++ '' @ toName @ [newline] @ concat (map (writeHunk ops) hs)) \<and>
   patch 0 0 (map (\<lambda>h. (hunk_range ops h, hunk_ops ops h)) hs) (splitLines from) = Some (splitLines to)"
proof -
  let ?ops = "diffLines (splitLines from) (splitLines to)"
  have "patch 0 0 (map (\<lambda>h. (hunk_range ?ops h, hunk_ops ?ops h)) (hunks ?ops (max 0 ctx))) (splitLines from) = Some (splitLines to)"
    using patch_covers [OF hunks_cover, of "max 0 ctx" ?ops]
    by (simp add: diffLines_sides a_lines_def b_lines_def)
  moreover have "(if ctx < 0 then 0 else ctx) = max 0 ctx" by simp
  ultimately show ?thesis by (simp add: Unified_def Let_def)
qed

end
