(* ===== verification/Breaker.thy ===== *)
theory Breaker
  imports Policy_Resolve Transition
begin

text \<open>
  The circuit breaker of an endpoint group, \<^verbatim>\<open>internal/breaker\<close>: the arguments derived from a
  policy (\<^verbatim>\<open>scripts.go\<close>), the scripts that run inside Redis (\<^verbatim>\<open>lua/breaker_eval.lua\<close>,
  \<^verbatim>\<open>lua/breaker_set.lua\<close>) with the other writers of the same hash (the gate of
  \<^verbatim>\<open>acquire_main.lua\<close>, the probe accounting of \<^verbatim>\<open>acquire_write.lua\<close>, \<^verbatim>\<open>observe.lua\<close> and
  \<^verbatim>\<open>lease_end.lua\<close>, the removal in \<^verbatim>\<open>sync_maintenance.lua\<close>), and the decoding of the replies.

  A script runs atomically.  Its numbers are doubles that hold integers below 2^53 (milliseconds
  and counters), on which sums, products and the floor and ceiling of quotients are exact, so they
  are integers here; ratios are computed in floating point.  A missing hash reads as empty fields.
\<close>

section \<open>Arguments\<close>

abbreviation StateClosed :: string where "StateClosed \<equiv> ''closed''"
abbreviation StateOpen :: string where "StateOpen \<equiv> ''open''"
abbreviation StateHalfOpen :: string where "StateHalfOpen \<equiv> ''half_open''"

record evalParams =
  ep_BucketMs :: int
  ep_Buckets :: int
  ep_MinRequests :: int
  ep_RiskRatioGte :: f64
  ep_CaptchaGte :: int
  ep_SuccessRatioLte :: f64
  ep_OpenMs :: int
  ep_MaxOpenMs :: int
  ep_ResetAfterMs :: int
  ep_CloseMinSamples :: int
  ep_CloseSuccessRatioGte :: f64
  ep_Enabled :: bool
  ep_WindowMs :: int
  ep_Revert :: string

definition positiveMs :: "int \<Rightarrow> int \<Rightarrow> int" where
  "positiveMs v def = (if v > 0 then v else def)"

text \<open>The guard of \<^verbatim>\<open>builtinBreaker\<close> rebuilds the specification that \<open>newBreakerBase\<close> starts from.\<close>

definition defaultSpec :: BreakerSpec where
  "defaultSpec = (case Default KindBreaker of Breaker_spec (Some s) \<Rightarrow> s | _ \<Rightarrow> newBreakerBase)"

definition paramsFor :: "BreakerSpec option \<Rightarrow> evalParams" where
  "paramsFor spec =
     (let def = defaultSpec;
          s = (case spec of None \<Rightarrow> def | Some s \<Rightarrow> s);
          windowMs = positiveMs (Milliseconds (bs_Window s)) (Milliseconds (bs_Window def));
          buckets = (if bs_Buckets s \<le> 0 \<or> bs_Buckets s > 60 then bs_Buckets def else bs_Buckets s);
          bucketMs = windowMs div buckets;
          openMs = positiveMs (Milliseconds (bs_OpenDuration s)) (Milliseconds (bs_OpenDuration def));
          maxOpenMs = positiveMs (Milliseconds (bs_MaxOpenDuration s)) (Milliseconds (bs_MaxOpenDuration def));
          ratio = ho_CloseSuccessRatioGte (bs_HalfOpen s)
      in \<lparr>ep_BucketMs = (if bucketMs \<le> 0 then 1 else bucketMs),
          ep_Buckets = buckets,
          ep_MinRequests = (if bs_MinRequests s \<le> 0 then bs_MinRequests def else bs_MinRequests s),
          ep_RiskRatioGte = tr_RiskRatioGte (bs_Trip s),
          ep_CaptchaGte = tr_DistinctCaptchaIdentitiesGte (bs_Trip s),
          ep_SuccessRatioLte = tr_SuccessRatioLte (bs_Trip s),
          ep_OpenMs = openMs,
          ep_MaxOpenMs = (if maxOpenMs < openMs then openMs else maxOpenMs),
          ep_ResetAfterMs =
            positiveMs (Milliseconds (bs_ResetOpenCountAfter s)) (Milliseconds (bs_ResetOpenCountAfter def)),
          ep_CloseMinSamples =
            (if ho_CloseMinSamples (bs_HalfOpen s) \<le> 0 then ho_CloseMinSamples (bs_HalfOpen def)
             else ho_CloseMinSamples (bs_HalfOpen s)),
          ep_CloseSuccessRatioGte = (if f_le ratio (Fin 0) then ho_CloseSuccessRatioGte (bs_HalfOpen def) else ratio),
          ep_Enabled = bs_Enabled s,
          ep_WindowMs = windowMs,
          ep_Revert =
            (if ValidRevertMode (bs_RevertRecentCooldowns s) then bs_RevertRecentCooldowns s else ''endpoint'')\<rparr>)"

section \<open>The breaker hash\<close>

record brk =
  st :: string
  ou :: int
  oc :: int
  lo :: int
  lc :: int
  man :: int
  hw :: int
  hc :: int
  ps :: int
  pk :: int
  rsn :: string
  v :: int

text \<open>The hash of a group, and whether the group is a member of the set \<^verbatim>\<open>brko\<close>.\<close>

record group =
  g_brk :: brk
  g_brko :: bool

definition no_brk :: brk where
  "no_brk = \<lparr>st = '''', ou = 0, oc = 0, lo = 0, lc = 0, man = 0, hw = 0, hc = 0, ps = 0, pk = 0, rsn = '''', v = 0\<rparr>"

definition normalizeState :: "string \<Rightarrow> string" where
  "normalizeState s = (if s = StateOpen \<or> s = StateHalfOpen then s else StateClosed)"

section \<open>Evaluation\<close>

record Window =
  w_Total :: int
  w_Success :: int
  w_Risk :: int
  w_Captcha :: int

text \<open>The indices of the buckets that are summed.\<close>

definition window_buckets :: "int \<Rightarrow> int \<Rightarrow> int \<Rightarrow> int \<Rightarrow> int list" where
  "window_buckets bucket_ms buckets now last_close =
     (let lst = now div bucket_ms;
          fst = lst - buckets + 1;
          after_close = - ((- last_close) div bucket_ms);
          fst = (if last_close > 0 \<and> after_close > fst then after_close else fst)
      in [fst..lst])"

text \<open>\<open>win\<close> gives the three counters of a bucket, \<open>pfcount\<close> the HyperLogLog count over buckets.\<close>

definition window_sums :: "(int \<Rightarrow> int \<times> int \<times> int) \<Rightarrow> (int list \<Rightarrow> int) \<Rightarrow> int list \<Rightarrow> Window" where
  "window_sums win pfcount bs =
     \<lparr>w_Total = sum_list (map (fst \<circ> win) bs), w_Success = sum_list (map (fst \<circ> snd \<circ> win) bs),
      w_Risk = sum_list (map (snd \<circ> snd \<circ> win) bs), w_Captcha = (if bs \<noteq> [] then pfcount bs else 0)\<rparr>"

function open_for_loop :: "int \<Rightarrow> int \<Rightarrow> int \<Rightarrow> int \<Rightarrow> int" where
  "open_for_loop max_open_ms n d k =
     (if k < n \<and> d < max_open_ms then open_for_loop max_open_ms n (d * 2) (k + 1) else d)"
  by pat_completeness auto
termination
  by (relation "measure (\<lambda>(m, n, d, k). nat (n - k))") auto

declare open_for_loop.simps [simp del]

definition open_for :: "int \<Rightarrow> int \<Rightarrow> int \<Rightarrow> int" where
  "open_for open_ms max_open_ms n =
     (let d = open_for_loop max_open_ms n open_ms 1 in if d > max_open_ms then max_open_ms else d)"

text \<open>\<^verbatim>\<open>string.format('%.2f', x)\<close> of a ratio, which is not negative: exact decimal, ties to even.\<close>

definition ratio_str :: "f64 \<Rightarrow> string" where
  "ratio_str x =
     (case x of
        Fin r \<Rightarrow> (let n = round_int (r * 100) in
                  Itoa (n div 100) @ ''.'' @ (if n mod 100 < 10 then ''0'' else '''') @ Itoa (n mod 100))
      | Inf s \<Rightarrow> (if s then ''inf'' else ''-inf'')
      | NaN \<Rightarrow> ''nan'')"

definition ratio :: "int \<Rightarrow> int \<Rightarrow> f64" where
  "ratio a b = f_div (of_int64 a) (of_int64 b)"

definition go_closed :: "int \<Rightarrow> string \<Rightarrow> brk \<Rightarrow> brk" where
  "go_closed now reason b =
     b\<lparr>st := StateClosed, ou := 0, man := 0, lc := now, hw := 0, hc := 0, ps := 0, pk := 0, rsn := reason, v := v b + 1\<rparr>"

definition go_open :: "int \<Rightarrow> int \<Rightarrow> int \<Rightarrow> string \<Rightarrow> int \<Rightarrow> brk \<Rightarrow> brk" where
  "go_open open_ms max_open_ms now reason next_oc b =
     b\<lparr>oc := next_oc, st := StateOpen, man := 0, lo := now, ou := now + open_for open_ms max_open_ms next_oc,
       hw := 0, hc := 0, ps := 0, pk := 0, rsn := reason, v := v b + 1\<rparr>"

definition go_half_open :: "int \<Rightarrow> brk \<Rightarrow> brk" where
  "go_half_open now b =
     b\<lparr>st := StateHalfOpen, ou := 0, hw := now, hc := 0, ps := 0, pk := 0, v := v b + 1\<rparr>"

definition trip_reasons :: "evalParams \<Rightarrow> Window \<Rightarrow> string list" where
  "trip_reasons p w =
     (let rr = ratio (w_Risk w) (w_Total w); sr = ratio (w_Success w) (w_Total w) in
      (if f_lt (Fin 0) (ep_RiskRatioGte p) \<and> f_le (ep_RiskRatioGte p) rr
       then [''risk_ratio '' @ ratio_str rr @ '' >= '' @ ratio_str (ep_RiskRatioGte p)] else []) @
      (if ep_CaptchaGte p > 0 \<and> w_Captcha w \<ge> ep_CaptchaGte p
       then [''captcha_identities '' @ Itoa (w_Captcha w) @ '' >= '' @ Itoa (ep_CaptchaGte p)] else []) @
      (if f_lt (Fin 0) (ep_SuccessRatioLte p) \<and> f_le sr (ep_SuccessRatioLte p)
       then [''success_ratio '' @ ratio_str sr @ '' <= '' @ ratio_str (ep_SuccessRatioLte p)] else []))"

text \<open>The clamps the script applies to its arguments.\<close>

definition clamp_args :: "evalParams \<Rightarrow> evalParams" where
  "clamp_args p =
     (let open_ms = max (ep_OpenMs p) 1 in
      p\<lparr>ep_BucketMs := max (ep_BucketMs p) 1,
        ep_Buckets := (if ep_Buckets p < 1 then 1 else if ep_Buckets p > 60 then 60 else ep_Buckets p),
        ep_MinRequests := max (ep_MinRequests p) 1,
        ep_CloseMinSamples := max (ep_CloseMinSamples p) 1,
        ep_OpenMs := open_ms,
        ep_MaxOpenMs := max (ep_MaxOpenMs p) open_ms\<rparr>)"

text \<open>The state machine: the new state, the state entered (empty for none) and the trigger.\<close>

definition decide :: "evalParams \<Rightarrow> int \<Rightarrow> Window \<Rightarrow> brk \<Rightarrow> brk \<times> string \<times> string" where
  "decide p now w b =
     (if \<not> ep_Enabled p then
        if st b = StateHalfOpen \<or> st b = StateOpen \<and> man b \<noteq> 1 then
          (go_closed now ''breaker disabled by policy'' b, StateClosed, ''auto'')
        else if st b = StateOpen \<and> ou b > 0 \<and> now \<ge> ou b then
          (go_closed now ''manual open expired (breaker disabled by policy)'' b, StateClosed, ''auto'')
        else (b, '''', '''')
      else if st b = StateClosed then
        if w_Total w \<ge> ep_MinRequests p \<and> w_Total w > 0 \<and> trip_reasons p w \<noteq> [] then
          let next_oc = (if lc b > 0 \<and> now - lc b \<ge> ep_ResetAfterMs p then 1 else oc b + 1)
          in (go_open (ep_OpenMs p) (ep_MaxOpenMs p) now (join ''; '' (trip_reasons p w)) next_oc b, StateOpen, ''auto'')
        else (b, '''', '''')
      else if st b = StateOpen then
        if ou b > 0 \<and> now \<ge> ou b \<or> man b \<noteq> 1 \<and> ou b \<le> 0 then (go_half_open now b, StateHalfOpen, ''auto'')
        else (b, '''', '''')
      else if st b = StateHalfOpen then
        if ps b \<ge> ep_CloseMinSamples p then
          let pr = ratio (pk b) (ps b) in
          if f_le (ep_CloseSuccessRatioGte p) pr then
            (go_closed now (''probe success_ratio '' @ ratio_str pr @ '' >= '' @ ratio_str (ep_CloseSuccessRatioGte p)) b,
             StateClosed, ''probe'')
          else
            (go_open (ep_OpenMs p) (ep_MaxOpenMs p) now
               (''probe success_ratio '' @ ratio_str pr @ '' < '' @ ratio_str (ep_CloseSuccessRatioGte p)) (oc b + 1) b,
             StateOpen, ''probe'')
        else (b, '''', '''')
      else (b, '''', ''''))"

definition brk_fields :: "brk \<Rightarrow> string list" where
  "brk_fields b =
     [st b, Itoa (ou b), Itoa (oc b), Itoa (lo b), Itoa (lc b), Itoa (man b), Itoa (hw b), Itoa (hc b), Itoa (ps b),
      Itoa (pk b), rsn b, Itoa (v b)]"

text \<open>The hash as the scripts read it, and the test for a half-open entered by an acquire and not recorded yet.\<close>

definition load :: "group \<Rightarrow> brk" where
  "load g = (g_brk g)\<lparr>st := normalizeState (st (g_brk g))\<rparr>"

definition unrecorded :: "brk \<Rightarrow> bool" where
  "unrecorded b \<longleftrightarrow> st b = StateHalfOpen \<and> ou b > 0"

definition lazy_at :: "int \<Rightarrow> brk \<Rightarrow> int" where
  "lazy_at now b = (if unrecorded b then if hw b \<le> 0 then now else hw b else 0)"

definition eval_window :: "(int \<Rightarrow> int \<times> int \<times> int) \<Rightarrow> (int list \<Rightarrow> int) \<Rightarrow> evalParams \<Rightarrow> int \<Rightarrow> brk \<Rightarrow> Window" where
  "eval_window win pfcount p now b =
     window_sums win pfcount (window_buckets (ep_BucketMs p) (ep_Buckets p) now (lc b))"

definition eval_reply :: "brk \<Rightarrow> string \<Rightarrow> string \<Rightarrow> Window \<Rightarrow> brk \<Rightarrow> bool \<Rightarrow> int \<Rightarrow> string list" where
  "eval_reply b to trigger w b' lazy lat =
     [st b, to, trigger, Itoa (w_Total w), Itoa (w_Success w), Itoa (w_Risk w), Itoa (w_Captcha w)] @
     brk_fields b' @ [Itoa (ps b), Itoa (pk b), if lazy then ''1'' else ''0'', Itoa lat]"

text \<open>\<^verbatim>\<open>breaker_eval.lua\<close>; mode \<^verbatim>\<open>read\<close> never writes.\<close>

definition breaker_eval ::
  "(int \<Rightarrow> int \<times> int \<times> int) \<Rightarrow> (int list \<Rightarrow> int) \<Rightarrow> evalParams \<Rightarrow> int \<Rightarrow> string \<Rightarrow> group \<Rightarrow> group \<times> string list" where
  "breaker_eval win pfcount args now mode g =
     (let p = clamp_args args; b = load g; w = eval_window win pfcount p now b in
      if mode \<noteq> ''eval'' then (g, eval_reply b '''' '''' w b False 0)
      else if unrecorded b then
        (\<lparr>g_brk = b\<lparr>ou := 0\<rparr>, g_brko = (st b \<noteq> StateClosed)\<rparr>, eval_reply b '''' '''' w (b\<lparr>ou := 0\<rparr>) True (lazy_at now b))
      else case decide p now w b of
        (b', to, trigger) \<Rightarrow>
          (\<lparr>g_brk = (if to \<noteq> '''' then b' else g_brk g), g_brko = (st b' \<noteq> StateClosed)\<rparr>,
           eval_reply b to trigger w b' False 0))"

section \<open>Manual operations\<close>

text \<open>\<^verbatim>\<open>breaker_set.lua\<close>; \<open>None\<close> is the error reply for an unknown operation.\<close>

definition set_open :: "int \<Rightarrow> int \<Rightarrow> string \<Rightarrow> brk \<Rightarrow> brk" where
  "set_open now duration reason b =
     b\<lparr>st := StateOpen, man := 1, lo := now, ou := (if duration > 0 then now + duration else 0),
       hw := 0, hc := 0, ps := 0, pk := 0, rsn := reason, v := v b + 1\<rparr>"

definition set_reply :: "int \<Rightarrow> brk \<Rightarrow> brk \<Rightarrow> bool \<Rightarrow> string list" where
  "set_reply now b b' changed =
     [st b, st b', if changed then ''1'' else ''0''] @ brk_fields b' @
     [if unrecorded b then ''1'' else ''0'', Itoa (lazy_at now b), rsn b, Itoa (man b)]"

definition breaker_set :: "int \<Rightarrow> string \<Rightarrow> int \<Rightarrow> string \<Rightarrow> group \<Rightarrow> (group \<times> string list) option" where
  "breaker_set now operation duration reason g =
     (let b = load g in
      if operation = ''open'' then
        let b' = set_open now duration reason b in Some (\<lparr>g_brk = b', g_brko = True\<rparr>, set_reply now b b' True)
      else if operation = ''close'' then
        if st b \<noteq> StateClosed then
          let b' = go_closed now reason b in Some (\<lparr>g_brk = b', g_brko = False\<rparr>, set_reply now b b' True)
        else Some (g, set_reply now b b False)
      else None)"

section \<open>The other writers\<close>

abbreviation (input) PROBE_WINDOW :: int where "PROBE_WINDOW \<equiv> 10000"

datatype gate = Refused int | Admitted bool

text \<open>
  The breaker gate of \<^verbatim>\<open>acquire_main.lua\<close>: refused with the time to wait, or admitted, as a probe
  or not; and whether the call moved the breaker from open to half-open.
\<close>

definition acquire_gate :: "int \<Rightarrow> int \<Rightarrow> group \<Rightarrow> group \<times> bool \<times> gate" where
  "acquire_gate probe_limit now g =
     (let b = g_brk g in
      if st b = StateOpen \<and> man b = 1 \<and> ou b = 0 then (g, False, Refused 60000)
      else if st b = StateOpen \<and> now < ou b then (g, False, Refused (ou b - now))
      else
        let transition = (st b = StateOpen);
            b = (if transition then b\<lparr>st := StateHalfOpen, hw := now, hc := 0, ps := 0, pk := 0, v := v b + 1\<rparr> else b)
        in if st b = StateHalfOpen then
             let b = (if now - hw b \<ge> PROBE_WINDOW then b\<lparr>hw := now, hc := 0\<rparr> else b)
             in (g\<lparr>g_brk := b\<rparr>, transition,
                 if hc b \<ge> probe_limit then Refused (max (hw b + PROBE_WINDOW - now) 1) else Admitted True)
           else (g\<lparr>g_brk := b\<rparr>, transition, Admitted False))"

text \<open>The slot of a probe: taken by \<open>write_lease\<close>, given back by \<open>ls_abort_accounting\<close> (the lease was acquired at \<open>a\<close>).\<close>

definition take_probe :: "group \<Rightarrow> group" where
  "take_probe g = g\<lparr>g_brk := (g_brk g)\<lparr>hc := hc (g_brk g) + 1\<rparr>\<rparr>"

definition abort_probe :: "int \<Rightarrow> group \<Rightarrow> group" where
  "abort_probe a g =
     (let b = g_brk g in
      if st b = StateHalfOpen \<and> hw b \<le> a then g\<lparr>g_brk := b\<lparr>hc := (if hc b - 1 < 0 then 0 else hc b - 1)\<rparr>\<rparr> else g)"

text \<open>
  One acquire as the breaker sees it: the gate and, when the call admits a probe and finds an
  identity, the slot of its lease (a probe call writes at most one lease).
\<close>

definition acquire_brk :: "int \<Rightarrow> int \<Rightarrow> bool \<Rightarrow> group \<Rightarrow> group \<times> bool \<times> gate" where
  "acquire_brk probe_limit now found g =
     (case acquire_gate probe_limit now g of
        (g', transition, r) \<Rightarrow> (if r = Admitted True \<and> found then take_probe g' else g', transition, r))"

text \<open>The report of a probe lease in \<^verbatim>\<open>observe.lua\<close>, and whether the breaker suppresses actions.\<close>

definition observe_brk :: "int \<Rightarrow> bool \<Rightarrow> bool \<Rightarrow> group \<Rightarrow> group \<times> bool" where
  "observe_brk now probe is_success g =
     (let b = g_brk g;
          brk_open = (st b = StateOpen \<and> (ou b = 0 \<and> man b = 1 \<or> now < ou b))
      in (if probe \<and> st b = StateHalfOpen
          then g\<lparr>g_brk := b\<lparr>ps := ps b + 1, pk := (if is_success then pk b + 1 else pk b)\<rparr>\<rparr> else g,
          brk_open \<and> \<not> probe))"

definition drop_group :: "group \<Rightarrow> group" where
  "drop_group g = \<lparr>g_brk = no_brk, g_brko = False\<rparr>"

section \<open>Decoding the replies\<close>

record Hash =
  State :: string
  OpenUntilMs :: int
  OpenCount :: int
  LastOpenedMs :: int
  LastClosedMs :: int
  Manual :: bool
  HalfOpenMs :: int
  ProbesIssued :: int
  ProbeSamples :: int
  ProbeSuccesses :: int
  Reason :: string
  Version :: int

record evalResult =
  er_From :: string
  er_To :: string
  er_Trigger :: string
  er_Window :: Window
  er_Hash :: Hash
  er_ProbeSamples :: int
  er_ProbeSuccesses :: int
  er_LazyHalfOpen :: bool
  er_LazyAtMs :: int

record setResult =
  sr_From :: string
  sr_To :: string
  sr_Changed :: bool
  sr_Hash :: Hash
  sr_LazyHalfOpen :: bool
  sr_LazyAtMs :: int
  sr_LazyReason :: string
  sr_LazyManual :: bool

datatype reply_error = Wrong_count nat nat | Value_missing nat | Value_bad nat

definition num_error :: "string list \<Rightarrow> nat \<Rightarrow> reply_error option" where
  "num_error vals i =
     (if i \<ge> length vals then Some (Value_missing i)
      else if vals ! i = '''' then None
      else case ParseInt (vals ! i) 10 64 of None \<Rightarrow> Some (Value_bad i) | Some _ \<Rightarrow> None)"

definition num_at :: "string list \<Rightarrow> nat \<Rightarrow> int" where
  "num_at vals i =
     (if i \<ge> length vals then 0 else if vals ! i = '''' then 0
      else case ParseInt (vals ! i) 10 64 of None \<Rightarrow> 0 | Some n \<Rightarrow> n)"

text \<open>The parser remembers the first failure of the positions it is asked for.\<close>

fun first_error :: "string list \<Rightarrow> nat list \<Rightarrow> reply_error option" where
  "first_error vals [] = None"
| "first_error vals (i # is) = (case num_error vals i of None \<Rightarrow> first_error vals is | Some e \<Rightarrow> Some e)"

definition str_at :: "string list \<Rightarrow> nat \<Rightarrow> string" where
  "str_at vals i = (if i < length vals then vals ! i else '''')"

definition hash_positions :: "nat \<Rightarrow> nat list" where
  "hash_positions k = [k + 1, k + 2, k + 3, k + 4, k + 5, k + 6, k + 7, k + 8, k + 9, k + 11]"

definition parseHash :: "string list \<Rightarrow> nat \<Rightarrow> Hash" where
  "parseHash vals k =
     \<lparr>State = normalizeState (str_at vals k), OpenUntilMs = num_at vals (k + 1), OpenCount = num_at vals (k + 2),
      LastOpenedMs = num_at vals (k + 3), LastClosedMs = num_at vals (k + 4), Manual = (num_at vals (k + 5) = 1),
      HalfOpenMs = num_at vals (k + 6), ProbesIssued = num_at vals (k + 7), ProbeSamples = num_at vals (k + 8),
      ProbeSuccesses = num_at vals (k + 9), Reason = str_at vals (k + 10), Version = num_at vals (k + 11)\<rparr>"

definition parseEvalResult :: "string list \<Rightarrow> reply_error + evalResult" where
  "parseEvalResult vals =
     (if length vals \<noteq> 23 then Inl (Wrong_count (length vals) 23)
      else case first_error vals ([3, 4, 5, 6] @ hash_positions 7 @ [19, 20, 21, 22]) of
        Some e \<Rightarrow> Inl e
      | None \<Rightarrow> Inr
          \<lparr>er_From = vals ! 0, er_To = vals ! 1, er_Trigger = vals ! 2,
           er_Window = \<lparr>w_Total = num_at vals 3, w_Success = num_at vals 4, w_Risk = num_at vals 5, w_Captcha = num_at vals 6\<rparr>,
           er_Hash = parseHash vals 7, er_ProbeSamples = num_at vals 19, er_ProbeSuccesses = num_at vals 20,
           er_LazyHalfOpen = (num_at vals 21 = 1), er_LazyAtMs = num_at vals 22\<rparr>)"

definition parseSetResult :: "string list \<Rightarrow> reply_error + setResult" where
  "parseSetResult vals =
     (if length vals \<noteq> 19 then Inl (Wrong_count (length vals) 19)
      else case first_error vals (hash_positions 3 @ [15, 16, 18]) of
        Some e \<Rightarrow> Inl e
      | None \<Rightarrow> Inr
          \<lparr>sr_From = vals ! 0, sr_To = vals ! 1, sr_Changed = (vals ! 2 = ''1''), sr_Hash = parseHash vals 3,
           sr_LazyHalfOpen = (num_at vals 15 = 1), sr_LazyAtMs = num_at vals 16, sr_LazyReason = vals ! 17,
           sr_LazyManual = (num_at vals 18 = 1)\<rparr>)"

definition Transitioned :: "evalResult \<Rightarrow> bool" where
  "Transitioned r \<longleftrightarrow> er_To r \<noteq> ''''"

end
