(* ===== verification/Breaker_Laws.thy ===== *)
theory Breaker_Laws
  imports Breaker
begin

text \<open>
  Laws of the circuit breaker: the arguments of the script, the open period and the window; the
  invariant of the hash under every writer, as an invariant of the transition system \<open>brk_step\<close>; what
  an evaluation decides; and the gate of an acquire.
\<close>

section \<open>Arguments\<close>

lemma default_breaker_values:
  "Milliseconds (bs_Window defaultSpec) = 60000" "bs_Buckets defaultSpec = 12" "bs_MinRequests defaultSpec = 50"
  "Milliseconds (bs_OpenDuration defaultSpec) = 120000" "Milliseconds (bs_MaxOpenDuration defaultSpec) = 3600000"
  "ho_CloseMinSamples (bs_HalfOpen defaultSpec) = 5"
  by (simp_all add: defaultSpec_def Default_def newBreakerBase_def BreakerSpec_ApplyDefaults_def half_open_defaults_def
      setInt_def setDuration_def Let_def Milliseconds_def IsPermanent_def)

text \<open>The service never passes a value that the script would clamp.\<close>

lemma clamp_paramsFor: "clamp_args (paramsFor spec) = paramsFor spec"
  by (auto simp: clamp_args_def paramsFor_def Let_def default_breaker_values positiveMs_def split: option.splits)

lemma paramsFor_bounds:
  "0 < ep_BucketMs (paramsFor spec)" "0 < ep_MinRequests (paramsFor spec)"
  "0 < ep_OpenMs (paramsFor spec)" "ep_OpenMs (paramsFor spec) \<le> ep_MaxOpenMs (paramsFor spec)"
  "0 < ep_CloseMinSamples (paramsFor spec)"
  by (auto simp: paramsFor_def Let_def default_breaker_values positiveMs_def split: option.splits)

section \<open>The open period\<close>

lemma open_for_loop_pos: "0 < d \<Longrightarrow> 0 < open_for_loop m n d k"
  by (induction m n d k rule: open_for_loop.induct) (simp add: open_for_loop.simps)

lemma open_for_loop_min:
  "0 < d \<Longrightarrow> min (open_for_loop m n d k) m = min (d * 2 ^ nat (n - k)) m"
proof (induction m n d k rule: open_for_loop.induct)
  case (1 m n d k)
  show ?case
  proof (cases "k < n \<and> d < m")
    case True
    then have "nat (n - k) = Suc (nat (n - (k + 1)))" by linarith
    with 1 True show ?thesis by (subst open_for_loop.simps) (simp add: mult.assoc)
  next
    case False
    have "d \<le> d * 2 ^ nat (n - k)" using 1 by simp
    with False show ?thesis
      by (subst open_for_loop.simps) (auto simp: not_less min_def)
  qed
qed

lemma open_for_backoff: "0 < d \<Longrightarrow> open_for d m n = min (d * 2 ^ nat (n - 1)) m"
  using open_for_loop_min [of d m n 1] by (auto simp: open_for_def Let_def min_def split: if_splits)

lemma open_for_pos: "0 < d \<Longrightarrow> d \<le> m \<Longrightarrow> 0 < open_for d m n"
  by (simp add: open_for_backoff)

section \<open>The window\<close>

lemma le_div_int:
  fixes a b k :: int
  assumes "0 < b"
  shows "k \<le> a div b \<longleftrightarrow> k * b \<le> a"
proof
  assume "k \<le> a div b"
  then have "k * b \<le> a div b * b" using assms by simp
  also have "\<dots> \<le> a" using assms pos_mod_sign [of b a] div_mult_mod_eq [of a b] by linarith
  finally show "k * b \<le> a" .
next
  assume "k * b \<le> a"
  from zdiv_mono1 [OF this assms] assms show "k \<le> a div b" by simp
qed

lemma window_buckets_set:
  assumes "0 < bm"
  shows "set (window_buckets bm n now c) =
           {b. now div bm - n < b \<and> b \<le> now div bm \<and> (0 < c \<longrightarrow> c \<le> b * bm)}"
proof -
  define a where "a = - ((- c) div bm)"
  have a: "a \<le> b \<longleftrightarrow> c \<le> b * bm" for b
    using le_div_int [OF assms, of "- b" "- c"] by (auto simp: a_def)
  have "set (window_buckets bm n now c) = {b. now div bm - n < b \<and> b \<le> now div bm \<and> (0 < c \<longrightarrow> a \<le> b)}"
    unfolding window_buckets_def Let_def a_def [symmetric] by auto
  then show ?thesis by (simp only: a)
qed

section \<open>Invariant\<close>

abbreviation not_closed :: "brk \<Rightarrow> bool" where "not_closed b \<equiv> st b = StateOpen \<or> st b = StateHalfOpen"

definition brk_inv :: "int \<Rightarrow> group \<Rightarrow> bool" where
  "brk_inv plim g \<longleftrightarrow>
     (let b = g_brk g in
      st b \<in> {'''', StateClosed, StateOpen, StateHalfOpen} \<and> g_brko g = not_closed b \<and>
      0 \<le> pk b \<and> pk b \<le> ps b \<and> 0 \<le> hc b \<and> hc b \<le> plim \<and> 0 \<le> ou b \<and> 0 \<le> oc b \<and> 0 \<le> v b \<and>
      man b \<in> {0, 1} \<and>
      (st b = StateHalfOpen \<longrightarrow> 0 < hw b) \<and>
      (st b \<noteq> StateHalfOpen \<longrightarrow> hw b = 0 \<and> hc b = 0 \<and> ps b = 0 \<and> pk b = 0) \<and>
      (st b = StateOpen \<and> man b = 0 \<longrightarrow> 0 < ou b \<and> 0 < oc b) \<and>
      (\<not> not_closed b \<longrightarrow> ou b = 0 \<and> man b = 0))"

text \<open>The writers of the hash, in any order; the clock and the arguments of each call are arbitrary.\<close>

inductive brk_step :: "int \<Rightarrow> group \<Rightarrow> group \<Rightarrow> bool" for plim where
  eval: "0 < now \<Longrightarrow> brk_step plim g (fst (breaker_eval win pfcount (paramsFor spec) now mode g))"
| set: "0 < now \<Longrightarrow> breaker_set now operation duration reason g = Some (g', reply) \<Longrightarrow> brk_step plim g g'"
| acquire: "0 < now \<Longrightarrow> probe_limit \<le> plim \<Longrightarrow> brk_step plim g (fst (acquire_brk probe_limit now found g))"
| observe: "brk_step plim g (fst (observe_brk now probe is_success g))"
| abort: "brk_step plim g (abort_probe a g)"
| drop: "brk_step plim g (drop_group g)"

definition brk_start :: "group \<Rightarrow> bool" where
  "brk_start g \<longleftrightarrow> g = \<lparr>g_brk = no_brk, g_brko = False\<rparr>"

text \<open>The three ways through the evaluation script.\<close>

lemma eval_read: "mode \<noteq> ''eval'' \<Longrightarrow>
  breaker_eval win pfcount (paramsFor spec) now mode g =
    (g, eval_reply (load g) '''' '''' (eval_window win pfcount (paramsFor spec) now (load g)) (load g) False 0)"
  by (simp add: breaker_eval_def Let_def clamp_paramsFor)

lemma eval_lazy: "unrecorded (load g) \<Longrightarrow>
  breaker_eval win pfcount (paramsFor spec) now ''eval'' g =
    (\<lparr>g_brk = (load g)\<lparr>ou := 0\<rparr>, g_brko = True\<rparr>,
     eval_reply (load g) '''' '''' (eval_window win pfcount (paramsFor spec) now (load g)) ((load g)\<lparr>ou := 0\<rparr>) True
       (lazy_at now (load g)))"
  by (simp add: breaker_eval_def Let_def clamp_paramsFor unrecorded_def)

lemma eval_decide: "\<not> unrecorded (load g) \<Longrightarrow>
  decide (paramsFor spec) now (eval_window win pfcount (paramsFor spec) now (load g)) (load g) = (b', to, trigger) \<Longrightarrow>
  breaker_eval win pfcount (paramsFor spec) now ''eval'' g =
    (\<lparr>g_brk = (if to \<noteq> '''' then b' else g_brk g), g_brko = (st b' \<noteq> StateClosed)\<rparr>,
     eval_reply (load g) to trigger (eval_window win pfcount (paramsFor spec) now (load g)) b' False 0)"
  by (simp add: breaker_eval_def Let_def clamp_paramsFor)

definition decided :: "evalParams \<Rightarrow> int \<Rightarrow> brk \<Rightarrow> brk \<times> string \<times> string \<Rightarrow> bool" where
  "decided p now b d \<longleftrightarrow>
     fst (snd d) = '''' \<and> fst d = b \<or>
     fst (snd d) = StateClosed \<and> st b \<noteq> StateClosed \<and> (\<exists>r. fst d = go_closed now r b) \<or>
     fst (snd d) = StateOpen \<and> (st b = StateClosed \<or> st b = StateHalfOpen) \<and>
       (\<exists>r n. (n = 1 \<or> n = oc b + 1) \<and> fst d = go_open (ep_OpenMs p) (ep_MaxOpenMs p) now r n b) \<or>
     fst (snd d) = StateHalfOpen \<and> st b = StateOpen \<and> fst d = go_half_open now b"

lemma decided_intros:
  "decided p now b (b, '''', tr)"
  "st b \<noteq> StateClosed \<Longrightarrow> decided p now b (go_closed now r b, StateClosed, tr)"
  "st b = StateClosed \<or> st b = StateHalfOpen \<Longrightarrow> n = 1 \<or> n = oc b + 1 \<Longrightarrow>
   decided p now b (go_open (ep_OpenMs p) (ep_MaxOpenMs p) now r n b, StateOpen, tr)"
  "st b = StateOpen \<Longrightarrow> decided p now b (go_half_open now b, StateHalfOpen, tr)"
  by (auto simp: decided_def)

lemma decided_if:
  "(c \<Longrightarrow> decided p now b x) \<Longrightarrow> (\<not> c \<Longrightarrow> decided p now b y) \<Longrightarrow> decided p now b (if c then x else y)"
  by simp

lemma decide_decided: "decided p now b (decide p now w b)"
  unfolding decide_def Let_def by (intro decided_if decided_intros) auto

lemma decide_cases [consumes 1, case_names none closed opened half_open]:
  assumes "decide p now w b = (b', to, tr)"
  obtains "to = ''''" "b' = b"
  | r where "to = StateClosed" "b' = go_closed now r b" "st b \<noteq> StateClosed"
  | r n where "to = StateOpen" "b' = go_open (ep_OpenMs p) (ep_MaxOpenMs p) now r n b"
      "n = 1 \<or> n = oc b + 1" "st b = StateClosed \<or> st b = StateHalfOpen"
  | "to = StateHalfOpen" "b' = go_half_open now b" "st b = StateOpen"
  using decide_decided [of p now b w] unfolding assms decided_def fst_conv snd_conv by blast

text \<open>The states that the transitions lead to.\<close>

lemma go_st [simp]:
  "st (go_closed now r b) = StateClosed" "st (go_open om mm now r n b) = StateOpen"
  "st (go_half_open now b) = StateHalfOpen" "st (set_open now d r b) = StateOpen"
  by (simp_all add: go_closed_def go_open_def go_half_open_def set_open_def)

lemma go_inv:
  assumes "brk_inv plim g" "0 < now"
  shows "brk_inv plim \<lparr>g_brk = go_closed now r (load g), g_brko = False\<rparr>"
    and "0 < n \<Longrightarrow> 0 < om \<Longrightarrow> om \<le> mm \<Longrightarrow> brk_inv plim \<lparr>g_brk = go_open om mm now r n (load g), g_brko = True\<rparr>"
    and "brk_inv plim \<lparr>g_brk = go_half_open now (load g), g_brko = True\<rparr>"
    and "brk_inv plim \<lparr>g_brk = set_open now d r (load g), g_brko = True\<rparr>"
  using assms open_for_pos [of om mm n]
  by (auto simp: brk_inv_def Let_def go_closed_def go_open_def go_half_open_def set_open_def load_def)

lemma inv_brko: "brk_inv plim g \<Longrightarrow> g_brko g \<longleftrightarrow> st (load g) \<noteq> StateClosed"
  by (auto simp: brk_inv_def Let_def load_def normalizeState_def)

lemma load_half: "st (load g) = StateHalfOpen \<Longrightarrow> load g = g_brk g"
  by (cases "g_brk g") (simp add: load_def normalizeState_def split: if_splits)

lemma load_fields [simp]:
  "ou (load g) = ou (g_brk g)" "oc (load g) = oc (g_brk g)" "lo (load g) = lo (g_brk g)" "lc (load g) = lc (g_brk g)"
  "man (load g) = man (g_brk g)" "hw (load g) = hw (g_brk g)" "hc (load g) = hc (g_brk g)" "ps (load g) = ps (g_brk g)"
  "pk (load g) = pk (g_brk g)" "rsn (load g) = rsn (g_brk g)" "v (load g) = v (g_brk g)"
  "st (load g) = normalizeState (st (g_brk g))"
  by (simp_all add: load_def)

lemma recorded_inv:
  assumes "brk_inv plim g" "unrecorded (load g)"
  shows "brk_inv plim \<lparr>g_brk = (load g)\<lparr>ou := 0\<rparr>, g_brko = True\<rparr>"
proof -
  have "load g = g_brk g" "st (g_brk g) = StateHalfOpen"
    using load_half [of g] assms(2) by (auto simp: unrecorded_def simp del: load_fields)
  then show ?thesis using assms(1) by (simp add: brk_inv_def Let_def)
qed

lemma eval_inv:
  assumes inv: "brk_inv plim g" and "0 < now"
  shows "brk_inv plim (fst (breaker_eval win pfcount (paramsFor spec) now mode g))"
proof -
  consider "mode \<noteq> ''eval''" | "mode = ''eval''" "unrecorded (load g)" | "mode = ''eval''" "\<not> unrecorded (load g)" by blast
  then show ?thesis
  proof cases
    case 1
    then show ?thesis using inv by (simp add: eval_read)
  next
    case 2
    then show ?thesis using recorded_inv [OF inv] by (simp add: eval_lazy)
  next
    case 3
    obtain b' to tr where d: "decide (paramsFor spec) now (eval_window win pfcount (paramsFor spec) now (load g)) (load g) = (b', to, tr)"
      by (cases "decide (paramsFor spec) now (eval_window win pfcount (paramsFor spec) now (load g)) (load g)")
    note e = eval_decide [OF 3(2) d] 3(1)
    from d show ?thesis
    proof (cases rule: decide_cases)
      case none
      then have "fst (breaker_eval win pfcount (paramsFor spec) now mode g) = g" using inv_brko [OF inv] by (simp add: e)
      then show ?thesis using inv by simp
    next
      case (closed r)
      then show ?thesis using go_inv(1) [OF assms] by (simp add: e)
    next
      case (opened r n)
      moreover have "0 \<le> oc (load g)" using inv by (simp add: brk_inv_def Let_def)
      ultimately have "0 < n" by auto
      with opened show ?thesis using go_inv(2) [OF assms] paramsFor_bounds [of spec] by (simp add: e)
    next
      case half_open
      then show ?thesis using go_inv(3) [OF assms] by (simp add: e)
    qed
  qed
qed

lemma set_inv:
  assumes inv: "brk_inv plim g" and "0 < now" and s: "breaker_set now operation duration reason g = Some (g', reply)"
  shows "brk_inv plim g'"
  using s go_inv(1) [OF assms(1,2)] go_inv(4) [OF assms(1,2)] inv
  by (auto simp: breaker_set_def Let_def simp del: load_fields split: if_splits)

lemma gate_inv:
  assumes "brk_inv plim g" "0 < now" "0 \<le> plim"
  shows "brk_inv plim (fst (acquire_gate probe_limit now g))"
  using assms by (auto simp: acquire_gate_def brk_inv_def Let_def)

lemma gate_probe:
  assumes "acquire_gate probe_limit now g = (g', t, Admitted True)"
  shows "st (g_brk g') = StateHalfOpen \<and> hc (g_brk g') < probe_limit"
  using assms by (auto simp: acquire_gate_def Let_def split: if_splits)

lemma acquire_inv:
  assumes "brk_inv plim g" "0 < now" "probe_limit \<le> plim"
  shows "brk_inv plim (fst (acquire_brk probe_limit now found g))"
proof -
  obtain g' t r where a: "acquire_gate probe_limit now g = (g', t, r)" by (cases "acquire_gate probe_limit now g")
  have "0 \<le> plim" using assms(1) by (auto simp: brk_inv_def Let_def)
  then have "brk_inv plim g'" using gate_inv [OF assms(1,2), of probe_limit] a by simp
  moreover have "r = Admitted True \<Longrightarrow> st (g_brk g') = StateHalfOpen \<and> hc (g_brk g') < plim"
    using gate_probe [of probe_limit now g g' t] a assms(3) by simp
  ultimately show ?thesis by (auto simp: acquire_brk_def a take_probe_def brk_inv_def Let_def)
qed

lemma observe_inv: "brk_inv plim g \<Longrightarrow> brk_inv plim (fst (observe_brk now probe is_success g))"
  by (auto simp: observe_brk_def brk_inv_def Let_def)

lemma abort_inv: "brk_inv plim g \<Longrightarrow> brk_inv plim (abort_probe a g)"
  by (auto simp: abort_probe_def brk_inv_def Let_def)

lemma drop_inv: "brk_inv plim g \<Longrightarrow> brk_inv plim (drop_group g)"
  by (auto simp: drop_group_def brk_inv_def Let_def no_brk_def)

lemma step_brk_inv: "brk_step plim g g' \<Longrightarrow> brk_inv plim g \<Longrightarrow> brk_inv plim g'"
  by (induction rule: brk_step.induct) (auto intro: eval_inv set_inv acquire_inv observe_inv abort_inv drop_inv)

lemma start_inv: "0 \<le> plim \<and> brk_start g \<Longrightarrow> brk_inv plim g"
  by (auto simp: brk_start_def brk_inv_def no_brk_def)

interpretation breaker: invariant_system "\<lambda>g. 0 \<le> plim \<and> brk_start g" "brk_step plim" "brk_inv plim" for plim
  by unfold_locales (rule start_inv, assumption, rule step_brk_inv)

abbreviation brk_reachable :: "int \<Rightarrow> group \<Rightarrow> bool" where
  "brk_reachable plim \<equiv> reach (\<lambda>g. 0 \<le> plim \<and> brk_start g) (brk_step plim)"



section \<open>Evaluation\<close>

lemma decide_disabled_st:
  "\<not> ep_Enabled p \<Longrightarrow> st b = StateClosed \<Longrightarrow> decide p now w b = (b, '''', '''')"
  by (simp add: decide_def)

lemma trip_reasons_iff:
  "trip_reasons p w \<noteq> [] \<longleftrightarrow>
     f_lt (Fin 0) (ep_RiskRatioGte p) \<and> f_le (ep_RiskRatioGte p) (ratio (w_Risk w) (w_Total w)) \<or>
     0 < ep_CaptchaGte p \<and> ep_CaptchaGte p \<le> w_Captcha w \<or>
     f_lt (Fin 0) (ep_SuccessRatioLte p) \<and> f_le (ratio (w_Success w) (w_Total w)) (ep_SuccessRatioLte p)"
  by (simp add: trip_reasons_def Let_def)

lemma decide_trip:
  assumes "st b = StateClosed" "0 < ep_MinRequests p" "decide p now w b = (b', to, tr)"
  shows "to = StateOpen \<longleftrightarrow> ep_Enabled p \<and> ep_MinRequests p \<le> w_Total w \<and> trip_reasons p w \<noteq> []"
  using assms by (auto simp: decide_def Let_def split: if_splits)

lemma decide_open_period:
  assumes "decide p now w b = (b', to, tr)" "to = StateOpen" "0 < ep_OpenMs p"
  shows "ou b' = now + min (ep_OpenMs p * 2 ^ nat (oc b' - 1)) (ep_MaxOpenMs p) \<and> man b' = 0 \<and>
         (oc b' = oc b + 1 \<or> oc b' = 1 \<and> st b = StateClosed \<and> 0 < lc b \<and> ep_ResetAfterMs p \<le> now - lc b)"
  using assms by (auto simp: decide_def Let_def go_open_def go_closed_def open_for_backoff split: if_splits)

lemma decide_indefinite:
  "st b = StateOpen \<Longrightarrow> man b = 1 \<Longrightarrow> ou b = 0 \<Longrightarrow> decide p now w b = (b, '''', '''')"
  by (simp add: decide_def)

lemma decide_expired:
  "st b = StateOpen \<Longrightarrow> ep_Enabled p \<Longrightarrow> 0 < ou b \<Longrightarrow>
   decide p now w b = (if ou b \<le> now then (go_half_open now b, StateHalfOpen, ''auto'') else (b, '''', ''''))"
  by (simp add: decide_def)

lemma decide_probes:
  assumes "st b = StateHalfOpen" "ep_Enabled p" "decide p now w b = (b', to, tr)"
  shows "to = (if ps b < ep_CloseMinSamples p then ''''
               else if f_le (ep_CloseSuccessRatioGte p) (ratio (pk b) (ps b)) then StateClosed else StateOpen)"
  using assms by (auto simp: decide_def Let_def not_less split: if_splits)

lemma window_total:
  assumes "0 < ep_BucketMs p"
  shows "w_Total (eval_window win pfcount p now b) =
    (\<Sum>i \<in> {i. now div ep_BucketMs p - ep_Buckets p < i \<and> i \<le> now div ep_BucketMs p \<and> (0 < lc b \<longrightarrow> lc b \<le> i * ep_BucketMs p)}.
       fst (win i))"
  unfolding window_buckets_set [OF assms, symmetric] eval_window_def window_sums_def
  by (simp add: sum_list_distinct_conv_sum_set window_buckets_def Let_def)

text \<open>An evaluation of a breaker without an unrecorded half-open.\<close>

lemma eval_brk:
  assumes "\<not> unrecorded (load g)"
    "decide (paramsFor spec) now (eval_window win pfcount (paramsFor spec) now (load g)) (load g) = (b', to, tr)"
  shows "g_brk (fst (breaker_eval win pfcount (paramsFor spec) now ''eval'' g)) = (if to = '''' then g_brk g else b')"
  by (simp add: eval_decide [OF assms])

lemma normalizeState_simps [simp]:
  "normalizeState StateOpen = StateOpen" "normalizeState StateHalfOpen = StateHalfOpen"
  "normalizeState StateClosed = StateClosed" "normalizeState '''' = StateClosed"
  by (simp_all add: normalizeState_def)

lemma eval_edge:
  defines "ev \<equiv> \<lambda>g win pfcount spec now. g_brk (fst (breaker_eval win pfcount (paramsFor spec) now ''eval'' g))"
  shows "normalizeState (st (ev g win pfcount spec now)) = normalizeState (st (g_brk g)) \<and> v (ev g win pfcount spec now) = v (g_brk g) \<or>
    (normalizeState (st (g_brk g)), st (ev g win pfcount spec now)) \<in>
      {(StateClosed, StateOpen), (StateOpen, StateHalfOpen), (StateOpen, StateClosed),
       (StateHalfOpen, StateClosed), (StateHalfOpen, StateOpen)} \<and> v (ev g win pfcount spec now) = v (g_brk g) + 1"
proof (cases "unrecorded (load g)")
  case True
  then show ?thesis by (simp add: ev_def eval_lazy unrecorded_def)
next
  case False
  obtain b' to tr where d: "decide (paramsFor spec) now (eval_window win pfcount (paramsFor spec) now (load g)) (load g) = (b', to, tr)"
    by (cases "decide (paramsFor spec) now (eval_window win pfcount (paramsFor spec) now (load g)) (load g)")
  have n: "normalizeState (st (g_brk g)) \<in> {StateClosed, StateOpen, StateHalfOpen}" by (simp add: normalizeState_def)
  have e: "ev g win pfcount spec now = (if to = '''' then g_brk g else b')"
    unfolding ev_def by (rule eval_brk [OF False d])
  from d show ?thesis unfolding e
    by (cases rule: decide_cases) (use n in \<open>auto simp: go_closed_def go_open_def go_half_open_def\<close>)
qed



section \<open>The gate\<close>

lemma gate_open:
  assumes "st (g_brk g) = StateOpen"
  shows "acquire_gate probe_limit now g =
    (if man (g_brk g) = 1 \<and> ou (g_brk g) = 0 then (g, False, Refused 60000)
     else if now < ou (g_brk g) then (g, False, Refused (ou (g_brk g) - now))
     else (g\<lparr>g_brk := (g_brk g)\<lparr>st := StateHalfOpen, hw := now, hc := 0, ps := 0, pk := 0, v := v (g_brk g) + 1\<rparr>\<rparr>, True,
           if probe_limit \<le> 0 then Refused 10000 else Admitted True))"
  using assms by (simp add: acquire_gate_def Let_def)

lemma gate_half_open:
  assumes "st (g_brk g) = StateHalfOpen"
  shows "acquire_gate probe_limit now g =
    (if now - hw (g_brk g) \<ge> 10000 then
       (g\<lparr>g_brk := (g_brk g)\<lparr>hw := now, hc := 0\<rparr>\<rparr>, False, if probe_limit \<le> 0 then Refused 10000 else Admitted True)
     else (g, False, if probe_limit \<le> hc (g_brk g) then Refused (hw (g_brk g) + 10000 - now) else Admitted True))"
  using assms by (auto simp: acquire_gate_def Let_def)

lemma gate_closed:
  "normalizeState (st (g_brk g)) = StateClosed \<Longrightarrow> acquire_gate probe_limit now g = (g, False, Admitted False)"
  by (auto simp: acquire_gate_def Let_def normalizeState_def split: if_splits)

lemma gate_state_cases [case_names closed opened half_open]:
  obtains "normalizeState (st (g_brk g)) = StateClosed" | "st (g_brk g) = StateOpen" | "st (g_brk g) = StateHalfOpen"
  by (cases "not_closed (g_brk g)") (auto simp: normalizeState_def)

text \<open>
  C6. The breaker gate of an acquire with a positive probe limit.  A closed breaker admits without a
  trace; a half-open one admits only probes, and the slot of the probe stays within the limit.  A
  refusal is exact: repeated after any part of the wait it returns the rest, and after the whole
  wait the call is admitted as a probe; only an open without end refuses for ever, with a wait of a
  minute.
\<close>

theorem acquire_gate_exact:
  assumes "acquire_gate probe_limit now g = (g', t, r)" "0 < probe_limit"
  shows "(case r of
            Admitted probe \<Rightarrow>
              (if probe then st (g_brk g') = StateHalfOpen \<and> hc (g_brk (take_probe g')) \<le> probe_limit
               else normalizeState (st (g_brk g)) = StateClosed \<and> g' = g)
          | Refused w \<Rightarrow>
              normalizeState (st (g_brk g)) \<noteq> StateClosed \<and> 0 < w \<and>
              (if st (g_brk g) = StateOpen \<and> man (g_brk g) = 1 \<and> ou (g_brk g) = 0
               then w = 60000 \<and> g' = g \<and> (\<forall>later. snd (snd (acquire_gate probe_limit later g')) = Refused w)
               else (\<forall>u. 0 \<le> u \<and> u < w \<longrightarrow> snd (snd (acquire_gate probe_limit (now + u) g')) = Refused (w - u)) \<and>
                    snd (snd (acquire_gate probe_limit (now + w) g')) = Admitted True)) \<and>
         (t \<longleftrightarrow> st (g_brk g) = StateOpen \<and> st (g_brk g') = StateHalfOpen) \<and>
         v (g_brk g') = v (g_brk g) + (if t then 1 else 0)"
proof (cases g rule: gate_state_cases)
  case closed
  then show ?thesis using assms by (auto simp: gate_closed)
next
  case opened
  then show ?thesis using assms by (auto simp: gate_open take_probe_def split: if_splits)
next
  case half_open
  then show ?thesis using assms by (auto simp: gate_half_open take_probe_def split: if_splits)
qed

theorem acquire_gate_exact_witness:
  "snd (snd (acquire_gate 5 100 \<lparr>g_brk = no_brk\<lparr>st := StateOpen, ou := 130, oc := 1\<rparr>, g_brko = True\<rparr>)) = Refused 30 \<and>
   snd (snd (acquire_gate 5 (100 + 30) \<lparr>g_brk = no_brk\<lparr>st := StateOpen, ou := 130, oc := 1\<rparr>, g_brko = True\<rparr>)) = Admitted True"
proof -
  have "acquire_gate 5 100 \<lparr>g_brk = no_brk\<lparr>st := StateOpen, ou := 130, oc := 1\<rparr>, g_brko = True\<rparr> =
      (\<lparr>g_brk = no_brk\<lparr>st := StateOpen, ou := 130, oc := 1\<rparr>, g_brko = True\<rparr>, False, Refused 30)"
    by (simp add: gate_open no_brk_def)
  from acquire_gate_exact [OF this] this show ?thesis by (simp add: no_brk_def)
qed

end
