(* ===== verification/Breaker_Service.thy ===== *)
theory Breaker_Service
  imports Breaker Authz
begin

text \<open>
  The breaker service around the scripts, \<^verbatim>\<open>internal/breaker\<close>: the record of a transition
  (\<^verbatim>\<open>transition.go\<close>), the evaluation of a group (\<^verbatim>\<open>evaluate.go\<close>), its status (\<^verbatim>\<open>status.go\<close>), the manual
  operations (\<^verbatim>\<open>admin.go\<close>, \<^verbatim>\<open>service.go\<close>) and the rate limit of notified evaluations
  (\<^verbatim>\<open>notify.go\<close>).

  A time is a number of nanoseconds since the Unix epoch, \<open>None\<close> the zero value.  Database rows,
  published events and audit entries appear as values in the order the code produces them; the
  scripts run on the state of the group concerned.
\<close>

section \<open>Transitions\<close>

type_synonym time = "int option"

definition millisTime :: "int \<Rightarrow> time" where
  "millisTime ms = (if ms \<le> 0 then None else Some (ms * Millisecond))"

definition RiskRatio :: "Window \<Rightarrow> f64" where
  "RiskRatio w = (if w_Total w \<le> 0 then Fin 0 else f_div (of_int64 (w_Risk w)) (of_int64 (w_Total w)))"

definition SuccessRatio :: "Window \<Rightarrow> f64" where
  "SuccessRatio w = (if w_Total w \<le> 0 then Fin 0 else f_div (of_int64 (w_Success w)) (of_int64 (w_Total w)))"

definition roundRatio :: "f64 \<Rightarrow> f64" where
  "roundRatio f = f_div (of_int64 (to_int64 (f_add (f_mul f (Fin 10000)) (Fin (1 / 2))))) (Fin 10000)"

text \<open>An endpoint group with the parts of its site, namespace and policy that the service uses.\<close>

record candidate =
  c_TenantID :: string
  c_NamespaceID :: string
  c_Namespace :: string
  c_SiteID :: string
  c_Site :: string
  c_SitePaused :: bool
  c_Client :: string
  c_Group :: string
  c_GroupID :: string
  c_PolicyID :: string
  c_PolicyName :: string
  c_Breaker :: "BreakerSpec option"

abbreviation actorSystem :: string where "actorSystem \<equiv> ''system''"
abbreviation TriggerAuto :: string where "TriggerAuto \<equiv> ''auto''"
abbreviation TriggerManual :: string where "TriggerManual \<equiv> ''manual''"

record transitionRecord =
  t_group :: candidate
  t_at :: time
  t_from :: string
  t_to :: string
  t_trigger :: string
  t_actor :: string
  t_hash :: Hash
  t_window :: Window
  t_probeSamples :: int
  t_probeSuccesses :: int
  t_revertedEndpoint :: int
  t_revertedSite :: int

record EventMetrics =
  m_Total :: int
  m_Success :: int
  m_Risk :: int
  m_CaptchaIdentities :: int
  m_RiskRatio :: f64
  m_SuccessRatio :: f64
  m_ProbeSamples :: int
  m_ProbeSuccesses :: int
  m_RevertedEndpointCooldowns :: int
  m_RevertedSiteCooldowns :: int

definition metrics :: "transitionRecord \<Rightarrow> EventMetrics" where
  "metrics r =
     \<lparr>m_Total = w_Total (t_window r), m_Success = w_Success (t_window r), m_Risk = w_Risk (t_window r),
      m_CaptchaIdentities = w_Captcha (t_window r), m_RiskRatio = roundRatio (RiskRatio (t_window r)),
      m_SuccessRatio = roundRatio (SuccessRatio (t_window r)), m_ProbeSamples = t_probeSamples r,
      m_ProbeSuccesses = t_probeSuccesses r, m_RevertedEndpointCooldowns = t_revertedEndpoint r,
      m_RevertedSiteCooldowns = t_revertedSite r\<rparr>"

definition openUntil :: "transitionRecord \<Rightarrow> time" where
  "openUntil r =
     (if t_to r \<noteq> StateOpen \<or> OpenUntilMs (t_hash r) \<le> 0 then None else Some (OpenUntilMs (t_hash r) * Millisecond))"

record TransitionData =
  td_Namespace :: string
  td_Site :: string
  td_SiteID :: string
  td_Client :: string
  td_EndpointGroup :: string
  td_EndpointGroupID :: string
  td_From :: string
  td_To :: string
  td_Trigger :: string
  td_Reason :: string
  td_OpenUntil :: time
  td_ConsecutiveOpens :: int
  td_Manual :: bool
  td_Actor :: string
  td_Metrics :: EventMetrics

text \<open>What \<^verbatim>\<open>recordTransition\<close> publishes for a record.\<close>

definition transition_data :: "transitionRecord \<Rightarrow> TransitionData" where
  "transition_data r =
     (let c = t_group r in
      \<lparr>td_Namespace = c_Namespace c, td_Site = c_Site c, td_SiteID = c_SiteID c, td_Client = c_Client c,
       td_EndpointGroup = c_Group c, td_EndpointGroupID = c_GroupID c, td_From = t_from r, td_To = t_to r,
       td_Trigger = t_trigger r, td_Reason = Reason (t_hash r), td_OpenUntil = openUntil r,
       td_ConsecutiveOpens = OpenCount (t_hash r), td_Manual = Manual (t_hash r), td_Actor = t_actor r,
       td_Metrics = metrics r\<rparr>)"

section \<open>Evaluation of a group\<close>

text \<open>
  \<^verbatim>\<open>evaluateGroup\<close>: \<open>locked\<close> tells whether the lock of the group was obtained, \<open>revert\<close> stands for
  the call of \<^verbatim>\<open>revert.lua\<close> and gives the numbers of reverted cooldowns.
\<close>

definition evaluateGroup ::
  "(int \<Rightarrow> int \<times> int \<times> int) \<Rightarrow> (int list \<Rightarrow> int) \<Rightarrow> (evalParams \<Rightarrow> int \<times> int) \<Rightarrow> bool \<Rightarrow> int \<Rightarrow> candidate \<Rightarrow> group \<Rightarrow>
   group \<times> bool \<times> (reply_error + transitionRecord list)" where
  "evaluateGroup win pfcount revert locked now c g =
     (if \<not> locked then (g, False, Inr [])
      else
        let params = paramsFor (c_Breaker c);
            (g', reply) = breaker_eval win pfcount params (now div Millisecond) ''eval'' g
        in (g', True,
            case parseEvalResult reply of
              Inl err \<Rightarrow> Inl err
            | Inr r \<Rightarrow>
                if er_LazyHalfOpen r then
                  Inr [\<lparr>t_group = c, t_at = millisTime (er_LazyAtMs r), t_from = StateOpen, t_to = StateHalfOpen,
                        t_trigger = TriggerAuto, t_actor = actorSystem, t_hash = er_Hash r, t_window = er_Window r,
                        t_probeSamples = 0, t_probeSuccesses = 0, t_revertedEndpoint = 0, t_revertedSite = 0\<rparr>]
                else if \<not> Transitioned r then Inr []
                else
                  let reverted =
                        (if er_To r = StateOpen \<and> (er_From r = StateClosed \<or> er_From r = StateHalfOpen) \<and>
                            ep_Revert params \<noteq> ''none''
                         then revert params else (0, 0))
                  in Inr [\<lparr>t_group = c, t_at = Some now, t_from = er_From r, t_to = er_To r, t_trigger = er_Trigger r,
                           t_actor = actorSystem, t_hash = er_Hash r, t_window = er_Window r,
                           t_probeSamples = er_ProbeSamples r, t_probeSuccesses = er_ProbeSuccesses r,
                           t_revertedEndpoint = fst reverted, t_revertedSite = snd reverted\<rparr>]))"

section \<open>Status\<close>

record Status =
  s_TenantID :: string
  s_NamespaceID :: string
  s_Namespace :: string
  s_SiteID :: string
  s_Site :: string
  s_Client :: string
  s_EndpointGroup :: string
  s_EndpointGroupID :: string
  s_State :: string
  s_OpenUntil :: time
  s_ConsecutiveOpens :: int
  s_Manual :: bool
  s_Reason :: string
  s_Version :: int
  s_LastOpenedAt :: time
  s_LastClosedAt :: time
  s_Window :: Window
  s_RiskRatio :: f64
  s_SuccessRatio :: f64
  s_ProbeSamples :: int
  s_ProbeSuccesses :: int
  s_ProbeIssued :: int
  s_SitePaused :: bool
  s_PolicyID :: string
  s_PolicyName :: string

abbreviation (input) probeWindow :: int where "probeWindow \<equiv> 10 * Second"

definition buildStatus :: "candidate \<Rightarrow> Hash \<Rightarrow> Window \<Rightarrow> int \<Rightarrow> Status" where
  "buildStatus c h w now =
     \<lparr>s_TenantID = c_TenantID c, s_NamespaceID = c_NamespaceID c, s_Namespace = c_Namespace c, s_SiteID = c_SiteID c,
      s_Site = c_Site c, s_Client = c_Client c, s_EndpointGroup = c_Group c, s_EndpointGroupID = c_GroupID c,
      s_State = State h,
      s_OpenUntil = (if State h = StateOpen \<and> OpenUntilMs h > 0 then millisTime (OpenUntilMs h) else None),
      s_ConsecutiveOpens = OpenCount h, s_Manual = Manual h, s_Reason = Reason h, s_Version = Version h,
      s_LastOpenedAt = millisTime (LastOpenedMs h), s_LastClosedAt = millisTime (LastClosedMs h),
      s_Window = w, s_RiskRatio = roundRatio (RiskRatio w), s_SuccessRatio = roundRatio (SuccessRatio w),
      s_ProbeSamples = ProbeSamples h, s_ProbeSuccesses = ProbeSuccesses h,
      s_ProbeIssued =
        (if State h = StateHalfOpen \<and> HalfOpenMs h > 0 \<and> now - HalfOpenMs h * Millisecond < probeWindow
         then ProbesIssued h else 0),
      s_SitePaused = c_SitePaused c, s_PolicyID = c_PolicyID c, s_PolicyName = c_PolicyName c\<rparr>"

definition readStatus ::
  "(int \<Rightarrow> int \<times> int \<times> int) \<Rightarrow> (int list \<Rightarrow> int) \<Rightarrow> int \<Rightarrow> candidate \<Rightarrow> group \<Rightarrow> reply_error + Status" where
  "readStatus win pfcount now c g =
     (case parseEvalResult (snd (breaker_eval win pfcount (paramsFor (c_Breaker c)) (now div Millisecond) ''read'' g)) of
        Inl err \<Rightarrow> Inl err
      | Inr r \<Rightarrow> Inr (buildStatus c (er_Hash r) (er_Window r) now))"

definition severity :: "string \<Rightarrow> int" where
  "severity state = (if state = StateOpen then 0 else if state = StateHalfOpen then 1 else 2)"

definition parseHashFields :: "(string \<rightharpoonup> string) \<Rightarrow> Hash" where
  "parseHashFields m =
     (let field = (\<lambda>k. case m k of None \<Rightarrow> '''' | Some s \<Rightarrow> s);
          num = (\<lambda>k. case ParseInt (field k) 10 64 of None \<Rightarrow> 0 | Some n \<Rightarrow> n)
      in \<lparr>State = normalizeState (field ''st''), OpenUntilMs = num ''ou'', OpenCount = num ''oc'',
          LastOpenedMs = num ''lo'', LastClosedMs = num ''lc'', Manual = (num ''man'' = 1), HalfOpenMs = num ''hw'',
          ProbesIssued = num ''hc'', ProbeSamples = num ''ps'', ProbeSuccesses = num ''pk'', Reason = field ''rsn'',
          Version = num ''v''\<rparr>)"

section \<open>Manual operations\<close>

abbreviation (input) MaxManualOpenDuration :: int where "MaxManualOpenDuration \<equiv> 365 * (24 * Hour)"
abbreviation (input) MaxReasonLength :: nat where "MaxReasonLength \<equiv> 1024"

definition ParseOpenDuration :: "string \<Rightarrow> gerror + int" where
  "ParseOpenDuration str =
     (let s = TrimSpace str in
      if s = '''' then Inr 0
      else case Parse s of
        Inl err \<Rightarrow> Inl (InvalidArgument '''' (msg_append (msg ''duration: '') (Error_text (\<lambda>_. '''') err)))
      | Inr d \<Rightarrow>
          if IsPermanent d then Inr 0
          else if Std d \<le> 0 then Inl (InvalidArgument '''' (msg ''duration must be positive''))
          else if Std d > MaxManualOpenDuration then
            Inl (InvalidArgument '''' (Msg ''duration must not exceed %s (use an indefinite open)'' [String MaxManualOpenDuration]))
          else Inr (Std d))"

definition validateReason :: "string \<Rightarrow> gerror + string" where
  "validateReason reason =
     (let r = TrimSpace reason in
      if length r > MaxReasonLength
      then Inl (InvalidArgument '''' (Msg ''reason must be at most %d bytes'' [Itoa (int MaxReasonLength)]))
      else Inr r)"

text \<open>The duration argument of \<^verbatim>\<open>setExec\<close>, in whole milliseconds.\<close>

definition set_duration_ms :: "int \<Rightarrow> int" where
  "set_duration_ms d = (if d > 0 then d div Millisecond else 0)"

definition durationLabel :: "int \<Rightarrow> string" where
  "durationLabel d = (if d \<le> 0 then ''indefinite'' else String d)"

definition siteResource :: "candidate \<Rightarrow> resource" where
  "siteResource c =
     \<lparr>TenantID = c_TenantID c, NamespaceID = c_NamespaceID c, NamespaceName = c_Namespace c, SiteID = c_SiteID c,
      SiteName = c_Site c, ConfigGroup = '''', SecretPath = ''''\<rparr>"

text \<open>\<^verbatim>\<open>resolveGroup\<close> over the groups of the catalog.\<close>

definition resolveGroup :: "candidate list \<Rightarrow> principal option \<Rightarrow> string \<Rightarrow> gerror + candidate" where
  "resolveGroup cat po groupID =
     (case po of
        None \<Rightarrow> Inl (Unauthenticated ReasonSessionInvalid (msg ''authentication required''))
      | Some p \<Rightarrow>
          if groupID = '''' then
            Inl (InvalidArgument ''endpoint_group_unknown'' (msg ''endpoint_group_id is required''))
          else
            let visible =
                  (if p_Kind p = KindToken then filter (\<lambda>c. c_NamespaceID c = p_NamespaceID p) cat
                   else if p_TenantID p \<noteq> '''' then filter (\<lambda>c. c_TenantID c = p_TenantID p) cat
                   else if p_Kind p = KindSystem \<or> p_IsPlatformAdmin p then cat
                   else [])
            in case find (\<lambda>c. c_GroupID c = groupID) visible of
                 None \<Rightarrow> Inl (NotFound (Msg ''endpoint group %q not found'' [groupID]))
               | Some c \<Rightarrow> Inr c)"

datatype effect = Recorded transitionRecord | Audited string string string

abbreviation AuditBreakerOpen :: string where "AuditBreakerOpen \<equiv> ''breaker.open''"
abbreviation AuditBreakerClose :: string where "AuditBreakerClose \<equiv> ''breaker.close''"

text \<open>
  The surroundings of an operation: the window of the group, the times of its two reads and of the
  change, and whether the reads succeeded.
\<close>

record surroundings =
  io_win :: "int \<Rightarrow> int \<times> int \<times> int"
  io_pfcount :: "int list \<Rightarrow> int"
  io_before :: "int option"
  io_now :: int
  io_after :: "int option"

definition no_window :: Window where
  "no_window = \<lparr>w_Total = 0, w_Success = 0, w_Risk = 0, w_Captcha = 0\<rparr>"

definition window_before :: "surroundings \<Rightarrow> candidate \<Rightarrow> group \<Rightarrow> Window" where
  "window_before io c g =
     (case io_before io of
        None \<Rightarrow> no_window
      | Some t \<Rightarrow> (case readStatus (io_win io) (io_pfcount io) t c g of Inl _ \<Rightarrow> no_window | Inr s \<Rightarrow> s_Window s))"

definition lazy_record :: "candidate \<Rightarrow> Window \<Rightarrow> setResult \<Rightarrow> transitionRecord" where
  "lazy_record c w res =
     \<lparr>t_group = c, t_at = millisTime (sr_LazyAtMs res), t_from = StateOpen, t_to = StateHalfOpen, t_trigger = TriggerAuto,
      t_actor = actorSystem,
      t_hash = (sr_Hash res)\<lparr>State := StateHalfOpen, Reason := sr_LazyReason res, Manual := sr_LazyManual res,
                             OpenUntilMs := 0, Version := max (wrap64 (Version (sr_Hash res) - 1)) 0\<rparr>,
      t_window = w, t_probeSamples = 0, t_probeSuccesses = 0, t_revertedEndpoint = 0, t_revertedSite = 0\<rparr>"

definition manual_record :: "principal option \<Rightarrow> candidate \<Rightarrow> int \<Rightarrow> Window \<Rightarrow> setResult \<Rightarrow> transitionRecord" where
  "manual_record po c now w res =
     \<lparr>t_group = c, t_at = Some now, t_from = sr_From res, t_to = sr_To res, t_trigger = TriggerManual, t_actor = Actor po,
      t_hash = sr_Hash res, t_window = w, t_probeSamples = 0, t_probeSuccesses = 0, t_revertedEndpoint = 0,
      t_revertedSite = 0\<rparr>"

definition operate_status ::
  "surroundings \<Rightarrow> candidate \<Rightarrow> string \<Rightarrow> Window \<Rightarrow> setResult \<Rightarrow> group \<Rightarrow> Status" where
  "operate_status io c op w res g' =
     (let fallback = buildStatus c (sr_Hash res) (if op = ''close'' \<and> sr_Changed res then no_window else w) (io_now io) in
      case io_after io of
        None \<Rightarrow> fallback
      | Some t \<Rightarrow> (case readStatus (io_win io) (io_pfcount io) t c g' of Inl _ \<Rightarrow> fallback | Inr s \<Rightarrow> s))"

definition operate ::
  "surroundings \<Rightarrow> candidate list \<Rightarrow> principal option \<Rightarrow> string \<Rightarrow> string \<Rightarrow> int \<Rightarrow> string \<Rightarrow> group \<Rightarrow>
   (gerror + Status) \<times> group \<times> effect list" where
  "operate io cat po groupID op d reason g =
     (case validateReason reason of
        Inl err \<Rightarrow> (Inl err, g, [])
      | Inr reason \<Rightarrow>
          case resolveGroup cat po groupID of
            Inl err \<Rightarrow> (Inl err, g, [])
          | Inr c \<Rightarrow>
              let action = (if op = ''close'' then AuditBreakerClose else AuditBreakerOpen) in
              case Require po PermBreakerOperate (siteResource c) of
                Some err \<Rightarrow> (Inl err, g, [Audited action (c_GroupID c) ''denied''])
              | None \<Rightarrow>
                  let w = window_before io c g;
                      failed = (Inl (Internal (Some (Wrapped (Msg ''%s breaker of group %s'' [op, c_GroupID c]) (OtherError (msg ''breaker_set reply''))))))
                  in case breaker_set (io_now io div Millisecond) op (set_duration_ms d) reason g of
                       None \<Rightarrow> (failed, g, [Audited action (c_GroupID c) ''error''])
                     | Some (g', reply) \<Rightarrow>
                         case parseSetResult reply of
                           Inl _ \<Rightarrow> (failed, g', [Audited action (c_GroupID c) ''error''])
                         | Inr res \<Rightarrow>
                             (Inr (operate_status io c op w res g'), g',
                              (if sr_LazyHalfOpen res then [Recorded (lazy_record c w res)] else []) @
                              (if sr_Changed res then [Recorded (manual_record po c (io_now io) w res)] else []) @
                              [Audited action (c_GroupID c) ''ok'']))"

definition Open ::
  "surroundings \<Rightarrow> candidate list \<Rightarrow> principal option \<Rightarrow> string \<Rightarrow> string \<Rightarrow> string \<Rightarrow> group \<Rightarrow>
   (gerror + Status) \<times> group \<times> effect list" where
  "Open io cat po groupID duration reason g =
     (case ParseOpenDuration duration of
        Inl err \<Rightarrow> (Inl err, g, [])
      | Inr d \<Rightarrow> operate io cat po groupID ''open'' d reason g)"

definition Close ::
  "surroundings \<Rightarrow> candidate list \<Rightarrow> principal option \<Rightarrow> string \<Rightarrow> string \<Rightarrow> group \<Rightarrow>
   (gerror + Status) \<times> group \<times> effect list" where
  "Close io cat po groupID reason g = operate io cat po groupID ''close'' 0 reason g"

section \<open>Notified evaluations\<close>

type_synonym groupRef = "int \<times> int"

text \<open>The queue between \<^verbatim>\<open>NotifyRisk\<close> and the loop of \<^verbatim>\<open>Run\<close>; \<open>cap\<close> is the size of the channel.\<close>

record notifyQueue =
  q_notify :: "groupRef list"
  q_pending :: "groupRef set"

definition NotifyRisk :: "nat \<Rightarrow> int \<Rightarrow> int \<Rightarrow> notifyQueue \<Rightarrow> notifyQueue" where
  "NotifyRisk cap siteKey egKey q =
     (let ref = (siteKey, egKey) in
      if ref \<in> q_pending q then q
      else if length (q_notify q) < cap then
        q\<lparr>q_notify := q_notify q @ [ref], q_pending := insert ref (q_pending q)\<rparr>
      else q)"

definition receive :: "notifyQueue \<Rightarrow> (groupRef \<times> notifyQueue) option" where
  "receive q =
     (case q_notify q of
        [] \<Rightarrow> None
      | ref # rest \<Rightarrow> Some (ref, q\<lparr>q_notify := rest, q_pending := q_pending q - {ref}\<rparr>))"

record notifyLimiter =
  l_last :: "groupRef \<rightharpoonup> int"
  l_deferred :: "groupRef \<rightharpoonup> int"

definition newNotifyLimiter :: notifyLimiter where
  "newNotifyLimiter = \<lparr>l_last = Map.empty, l_deferred = Map.empty\<rparr>"

abbreviation (input) maxDeferred :: nat where "maxDeferred \<equiv> 100000"
abbreviation (input) zeroTime :: int where "zeroTime \<equiv> - 62135596800000000000"

text \<open>
  \<^verbatim>\<open>offer\<close>; \<open>accept\<close> is what the callback \<^verbatim>\<open>start\<close> answers for a group, the second result lists the
  groups that were started.
\<close>

definition offer :: "int \<Rightarrow> groupRef \<Rightarrow> int \<Rightarrow> (groupRef \<Rightarrow> bool) \<Rightarrow> notifyLimiter \<Rightarrow> notifyLimiter \<times> groupRef list" where
  "offer interval ref now accept l =
     (if l_deferred l ref \<noteq> None then (l, [])
      else
        let due = (case l_last l ref of None \<Rightarrow> zeroTime | Some t \<Rightarrow> t) + interval in
        if \<not> now < due \<and> accept ref then (l\<lparr>l_last := (l_last l)(ref \<mapsto> now)\<rparr>, [ref])
        else if card (dom (l_deferred l)) < maxDeferred
        then (l\<lparr>l_deferred := (l_deferred l)(ref \<mapsto> due)\<rparr>, [])
        else (l, []))"

text \<open>\<^verbatim>\<open>tick\<close>: the loop over the deferred groups, in the order the map yields them, then the cleaning.\<close>

fun tick_start :: "int \<Rightarrow> (groupRef \<Rightarrow> bool) \<Rightarrow> groupRef list \<Rightarrow> notifyLimiter \<Rightarrow> notifyLimiter \<times> groupRef list" where
  "tick_start now accept [] l = (l, [])"
| "tick_start now accept (ref # refs) l =
     (case l_deferred l ref of
        None \<Rightarrow> tick_start now accept refs l
      | Some due \<Rightarrow>
          if now < due then tick_start now accept refs l
          else if \<not> accept ref then (l, [])
          else
            (case tick_start now accept refs
                    (l\<lparr>l_last := (l_last l)(ref \<mapsto> now), l_deferred := (l_deferred l)(ref := None)\<rparr>) of
               (l', started) \<Rightarrow> (l', ref # started)))"

definition tick_forget :: "int \<Rightarrow> int \<Rightarrow> notifyLimiter \<Rightarrow> notifyLimiter" where
  "tick_forget interval now l =
     l\<lparr>l_last := (\<lambda>ref. case l_last l ref of
                           None \<Rightarrow> None
                         | Some t \<Rightarrow> if now - t < interval \<or> l_deferred l ref \<noteq> None then Some t else None)\<rparr>"

definition tick :: "int \<Rightarrow> int \<Rightarrow> groupRef list \<Rightarrow> (groupRef \<Rightarrow> bool) \<Rightarrow> notifyLimiter \<Rightarrow> notifyLimiter \<times> groupRef list" where
  "tick interval now order accept l =
     (case tick_start now accept order l of (l', started) \<Rightarrow> (tick_forget interval now l', started))"

end
