(* ===== verification/Breaker_Service_Laws.thy ===== *)
theory Breaker_Service_Laws
  imports Breaker_Laws Breaker_Service Durationx_Laws
begin

text \<open>
  Laws of the breaker service: the replies of the scripts decode to what the scripts did, so that
  every transition is recorded once; what opening a breaker by hand does; and the rate limit of
  notified evaluations, as an invariant of the transition system \<open>notify_step\<close>.
\<close>

section \<open>Decoding the replies\<close>

lemma Itoa_not_Nil [simp]: "Itoa n \<noteq> []"
  by (simp add: Itoa_def FormatInt_def)

lemma ParseInt_Itoa: "in64 n \<Longrightarrow> ParseInt (Itoa n) 10 64 = Some n"
  using ParseInt_FormatInt [of 10 64 n] by (simp add: Itoa_def in64_def MinInt64_def MaxInt64_def)

lemma ParseInt_flag: "ParseInt ''0'' 10 64 = Some 0" "ParseInt ''1'' 10 64 = Some 1"
  by code_simp+

text \<open>The state of a breaker as the service sees it, and the numbers it can decode.\<close>

definition hash_of :: "brk \<Rightarrow> Hash" where
  "hash_of b =
     \<lparr>State = normalizeState (st b), OpenUntilMs = ou b, OpenCount = oc b, LastOpenedMs = lo b, LastClosedMs = lc b,
      Manual = (man b = 1), HalfOpenMs = hw b, ProbesIssued = hc b, ProbeSamples = ps b, ProbeSuccesses = pk b,
      Reason = rsn b, Version = v b\<rparr>"

definition fits :: "brk \<Rightarrow> bool" where
  "fits b \<longleftrightarrow> list_all in64 [ou b, oc b, lo b, lc b, man b, hw b, hc b, ps b, pk b, v b]"

definition fits_window :: "Window \<Rightarrow> bool" where
  "fits_window w \<longleftrightarrow> list_all in64 [w_Total w, w_Success w, w_Risk w, w_Captcha w]"

lemma parse_eval_reply:
  assumes "fits b" "fits b'" "fits_window w" "in64 lat"
  shows "parseEvalResult (eval_reply b to tr w b' lazy lat) =
    Inr \<lparr>er_From = st b, er_To = to, er_Trigger = tr, er_Window = w, er_Hash = hash_of b', er_ProbeSamples = ps b,
         er_ProbeSuccesses = pk b, er_LazyHalfOpen = lazy, er_LazyAtMs = lat\<rparr>"
  using assms
  by (simp add: parseEvalResult_def eval_reply_def brk_fields_def hash_positions_def parseHash_def str_at_def hash_of_def
      num_at_def num_error_def fits_def fits_window_def ParseInt_Itoa ParseInt_flag)

lemma in64_small [simp]: "in64 0" "in64 1"
  by (simp_all add: in64_def MinInt64_def MaxInt64_def)

lemma in64_lazy_at: "fits b \<Longrightarrow> in64 now \<Longrightarrow> in64 (lazy_at now b)"
  by (simp add: lazy_at_def fits_def)

lemma parse_set_reply:
  assumes "fits b" "fits b'" "in64 now"
  shows "parseSetResult (set_reply now b b' changed) =
    Inr \<lparr>sr_From = st b, sr_To = st b', sr_Changed = changed, sr_Hash = hash_of b', sr_LazyHalfOpen = unrecorded b,
         sr_LazyAtMs = lazy_at now b, sr_LazyReason = rsn b, sr_LazyManual = (man b = 1)\<rparr>"
  using assms in64_lazy_at [OF assms(1,3)]
  by (simp add: parseSetResult_def set_reply_def brk_fields_def hash_positions_def parseHash_def str_at_def hash_of_def
      num_at_def num_error_def fits_def ParseInt_Itoa ParseInt_flag)

lemma fits_load: "fits (g_brk g) \<Longrightarrow> fits (load g)"
  by (simp add: fits_def)

lemma hash_of_load: "hash_of (load g) = hash_of (g_brk g)"
  by (auto simp: hash_of_def normalizeState_def)

lemma eval_recorded: "\<not> unrecorded (load (fst (breaker_eval win pfcount (paramsFor spec) now ''eval'' g)))"
proof (cases "unrecorded (load g)")
  case True
  then show ?thesis by (simp add: eval_lazy) (simp add: unrecorded_def)
next
  case False
  obtain b' to tr where d: "decide (paramsFor spec) now (eval_window win pfcount (paramsFor spec) now (load g)) (load g) = (b', to, tr)"
    by (cases "decide (paramsFor spec) now (eval_window win pfcount (paramsFor spec) now (load g)) (load g)")
  from d show ?thesis
    by (cases rule: decide_cases)
      (use False in \<open>auto simp: eval_decide [OF False d] unrecorded_def go_half_open_def\<close>)
qed

text \<open>What an evaluation of a state without an unrecorded half-open replies.\<close>

lemma eval_reply_decided:
  assumes u: "\<not> unrecorded (load g)"
    and f: "fits (g_brk g)" "fits (g_brk g')" "fits_window (eval_window win pfcount (paramsFor spec) now (load g))"
    and e: "breaker_eval win pfcount (paramsFor spec) now ''eval'' g = (g', reply)"
  obtains to tr where "parseEvalResult reply =
      Inr \<lparr>er_From = normalizeState (st (g_brk g)), er_To = to, er_Trigger = tr,
           er_Window = eval_window win pfcount (paramsFor spec) now (load g), er_Hash = hash_of (g_brk g'),
           er_ProbeSamples = ps (g_brk g), er_ProbeSuccesses = pk (g_brk g), er_LazyHalfOpen = False, er_LazyAtMs = 0\<rparr>"
    "to = '''' \<and> g_brk g' = g_brk g \<or>
     to = st (g_brk g') \<and> to \<noteq> normalizeState (st (g_brk g)) \<and> to \<in> {StateClosed, StateOpen, StateHalfOpen}"
proof -
  obtain b' to tr where d: "decide (paramsFor spec) now (eval_window win pfcount (paramsFor spec) now (load g)) (load g) = (b', to, tr)"
    by (cases "decide (paramsFor spec) now (eval_window win pfcount (paramsFor spec) now (load g)) (load g)")
  have r: "reply = eval_reply (load g) to tr (eval_window win pfcount (paramsFor spec) now (load g)) b' False 0"
    and g': "g_brk g' = (if to \<noteq> '''' then b' else g_brk g)"
    using e by (simp_all add: eval_decide [OF u d]) auto
  have h: "fits b' \<and> hash_of b' = hash_of (g_brk g')"
    using d by (cases rule: decide_cases) (use f g' in \<open>auto simp: fits_load hash_of_load\<close>)
  have "parseEvalResult reply =
      Inr \<lparr>er_From = normalizeState (st (g_brk g)), er_To = to, er_Trigger = tr,
           er_Window = eval_window win pfcount (paramsFor spec) now (load g), er_Hash = hash_of (g_brk g'),
           er_ProbeSamples = ps (g_brk g), er_ProbeSuccesses = pk (g_brk g), er_LazyHalfOpen = False, er_LazyAtMs = 0\<rparr>"
    unfolding r parse_eval_reply [OF fits_load [OF f(1)] conjunct1 [OF h] f(3) in64_small(1)] conjunct2 [OF h] by simp
  moreover have "to = '''' \<and> g_brk g' = g_brk g \<or>
     to = st (g_brk g') \<and> to \<noteq> normalizeState (st (g_brk g)) \<and> to \<in> {StateClosed, StateOpen, StateHalfOpen}"
    using d
  proof (cases rule: decide_cases)
    case (opened r n)
    then have "StateOpen \<noteq> normalizeState (st (g_brk g))" by (elim disjE) simp_all
    with opened show ?thesis by (simp add: g')
  qed (simp_all add: g')
  ultimately show thesis by (rule that)
qed

text \<open>
  C7. The service records exactly what happened.  From a reachable state whose numbers fit into 64
  bits, an evaluation under the lock decodes its reply and makes at most one record: none when the
  state did not change and no acquire had half-opened the breaker unnoticed; otherwise the record
  carries the state after the evaluation, the state before it (open, at the time of the acquire, for
  an unnoticed half-open) and the reverted cooldowns of an opening.  Afterwards no half-open is
  unnoticed, so none is recorded twice.
\<close>

theorem evaluateGroup_records:
  fixes win pfcount revert now c g
  defines "ms \<equiv> now div Millisecond" and "p \<equiv> paramsFor (c_Breaker c)"
  assumes reach: "brk_reachable plim g" and e: "breaker_eval win pfcount p ms ''eval'' g = (g', reply)"
    and f: "fits (g_brk g)" "fits (g_brk g')" "fits_window (eval_window win pfcount p ms (load g))" "in64 ms"
  shows "\<exists>recs. evaluateGroup win pfcount revert True now c g = (g', True, Inr recs) \<and> length recs \<le> 1 \<and>
           (recs = [] \<longleftrightarrow> normalizeState (st (g_brk g')) = normalizeState (st (g_brk g)) \<and> \<not> unrecorded (load g)) \<and>
           (\<forall>r \<in> set recs. t_group r = c \<and> t_hash r = hash_of (g_brk g') \<and> t_to r = st (g_brk g') \<and>
              t_from r = (if unrecorded (load g) then StateOpen else normalizeState (st (g_brk g))) \<and>
              t_at r = Some (if unrecorded (load g) then hw (g_brk g) * Millisecond else now) \<and>
              (t_revertedEndpoint r, t_revertedSite r) =
                (if st (g_brk g') = StateOpen \<and> ep_Revert p \<noteq> ''none'' then revert p else (0, 0))) \<and>
           \<not> unrecorded (load g')"
proof -
  have n: "\<not> unrecorded (load g')" using eval_recorded [of win pfcount "c_Breaker c" ms g] e by (simp add: p_def)
  show ?thesis
  proof (cases "unrecorded (load g)")
    case True
    have hw: "0 < hw (g_brk g)" "in64 (hw (g_brk g))"
      using breaker.reach_inv [OF reach] True f(1)
      by (auto simp: brk_inv_def Let_def unrecorded_def fits_def normalizeState_def split: if_splits)
    have g': "g' = \<lparr>g_brk = (load g)\<lparr>ou := 0\<rparr>, g_brko = True\<rparr>"
      and r: "reply = eval_reply (load g) '''' '''' (eval_window win pfcount p ms (load g)) ((load g)\<lparr>ou := 0\<rparr>) True (hw (g_brk g))"
      using e hw by (auto simp: p_def eval_lazy [OF True] lazy_at_def True)
    have "parseEvalResult reply =
      Inr \<lparr>er_From = StateHalfOpen, er_To = '''', er_Trigger = '''', er_Window = eval_window win pfcount p ms (load g),
           er_Hash = hash_of (g_brk g'), er_ProbeSamples = ps (g_brk g), er_ProbeSuccesses = pk (g_brk g),
           er_LazyHalfOpen = True, er_LazyAtMs = hw (g_brk g)\<rparr>"
      using f hw True by (simp add: r g' parse_eval_reply fits_load unrecorded_def)
    then show ?thesis using e True n hw
      by (simp add: evaluateGroup_def p_def [symmetric] ms_def [symmetric] millisTime_def g' unrecorded_def)
  next
    case False
    obtain to tr where r: "parseEvalResult reply =
      Inr \<lparr>er_From = normalizeState (st (g_brk g)), er_To = to, er_Trigger = tr,
           er_Window = eval_window win pfcount p ms (load g), er_Hash = hash_of (g_brk g'),
           er_ProbeSamples = ps (g_brk g), er_ProbeSuccesses = pk (g_brk g), er_LazyHalfOpen = False, er_LazyAtMs = 0\<rparr>"
      and t: "to = '''' \<and> g_brk g' = g_brk g \<or>
        to = st (g_brk g') \<and> to \<noteq> normalizeState (st (g_brk g)) \<and> to \<in> {StateClosed, StateOpen, StateHalfOpen}"
      using eval_reply_decided [OF False f(1,2) f(3) [unfolded p_def] e [unfolded p_def]] unfolding p_def by metis
    have s: "normalizeState (st (g_brk g)) \<in> {StateClosed, StateOpen, StateHalfOpen}" by (simp add: normalizeState_def)
    have k: "to = StateOpen \<and> (normalizeState (st (g_brk g)) = StateClosed \<or> normalizeState (st (g_brk g)) = StateHalfOpen) \<and> x \<longleftrightarrow>
        to = StateOpen \<and> x" for x
      using s t by (elim disjE conjE) auto
    have E: "evaluateGroup win pfcount revert True now c g =
        (g', True, if to = [] then Inr [] else
          let reverted = (if to = StateOpen \<and> ep_Revert p \<noteq> ''none'' then revert p else (0, 0)) in
          Inr [\<lparr>t_group = c, t_at = Some now, t_from = normalizeState (st (g_brk g)), t_to = to, t_trigger = tr,
                t_actor = actorSystem, t_hash = hash_of (g_brk g'), t_window = eval_window win pfcount p ms (load g),
                t_probeSamples = ps (g_brk g), t_probeSuccesses = pk (g_brk g),
                t_revertedEndpoint = fst reverted, t_revertedSite = snd reverted\<rparr>])"
      using e by (simp add: evaluateGroup_def p_def [symmetric] ms_def [symmetric] r Transitioned_def Let_def k)
    show ?thesis
    proof (cases "to = []")
      case True
      then show ?thesis using t False n by (simp add: E)
    next
      case False
      then have "to = st (g_brk g')" "to \<noteq> normalizeState (st (g_brk g))" "normalizeState to = to" using t by auto
      then show ?thesis using False \<open>\<not> unrecorded (load g)\<close> n by (simp add: E Let_def)
    qed
  qed
qed

definition sample_group :: candidate where
  "sample_group =
     \<lparr>c_TenantID = ''t'', c_NamespaceID = ''n'', c_Namespace = ''prod'', c_SiteID = ''s'', c_Site = ''shop'',
      c_SitePaused = False, c_Client = ''web'', c_Group = ''search'', c_GroupID = ''g'', c_PolicyID = '''',
      c_PolicyName = '''', c_Breaker = None\<rparr>"

lemma decide_quiet: "st b = StateClosed \<Longrightarrow> w_Total w \<le> 0 \<Longrightarrow> decide p now w b = (b, '''', '''')"
  by (simp add: decide_def)

lemma quiet_window:
  "eval_window (\<lambda>i. (0, 0, 0)) (\<lambda>is. 0) p now b = no_window"
  by (simp add: eval_window_def window_sums_def no_window_def o_def)

text \<open>A group without traffic: nothing is recorded.\<close>

theorem evaluateGroup_records_witness:
  "evaluateGroup (\<lambda>i. (0, 0, 0)) (\<lambda>is. 0) (\<lambda>p. (0, 0)) True 5000000000 sample_group
     \<lparr>g_brk = no_brk, g_brko = False\<rparr> = (\<lparr>g_brk = no_brk, g_brko = False\<rparr>, True, Inr [])"
proof -
  let ?g = "\<lparr>g_brk = no_brk, g_brko = False\<rparr>"
  have r: "brk_reachable 5 ?g" by (rule reach.init) (simp add: brk_start_def)
  have d: "decide (paramsFor None) 5000 no_window (load ?g) = (load ?g, '''', '''')"
    by (rule decide_quiet) (simp_all add: no_brk_def no_window_def)
  have u: "\<not> unrecorded (load ?g)" by (simp add: unrecorded_def no_brk_def)
  have e: "breaker_eval (\<lambda>i. (0, 0, 0)) (\<lambda>is. 0) (paramsFor (c_Breaker sample_group)) (5000000000 div Millisecond) ''eval'' ?g =
      (?g, eval_reply (load ?g) '''' '''' no_window (load ?g) False 0)"
    using eval_decide [OF u, of None "5000000000 div Millisecond" "\<lambda>i. (0, 0, 0)" "\<lambda>is. 0"] d
    by (simp add: quiet_window sample_group_def no_brk_def)
  have f: "fits (g_brk ?g)" "in64 (5000000000 div Millisecond)"
    "fits_window (eval_window (\<lambda>i. (0, 0, 0)) (\<lambda>is. 0) (paramsFor (c_Breaker sample_group)) (5000000000 div Millisecond) (load ?g))"
    by (simp_all add: fits_def no_brk_def in64_def MinInt64_def MaxInt64_def fits_window_def quiet_window no_window_def)
  from evaluateGroup_records [OF r e f(1) f(1) f(3) f(2)] show ?thesis
    using u by (auto simp del: load_fields)
qed

section \<open>Manual operations\<close>

lemma set_open_gate:
  assumes "0 < now" "0 < probe_limit"
  shows "(\<exists>w. snd (snd (acquire_gate probe_limit t \<lparr>g_brk = set_open now (set_duration_ms d) r b, g_brko = True\<rparr>)) = Refused w) \<longleftrightarrow>
    d < Millisecond \<or> t < now + d div Millisecond"
proof -
  have "0 < d div Millisecond" if "Millisecond \<le> d"
    using that by (simp add: pos_imp_zdiv_pos_iff)
  then show ?thesis
    using assms by (auto simp: gate_open set_open_def set_duration_ms_def not_less)
qed

lemma resolveGroup_found: "resolveGroup cat po groupID = Inr c \<Longrightarrow> c \<in> set cat \<and> c_GroupID c = groupID"
  by (auto simp: resolveGroup_def Let_def find_Some_iff split: option.splits if_splits dest!: nth_mem)

lemma Require_Can: "Require po perm r = None \<Longrightarrow> Can po perm r"
  by (auto simp: Require_def split: option.splits if_splits)

text \<open>The ways out of a manual operation.\<close>

lemma operate_open_cases:
  assumes "operate io cat po groupID ''open'' d reason g = (res, g', effs)"
  obtains (failed) err where "res = Inl err" "g' = g" "\<And>r. Recorded r \<notin> set effs"
  | (undecoded) err and c :: candidate where "res = Inl err" "effs = [Audited AuditBreakerOpen (c_GroupID c) ''error'']"
      "\<exists>e rsn. parseSetResult (set_reply (io_now io div Millisecond) (load g)
                (set_open (io_now io div Millisecond) (set_duration_ms d) rsn (load g)) True) = Inl e"
  | (opened) s c rsn recs where "res = Inr s" "resolveGroup cat po groupID = Inr c"
      "Require po PermBreakerOperate (siteResource c) = None"
      "g' = \<lparr>g_brk = set_open (io_now io div Millisecond) (set_duration_ms d) rsn (load g), g_brko = True\<rparr>"
      "effs = recs @ [Audited AuditBreakerOpen (c_GroupID c) ''ok'']"
proof (cases "validateReason reason")
  case (Inl err)
  then show ?thesis using assms failed [of err] by (simp add: operate_def)
next
  case v: (Inr rs)
  show ?thesis
  proof (cases "resolveGroup cat po groupID")
    case (Inl err)
    then show ?thesis using assms failed [of err] v by (simp add: operate_def)
  next
    case c: (Inr c)
    show ?thesis
    proof (cases "Require po PermBreakerOperate (siteResource c)")
      case (Some err)
      then show ?thesis using assms failed [of err] v c by (auto simp: operate_def)
    next
      case r: None
      define b' where "b' = set_open (io_now io div Millisecond) (set_duration_ms d) rs (load g)"
      have s: "breaker_set (io_now io div Millisecond) ''open'' (set_duration_ms d) rs g =
          Some (\<lparr>g_brk = b', g_brko = True\<rparr>, set_reply (io_now io div Millisecond) (load g) b' True)"
        by (simp add: breaker_set_def Let_def b'_def)
      show ?thesis
      proof (cases "parseSetResult (set_reply (io_now io div Millisecond) (load g) b' True)")
        case (Inl e)
        then show ?thesis using assms v c r s undecoded [of _ c] by (auto simp: operate_def Let_def b'_def)
      next
        case (Inr rr)
        let ?w = "window_before io c g"
        have "operate io cat po groupID ''open'' d reason g =
            (Inr (operate_status io c ''open'' ?w rr \<lparr>g_brk = b', g_brko = True\<rparr>), \<lparr>g_brk = b', g_brko = True\<rparr>,
             ((if sr_LazyHalfOpen rr then [Recorded (lazy_record c ?w rr)] else []) @
              (if sr_Changed rr then [Recorded (manual_record po c (io_now io) ?w rr)] else [])) @
             [Audited AuditBreakerOpen (c_GroupID c) ''ok''])"
          using v c r s Inr by (simp add: operate_def Let_def)
        from this [unfolded assms prod.inject] show ?thesis using opened [OF _ c r] unfolding b'_def by blast
      qed
    qed
  qed
qed

lemma set_open_fits:
  assumes "fits (g_brk g)" "in64 now" "in64 (now + set_duration_ms d)" "in64 (v (g_brk g) + 1)"
  shows "fits (set_open now (set_duration_ms d) r (load g))"
  using assms by (simp add: fits_def set_open_def)


definition sample_io :: surroundings where
  "sample_io = \<lparr>io_win = \<lambda>i. (0, 0, 0), io_pfcount = \<lambda>is. 0, io_before = None, io_now = 5000000000, io_after = None\<rparr>"

lemma sample_duration: "ParseOpenDuration ''500us'' = Inr 500000"
proof -
  have t: "TrimSpace ''500us'' = ''500us''" by (rule TrimSpace_id; simp add: byte_def is_space_def)
  have "parse_term ''500us'' = Some (500000, [])"
    by (simp add: parse_term_def is_digit_def byte_def unit_char_def unitMap_def Let_def)
  then have "ParseDuration ''500us'' = Some 500000"
    using parse_terms_step [of "''500us''" 500000 "[]" 0] by (simp add: ParseDuration_def)
  then have "parse_rest ''500us'' 0 ''500us'' = Inr 500000"
    by (simp add: parse_rest_def wrap64_id in64_def MaxInt64_def MinInt64_def)
  then have "Parse ''500us'' = Inr 500000"
    using Parse_unfold(1) [OF t] by (simp add: ascii_lower_def byte_def index_byte_None_iff prefix_def)
  then show ?thesis by (simp add: ParseOpenDuration_def t IsPermanent_def Std_def)
qed

lemma sample_operator:
  "validateReason '''' = Inr ''''"
  "resolveGroup [sample_group] (Some (System '''')) ''g'' = Inr sample_group"
  "Require (Some (System '''')) PermBreakerOperate (siteResource sample_group) = None"
  by (simp_all add: validateReason_def TrimSpace_def resolveGroup_def sample_group_def Require_def Can_def System_def
      ValidPermission_def allPermissions_def)

lemma sample_fits: "fits no_brk" "in64 (v no_brk + 1)" "in64 5000" "in64 (5000 + set_duration_ms 500000)"
  by (simp_all add: fits_def no_brk_def in64_def MinInt64_def MaxInt64_def set_duration_ms_def)


section \<open>Notified evaluations\<close>

text \<open>
  The limiter with a clock that does not run backwards and the log of the starts, newest first: a
  step is an offer or a tick, with any answers of the callback and any order of the deferred groups.
\<close>

type_synonym notify_state = "notifyLimiter \<times> int \<times> (groupRef \<times> int) list"

inductive notify_step :: "int \<Rightarrow> notify_state \<Rightarrow> notify_state \<Rightarrow> bool" for interval where
  offer: "clock \<le> now \<Longrightarrow> offer interval ref now accept l = (l', started) \<Longrightarrow>
    notify_step interval (l, clock, hist) (l', now, map (\<lambda>r. (r, now)) (rev started) @ hist)"
| tick: "clock \<le> now \<Longrightarrow> tick interval now order accept l = (l', started) \<Longrightarrow>
    notify_step interval (l, clock, hist) (l', now, map (\<lambda>r. (r, now)) (rev started) @ hist)"

definition notify_start :: "notify_state \<Rightarrow> bool" where
  "notify_start = (\<lambda>(l, clock, hist). l = newNotifyLimiter \<and> hist = [])"

text \<open>Two entries of one group are at least the interval apart.\<close>

fun spaced :: "int \<Rightarrow> (groupRef \<times> int) list \<Rightarrow> bool" where
  "spaced interval [] = True"
| "spaced interval (e # hist) \<longleftrightarrow> (\<forall>t. (fst e, t) \<in> set hist \<longrightarrow> t + interval \<le> snd e) \<and> spaced interval hist"

lemma spaced_nth:
  "spaced interval hist \<Longrightarrow> i < j \<Longrightarrow> j < length hist \<Longrightarrow> fst (hist ! i) = fst (hist ! j) \<Longrightarrow>
   snd (hist ! j) + interval \<le> snd (hist ! i)"
proof (induction hist arbitrary: i j)
  case Nil
  then show ?case by simp
next
  case (Cons e hist)
  from Cons.prems(2) obtain j' where j: "j = Suc j'" by (cases j) auto
  show ?case
  proof (cases i)
    case 0
    have "hist ! j' = (fst e, snd (hist ! j'))" using Cons.prems(4) 0 j by (metis nth_Cons_0 nth_Cons_Suc prod.collapse)
    then have "(fst e, snd (hist ! j')) \<in> set hist" using Cons.prems(3) j nth_mem [of j' hist] by simp
    then show ?thesis using Cons.prems(1) 0 j by simp
  next
    case (Suc i')
    then show ?thesis using Cons j by simp
  qed
qed

text \<open>What still limits a group: its deferred start, or its entry in \<open>l_last\<close>, or nothing.\<close>

definition limited :: "int \<Rightarrow> notifyLimiter \<Rightarrow> int \<Rightarrow> groupRef \<Rightarrow> int \<Rightarrow> bool" where
  "limited interval l clock r t \<longleftrightarrow>
     t \<le> clock \<and>
     (case l_deferred l r of
        Some due \<Rightarrow> t + interval \<le> max due clock
      | None \<Rightarrow> t + interval \<le> clock \<or> (\<exists>t'. l_last l r = Some t' \<and> t \<le> t'))"

definition notify_inv :: "int \<Rightarrow> notify_state \<Rightarrow> bool" where
  "notify_inv interval = (\<lambda>(l, clock, hist).
     spaced interval hist \<and> (\<forall>r t. (r, t) \<in> set hist \<longrightarrow> limited interval l clock r t))"

lemma inv_limited: "notify_inv interval (l, clock, hist) \<Longrightarrow> (r, t) \<in> set hist \<Longrightarrow> limited interval l clock r t"
  by (cases r) (simp add: notify_inv_def)

lemma limited_later: "limited interval l clock r t \<Longrightarrow> clock \<le> now \<Longrightarrow> limited interval l now r t"
  by (auto simp: limited_def split: option.splits)

lemma notify_later: "notify_inv interval (l, clock, hist) \<Longrightarrow> clock \<le> now \<Longrightarrow> notify_inv interval (l, now, hist)"
  by (auto simp: notify_inv_def intro: limited_later)

lemma limited_start:
  assumes "limited interval l now r' t"
  shows "limited interval (l\<lparr>l_last := (l_last l)(r \<mapsto> now), l_deferred := (l_deferred l)(r := None)\<rparr>) now r' t"
  using assms by (cases "r' = r") (auto simp: limited_def split: option.splits)

lemma notify_started:
  assumes "notify_inv interval (l, now, hist)" "\<And>t. (r, t) \<in> set hist \<Longrightarrow> t + interval \<le> now"
  shows "notify_inv interval (l\<lparr>l_last := (l_last l)(r \<mapsto> now), l_deferred := (l_deferred l)(r := None)\<rparr>, now, (r, now) # hist)"
  using assms limited_start unfolding notify_inv_def by (auto simp: limited_def [of _ _ _ r now])

lemma tick_start_inv:
  assumes "notify_inv interval (l, now, hist)" "tick_start now accept order l = (l', started)"
  shows "notify_inv interval (l', now, map (\<lambda>r. (r, now)) (rev started) @ hist)"
  using assms
proof (induction now accept order l arbitrary: hist l' started rule: tick_start.induct)
  case (1 now accept l)
  then show ?case by simp
next
  case (2 now accept ref refs l)
  show ?case
  proof (cases "\<exists>due. l_deferred l ref = Some due \<and> due \<le> now \<and> accept ref")
    case True
    then obtain due where d: "l_deferred l ref = Some due" "due \<le> now" "accept ref" by blast
    let ?l = "l\<lparr>l_last := (l_last l)(ref \<mapsto> now), l_deferred := (l_deferred l)(ref := None)\<rparr>"
    obtain st where s: "tick_start now accept refs ?l = (l', st)" "started = ref # st"
      using 2(5) d by (auto split: prod.splits)
    have "t + interval \<le> now" if "(ref, t) \<in> set hist" for t
    proof -
      have "limited interval l now ref t" using inv_limited [OF 2(4) that] .
      then show ?thesis using d by (simp add: limited_def max_def split: if_splits)
    qed
    from notify_started [OF 2(4) this] have "notify_inv interval (?l, now, (ref, now) # hist)" .
    from 2(3) [OF d(1) _ _ this s(1)] d show ?thesis by (simp add: s(2))
  next
    case False
    then show ?thesis using 2 by (auto split: option.splits if_splits)
  qed
qed

lemma limited_forget: "limited interval l now r t \<Longrightarrow> limited interval (tick_forget interval now l) now r t"
  by (auto simp: limited_def tick_forget_def split: option.splits)

lemma forget_inv: "notify_inv interval (l, now, hist) \<Longrightarrow> notify_inv interval (tick_forget interval now l, now, hist)"
  by (simp add: notify_inv_def limited_forget)

lemma offer_inv:
  assumes inv: "notify_inv interval (l, now, hist)" and o: "offer interval ref now accept l = (l', started)"
  shows "notify_inv interval (l', now, map (\<lambda>r. (r, now)) (rev started) @ hist)"
proof (cases "l_deferred l ref")
  case (Some due)
  then show ?thesis using inv o by (simp add: offer_def)
next
  case None
  define due where "due = (case l_last l ref of None \<Rightarrow> zeroTime | Some t \<Rightarrow> t) + interval"
  have lim: "t \<le> now \<and> (t + interval \<le> now \<or> t + interval \<le> due)" if "(ref, t) \<in> set hist" for t
  proof -
    have "limited interval l now ref t" using inv_limited [OF inv that] .
    then show ?thesis by (auto simp: limited_def None due_def)
  qed
  have u: "l\<lparr>l_last := f, l_deferred := (l_deferred l)(ref := None)\<rparr> = l\<lparr>l_last := f\<rparr>" for f
    using None by (cases l) (simp add: fun_upd_idem)
  consider "\<not> now < due \<and> accept ref" | "\<not> (\<not> now < due \<and> accept ref)" "card (dom (l_deferred l)) < maxDeferred"
    | "\<not> (\<not> now < due \<and> accept ref)" "\<not> card (dom (l_deferred l)) < maxDeferred" by blast
  then show ?thesis
  proof cases
    case 1
    have "t + interval \<le> now" if "(ref, t) \<in> set hist" for t using lim [OF that] 1 by auto
    from notify_started [where r = ref, OF inv this] have "notify_inv interval (l\<lparr>l_last := (l_last l)(ref \<mapsto> now)\<rparr>, now, (ref, now) # hist)"
      by (simp add: u)
    then show ?thesis using 1 o None by (auto simp: offer_def due_def [symmetric] Let_def)
  next
    case 2
    then have e: "l' = l\<lparr>l_deferred := (l_deferred l)(ref \<mapsto> due)\<rparr>" "started = []"
      using o None by (auto simp: offer_def due_def [symmetric] Let_def)
    have "limited interval l' now r t" if "(r, t) \<in> set hist" for r t
      using inv_limited [OF inv that] that lim [of t] by (cases "r = ref") (auto simp: limited_def e split: option.splits)
    then show ?thesis using inv e by (simp add: notify_inv_def)
  next
    case 3
    then have "l' = l" "started = []" using o None by (auto simp: offer_def due_def [symmetric] Let_def)
    then show ?thesis using inv by simp
  qed
qed

lemma notify_step_inv: "notify_inv interval s \<Longrightarrow> notify_step interval s s' \<Longrightarrow> notify_inv interval s'"
  by (erule notify_step.cases)
    (auto simp: tick_def split: prod.splits intro: offer_inv notify_later forget_inv tick_start_inv)

lemma notify_start_inv: "notify_start s \<Longrightarrow> notify_inv interval s"
  by (auto simp: notify_start_def notify_inv_def)

interpretation notify: invariant_system notify_start "notify_step interval" "notify_inv interval" for interval
  by unfold_locales (rule notify_start_inv, assumption, rule notify_step_inv)

text \<open>
  C27. Notifications never evaluate a group twice within the interval: over any sequence of offers
  and ticks with a clock that does not run backwards, whatever slots are free and in whatever order
  the deferred groups are visited, two starts of one group are at least the interval apart.
\<close>

theorem notify_spacing:
  assumes "reach notify_start (notify_step interval) (l, clock, hist)"
    and "i < j" "j < length hist" "fst (hist ! i) = fst (hist ! j)"
  shows "snd (hist ! j) + interval \<le> snd (hist ! i)"
proof -
  have "spaced interval hist" using notify.reach_inv [OF assms(1)] by (simp add: notify_inv_def)
  then show ?thesis using assms(2-4) by (rule spaced_nth)
qed

text \<open>A group offered at 10 and again at 17 is started twice with an interval of five.\<close>

theorem notify_spacing_witness:
  "snd ([((1, 1), 17), ((1, 1), 10)] ! 1) + 5 \<le> (snd ([((1, 1), 17), ((1, 1), 10)] ! 0) :: int)"
proof -
  let ?r = "(1, 1) :: groupRef"
  let ?l1 = "newNotifyLimiter\<lparr>l_last := [?r \<mapsto> 10]\<rparr>"
  have "offer 5 ?r 10 (\<lambda>_. True) newNotifyLimiter = (?l1, [?r])" "offer 5 ?r 17 (\<lambda>_. True) ?l1 = (?l1\<lparr>l_last := [?r \<mapsto> 17]\<rparr>, [?r])"
    by (simp_all add: offer_def newNotifyLimiter_def Let_def)
  then have s: "notify_step 5 (newNotifyLimiter, 0, []) (?l1, 10, [(?r, 10)])"
    "notify_step 5 (?l1, 10, [(?r, 10)]) (?l1\<lparr>l_last := [?r \<mapsto> 17]\<rparr>, 17, [(?r, 17), (?r, 10)])"
    using notify_step.offer [of 0 10 5 ?r "\<lambda>_. True" newNotifyLimiter ?l1 "[?r]" "[]"]
      notify_step.offer [of 10 17 5 ?r "\<lambda>_. True" ?l1 "?l1\<lparr>l_last := [?r \<mapsto> 17]\<rparr>" "[?r]" "[(?r, 10)]"] by simp_all
  have "reach notify_start (notify_step 5) (newNotifyLimiter, 0, [])" by (rule reach.init) (simp add: notify_start_def)
  from reach.step [OF reach.step [OF this s(1)] s(2)] show ?thesis using notify_spacing by fastforce
qed

end
