(* ===== verification/Spec2Isabelle.thy ===== *)
theory Spec2Isabelle
  imports Glob Apperr Authz_Laws Admit_Laws Idgen Durationx_Laws Policy_Signal_Laws Policy_Evaluate_Laws
    Site_Matcher_Laws Textdiff_Laws Breaker_Service_Laws
begin

text \<open>
  \<^bold>\<open>Verification of Spinneret.\<close>

  Spinneret hands out leases on crawler identities and proxies.  A request path is normalised and
  mapped by the rules of a site to an endpoint group; an acquire passes the circuit breaker of the
  group and gets a lease; reports of the results are classified by a signal policy and turned into
  dispositions by an action policy; every call is admitted by a queue, authorised by roles or token
  scopes, and answered with typed errors.  This development models the decision code of these parts.

  \<^bold>\<open>Conventions.\<close>  Go strings are lists of bytes; \<^verbatim>\<open>int\<close> and \<^verbatim>\<open>int64\<close> are integers, wrapped by
  \<open>wrap64\<close> where the source can leave the range; \<^verbatim>\<open>float64\<close> is exact rationals rounded as IEEE 754
  does (\<open>Float64\<close>); nil is \<open>None\<close>; a result with an error is a sum with the error on the left;
  structs are records whose fields carry a prefix of the type.  State machines are step relations
  with \<open>Transition.reach\<close>, and their invariants interpret the locale \<open>invariant_system\<close>.

  \<^bold>\<open>Theories and sources.\<close>
    \<^item> \<open>Prelude\<close>, \<open>Transition\<close>, \<open>Utf8\<close>, \<open>Strconv\<close>, \<open>Float64\<close>: shared lemmas, transition systems and what the
      sources use of the Go library (runes, \<^verbatim>\<open>EqualFold\<close>, number formatting and parsing, trimming,
      floating point).
    \<^item> \<open>Glob\<close> (\<^verbatim>\<open>internal/pkg/glob\<close>): the matcher agrees with the meaning of its patterns.
    \<^item> \<open>Apperr\<close> (\<^verbatim>\<open>internal/apperr\<close>): error values and their conversion to the wire, which hides every
      cause that is not an application error.
    \<^item> \<open>Authz\<close>, \<open>Authz_Laws\<close> (\<^verbatim>\<open>internal/authz\<close>): roles, scopes and \<^verbatim>\<open>Can\<close>; no grant leaves its tenant,
      namespace or site; scope parsing and the site filter.
    \<^item> \<open>Admit\<close>, \<open>Admit_Laws\<close> (\<^verbatim>\<open>internal/pkg/admit\<close>): the admission queue as a step relation over
      callers; accounting, order, bounds, progress and the absence of lost wake-ups.
    \<^item> \<open>Idgen\<close> (\<^verbatim>\<open>internal/pkg/idgen\<close>): lease identifiers round trip.
    \<^item> \<open>Durationx\<close>, \<open>Durationx_Laws\<close> (\<^verbatim>\<open>internal/pkg/durationx\<close>): durations print and parse back, with
      \<^verbatim>\<open>time.ParseDuration\<close> and \<^verbatim>\<open>time.Duration.String\<close>.
    \<^item> \<open>Policy_Base\<close>, \<open>Policy_Signal\<close>, \<open>Policy_Signal_Laws\<close> (\<^verbatim>\<open>internal/policy\<close>: \<^verbatim>\<open>signal.go\<close>, \<^verbatim>\<open>classify.go\<close>,
      \<^verbatim>\<open>matchers.go\<close>): compiled signal rules refine the rules as written.
    \<^item> \<open>Policy_Action\<close>, \<open>Policy_Severity\<close>, \<open>Policy_Severity_Laws\<close>, \<open>Policy_Evaluate\<close>, \<open>Policy_Evaluate_Laws\<close>
      (\<^verbatim>\<open>action_spec.go\<close>, \<^verbatim>\<open>severity.go\<close>, \<^verbatim>\<open>evaluate.go\<close>): dispositions stay within blame and scope, the
      strongest reached step is taken, cooldowns stay in range.
    \<^item> \<open>Policy_Specs\<close>, \<open>Policy_Resolve\<close>, \<open>Policy_Resolve_Laws\<close> (\<^verbatim>\<open>rotation.go\<close>, \<^verbatim>\<open>breaker.go\<close>, \<^verbatim>\<open>resolve.go\<close>,
      \<^verbatim>\<open>defaults.go\<close>): validation and defaults, inheritance and the most specific binding.
    \<^item> \<open>Site_Path\<close>, \<open>Site_Path_Laws\<close>, \<open>Site_Matcher\<close>, \<open>Site_Template_Laws\<close>, \<open>Site_Radix_Laws\<close>,
      \<open>Site_Matcher_Laws\<close> (\<^verbatim>\<open>internal/site\<close>): paths, patterns, the bound on regular expressions, and the
      radix tree, which finds what a scan over all rules finds.
    \<^item> \<open>Textdiff\<close>, \<open>Textdiff_Laws\<close> (\<^verbatim>\<open>internal/pkg/textdiff\<close>): a unified diff applies to the first text
      and gives the second; the edit script is minimal within the table limit.
    \<^item> \<open>Breaker\<close>, \<open>Breaker_Laws\<close> (\<^verbatim>\<open>internal/breaker/scripts.go\<close>, \<^verbatim>\<open>breaker_eval.lua\<close>, \<^verbatim>\<open>breaker_set.lua\<close>,
      and the parts of \<^verbatim>\<open>acquire_main.lua\<close>, \<^verbatim>\<open>acquire_write.lua\<close>, \<^verbatim>\<open>lease_end.lua\<close>, \<^verbatim>\<open>observe.lua\<close> and
      \<^verbatim>\<open>sync_maintenance.lua\<close> that touch a breaker): the hash of a group as the record \<open>brk\<close>, one
      definition per writer, their interleavings as \<open>brk_step\<close>; the invariant of the hash, the decisions
      of an evaluation, and the exact waits of the gate.
    \<^item> \<open>Breaker_Service\<close>, \<open>Breaker_Service_Laws\<close> (\<^verbatim>\<open>evaluate.go\<close>, \<^verbatim>\<open>transition.go\<close>, \<^verbatim>\<open>status.go\<close>, \<^verbatim>\<open>admin.go\<close>,
      \<^verbatim>\<open>service.go\<close>, \<^verbatim>\<open>notify.go\<close>): every transition is recorded once, what a manual open does, and the
      spacing of notified evaluations.

  \<^bold>\<open>Interfaces.\<close>  \<open>invariant_system\<close> (\<open>Transition\<close>) is interpreted by the admission queue, the breaker and
  the notification limiter; the other locales of the theories are interpreted beside the
  definitions they are about.

  \<^bold>\<open>Bounds and termination.\<close>  No definition uses fuel: loops are structural recursions or functions
  with a termination proof, such as the doubling of the open period, the walk of the radix tree and
  the parsing of durations.  The breaker scripts compute with doubles; the model uses integers, exact
  below 2^53, which milliseconds and counters do not reach; theorems about decoded replies assume
  that the numbers fit into 64 bits.  The table of the text diff has the limit of the source.

  \<^bold>\<open>Parameters.\<close>  Compiled regular expressions, the HyperLogLog count and the counters of the window,
  random numbers, the answers of the slot callback and the iteration order of Go maps are
  arguments of the definitions.

  \<^bold>\<open>Not modelled.\<close>  PostgreSQL, Redis other than the breaker hash, HTTP, cryptography, generated code,
  the web console, the SDKs and the commands: they are calls to systems outside the repository or
  glue around them.  Of the packages with decision code of their own, the identity types
  (\<^verbatim>\<open>internal/identity\<close>), the alert rules (\<^verbatim>\<open>internal/notify\<close>), the address rules (\<^verbatim>\<open>internal/pkg/netx\<close>), the
  throttles of \<^verbatim>\<open>internal/auth\<close> and the rest of the Redis scripts (acquire, release, reports, actions,
  synchronisation, \<^verbatim>\<open>revert.lua\<close>) are not covered; decoding of YAML and JSON policies is not modelled
  because it is done by third-party packages.
\<close>

end
